(* ===== verification/Mu_Prelude.thy ===== *)
theory Mu_Prelude
  imports Main "HOL-Library.Word"
begin

text \<open>
  The prelude of the development: the names of the C types of
  \<^verbatim>\<open>include/muc_opcua/opcua_types.h\<close>, the collections of facts that the
  component proofs share, and the generic lemmas on lists, options and words.

  Machine integers keep their width: an \<^verbatim>\<open>opcua_uint32_t\<close> is a \<^typ>\<open>32 word\<close>, and
  the signed types are words of the same width read through \<^const>\<open>sint\<close>, so a
  C cast between the signed and the unsigned type of one width is the identity.
  An IEEE-754 \<^verbatim>\<open>float\<close> or \<^verbatim>\<open>double\<close> is the word of its bit pattern, which is all
  the code moves around with \<^verbatim>\<open>memcpy\<close>.  A \<^verbatim>\<open>size_t\<close> is a \<^typ>\<open>nat\<close>.
\<close>

unbundle bit_operations_syntax

type_synonym byte = "8 word"
type_synonym u16 = "16 word"
type_synonym u32 = "32 word"
type_synonym u64 = "64 word"
type_synonym statuscode = "32 word"

named_theorems wire_simps \<open>one step of a sequenced encoder or decoder\<close>
named_theorems wire_intros \<open>wire formats of encoders and decoders, by structure\<close>
named_theorems safe_intros \<open>memory safety of decoders and encoders, by structure\<close>

section \<open>Overwriting a span of a buffer\<close>

text \<open>\<^verbatim>\<open>memcpy(buf + i, bs, n)\<close> and the byte stores of the writer: the bytes of
  \<open>bs\<close> replace those at the offsets \<open>i, i + 1, ...\<close> of the buffer.\<close>

definition overwrite :: "'a list \<Rightarrow> nat \<Rightarrow> 'a list \<Rightarrow> 'a list" where
  "overwrite xs i bs = take i xs @ bs @ drop (i + length bs) xs"

lemma length_overwrite [simp]:
  "i + length bs \<le> length xs \<Longrightarrow> length (overwrite xs i bs) = length xs"
  by (simp add: overwrite_def)

lemma overwrite_Nil [simp]: "overwrite xs i [] = xs"
  by (simp add: overwrite_def)

lemma overwrite_overwrite_append:
  "i + length as + length bs \<le> length xs \<Longrightarrow>
   overwrite (overwrite xs i as) (i + length as) bs = overwrite xs i (as @ bs)"
  by (cases as) (auto simp: overwrite_def min_def ac_simps)

lemma take_overwrite:
  "i + length bs \<le> length xs \<Longrightarrow> n \<le> i \<Longrightarrow> take n (overwrite xs i bs) = take n xs"
  by (simp add: overwrite_def min_def)

lemma take_overwrite_end:
  "i + length bs \<le> length xs \<Longrightarrow>
   take (i + length bs) (overwrite xs i bs) = take i xs @ bs"
  by (cases bs) (auto simp: overwrite_def min_def)

lemma drop_overwrite:
  "i + length bs \<le> length xs \<Longrightarrow> i + length bs \<le> n \<Longrightarrow>
   drop n (overwrite xs i bs) = drop n xs"
  by (simp add: overwrite_def min_def)

lemma drop_overwrite_start:
  "i + length bs \<le> length xs \<Longrightarrow>
   drop i (overwrite xs i bs) = bs @ drop (i + length bs) xs"
  by (simp add: overwrite_def)

lemma nth_overwrite:
  "i + length bs \<le> length xs \<Longrightarrow> j < length xs \<Longrightarrow>
   overwrite xs i bs ! j = (if i \<le> j \<and> j < i + length bs then bs ! (j - i) else xs ! j)"
  by (auto simp: overwrite_def nth_append min_def)

section \<open>Words\<close>

lemma ucast_and_FF [simp]: "(ucast (x AND 0xFF) :: byte) = ucast (x :: 'a::len word)"
proof -
  have "(0xFF :: 'a word) = mask 8" by (simp add: mask_eq_exp_minus_1)
  then have "x AND 0xFF = take_bit 8 x" by (simp add: take_bit_eq_mask)
  then show ?thesis
    by (auto intro!: bit_word_eqI simp: bit_simps dest: bit_imp_le_length)
qed

lemma ucast_ucast_small:
  "unat (x :: 'a::len word) < 2 ^ LENGTH('b) \<Longrightarrow> ucast (ucast x :: 'b::len word) = x"
  by (rule word_unat_eq_iff [THEN iffD2]) (simp add: unsigned_ucast_eq unsigned_take_bit_eq take_bit_nat_eq_self_iff)

lemma unat_of_nat_small: "n < 2 ^ LENGTH('a) \<Longrightarrow> unat (of_nat n :: 'a::len word) = n"
  by (simp add: unsigned_of_nat take_bit_nat_eq_self)

lemma unat_u32: "unat (w :: u32) < 4294967296"
  by (rule order.strict_trans2 [OF unsigned_less]) simp

section \<open>The first element that satisfies a test\<close>

text \<open>The slot searches of the code: a \<^verbatim>\<open>for\<close> loop over an array that returns
  the first index whose entry passes a test.\<close>

fun find_index :: "('a \<Rightarrow> bool) \<Rightarrow> 'a list \<Rightarrow> nat option" where
  "find_index P [] = None"
| "find_index P (x # xs) = (if P x then Some 0 else map_option Suc (find_index P xs))"

lemma find_index_SomeD:
  "find_index P xs = Some i \<Longrightarrow>
   i < length xs \<and> P (xs ! i) \<and> (\<forall>j < i. \<not> P (xs ! j))"
proof (induction xs arbitrary: i)
  case (Cons x xs)
  then show ?case
    by (auto split: if_splits simp: less_Suc_eq_0_disj)
qed simp

lemma find_index_None_iff: "find_index P xs = None \<longleftrightarrow> (\<forall>x \<in> set xs. \<not> P x)"
  by (induction xs) auto

lemma find_index_Some_ex:
  "x \<in> set xs \<Longrightarrow> P x \<Longrightarrow> \<exists>i. find_index P xs = Some i"
  using find_index_None_iff [of P xs] by (cases "find_index P xs") auto

lemma nth_update: "j < length xs \<Longrightarrow> xs[i := x] ! j = (if i = j then x else xs ! j)"
  by auto

lemma list_all_update: "\<lbrakk>list_all P xs; P x\<rbrakk> \<Longrightarrow> list_all P (xs[i := x])"
  by (auto simp: list_all_length nth_update)

end
