(* ===== verification/Mu_Types.thy ===== *)
theory Mu_Types
  imports Mu_Prelude
begin

text \<open>
  The data types of \<^verbatim>\<open>include/muc_opcua/types.h\<close> and the status codes of
  \<^verbatim>\<open>include/muc_opcua/status.h\<close>.  A struct is a record; a tag together with the
  union it selects is a datatype; a pointer that the code tests against
  \<^verbatim>\<open>NULL\<close> is an option.
\<close>

section \<open>Status codes\<close>

abbreviation MU_STATUS_GOOD :: statuscode where "MU_STATUS_GOOD \<equiv> 0"
abbreviation MU_STATUS_BAD_UNEXPECTEDERROR :: statuscode where "MU_STATUS_BAD_UNEXPECTEDERROR \<equiv> 0x80010000"
abbreviation MU_STATUS_BAD_INTERNALERROR :: statuscode where "MU_STATUS_BAD_INTERNALERROR \<equiv> 0x80020000"
abbreviation MU_STATUS_BAD_OUTOFMEMORY :: statuscode where "MU_STATUS_BAD_OUTOFMEMORY \<equiv> 0x80030000"
abbreviation MU_STATUS_BAD_ENCODINGERROR :: statuscode where "MU_STATUS_BAD_ENCODINGERROR \<equiv> 0x80060000"
abbreviation MU_STATUS_BAD_DECODINGERROR :: statuscode where "MU_STATUS_BAD_DECODINGERROR \<equiv> 0x80070000"
abbreviation MU_STATUS_BAD_ENCODINGLIMITSEXCEEDED :: statuscode where "MU_STATUS_BAD_ENCODINGLIMITSEXCEEDED \<equiv> 0x80080000"
abbreviation MU_STATUS_BAD_TIMEOUT :: statuscode where "MU_STATUS_BAD_TIMEOUT \<equiv> 0x800A0000"
abbreviation MU_STATUS_BAD_SERVICEUNSUPPORTED :: statuscode where "MU_STATUS_BAD_SERVICEUNSUPPORTED \<equiv> 0x800B0000"
abbreviation MU_STATUS_BAD_NOTSUPPORTED :: statuscode where "MU_STATUS_BAD_NOTSUPPORTED \<equiv> 0x803D0000"
abbreviation MU_STATUS_BAD_NOTREADABLE :: statuscode where "MU_STATUS_BAD_NOTREADABLE \<equiv> 0x803A0000"
abbreviation MU_STATUS_BAD_SECURITYCHECKSFAILED :: statuscode where "MU_STATUS_BAD_SECURITYCHECKSFAILED \<equiv> 0x80130000"
abbreviation MU_STATUS_BAD_CERTIFICATETIMEINVALID :: statuscode where "MU_STATUS_BAD_CERTIFICATETIMEINVALID \<equiv> 0x80140000"
abbreviation MU_STATUS_BAD_REQUESTTOOLARGE :: statuscode where "MU_STATUS_BAD_REQUESTTOOLARGE \<equiv> 0x80B80000"
abbreviation MU_STATUS_BAD_RESPONSETOOLARGE :: statuscode where "MU_STATUS_BAD_RESPONSETOOLARGE \<equiv> 0x80B90000"
abbreviation MU_STATUS_BAD_SESSIONIDINVALID :: statuscode where "MU_STATUS_BAD_SESSIONIDINVALID \<equiv> 0x80250000"
abbreviation MU_STATUS_BAD_SESSIONNOTACTIVATED :: statuscode where "MU_STATUS_BAD_SESSIONNOTACTIVATED \<equiv> 0x80270000"
abbreviation MU_STATUS_BAD_IDENTITYTOKENINVALID :: statuscode where "MU_STATUS_BAD_IDENTITYTOKENINVALID \<equiv> 0x80200000"
abbreviation MU_STATUS_BAD_IDENTITYTOKENREJECTED :: statuscode where "MU_STATUS_BAD_IDENTITYTOKENREJECTED \<equiv> 0x80210000"
abbreviation MU_STATUS_BAD_SECURECHANNELIDINVALID :: statuscode where "MU_STATUS_BAD_SECURECHANNELIDINVALID \<equiv> 0x80220000"
abbreviation MU_STATUS_BAD_SECURITYPOLICYREJECTED :: statuscode where "MU_STATUS_BAD_SECURITYPOLICYREJECTED \<equiv> 0x80550000"
abbreviation MU_STATUS_BAD_TOOMANYSESSIONS :: statuscode where "MU_STATUS_BAD_TOOMANYSESSIONS \<equiv> 0x80560000"
abbreviation MU_STATUS_BAD_SESSIONCLOSED :: statuscode where "MU_STATUS_BAD_SESSIONCLOSED \<equiv> 0x80260000"
abbreviation MU_STATUS_BAD_USERACCESSDENIED :: statuscode where "MU_STATUS_BAD_USERACCESSDENIED \<equiv> 0x801F0000"
abbreviation MU_STATUS_BAD_NODEIDUNKNOWN :: statuscode where "MU_STATUS_BAD_NODEIDUNKNOWN \<equiv> 0x80340000"
abbreviation MU_STATUS_BAD_NOTFOUND :: statuscode where "MU_STATUS_BAD_NOTFOUND \<equiv> 0x803E0000"
abbreviation MU_STATUS_BAD_NODECLASSINVALID :: statuscode where "MU_STATUS_BAD_NODECLASSINVALID \<equiv> 0x805F0000"
abbreviation MU_STATUS_BAD_NODEIDEXISTS :: statuscode where "MU_STATUS_BAD_NODEIDEXISTS \<equiv> 0x805E0000"
abbreviation MU_STATUS_BAD_NODEIDREJECTED :: statuscode where "MU_STATUS_BAD_NODEIDREJECTED \<equiv> 0x805D0000"
abbreviation MU_STATUS_BAD_MONITOREDITEMIDINVALID :: statuscode where "MU_STATUS_BAD_MONITOREDITEMIDINVALID \<equiv> 0x80420000"
abbreviation MU_STATUS_BAD_TOOMANYOPERATIONS :: statuscode where "MU_STATUS_BAD_TOOMANYOPERATIONS \<equiv> 0x80100000"
abbreviation MU_STATUS_BAD_NODEIDINVALID :: statuscode where "MU_STATUS_BAD_NODEIDINVALID \<equiv> 0x80330000"
abbreviation MU_STATUS_BAD_METHODINVALID :: statuscode where "MU_STATUS_BAD_METHODINVALID \<equiv> 0x80750000"
abbreviation MU_STATUS_BAD_ARGUMENTSMISSING :: statuscode where "MU_STATUS_BAD_ARGUMENTSMISSING \<equiv> 0x80760000"
abbreviation MU_STATUS_BAD_TOOMANYARGUMENTS :: statuscode where "MU_STATUS_BAD_TOOMANYARGUMENTS \<equiv> 0x80E50000"
abbreviation MU_STATUS_BAD_INVALIDARGUMENT :: statuscode where "MU_STATUS_BAD_INVALIDARGUMENT \<equiv> 0x80AB0000"
abbreviation MU_STATUS_BAD_NOCONTINUATIONPOINTS :: statuscode where "MU_STATUS_BAD_NOCONTINUATIONPOINTS \<equiv> 0x804B0000"
abbreviation MU_STATUS_BAD_CONTINUATIONPOINTINVALID :: statuscode where "MU_STATUS_BAD_CONTINUATIONPOINTINVALID \<equiv> 0x804A0000"
abbreviation MU_STATUS_BAD_ATTRIBUTEIDINVALID :: statuscode where "MU_STATUS_BAD_ATTRIBUTEIDINVALID \<equiv> 0x80350000"
abbreviation MU_STATUS_BAD_NOMATCH :: statuscode where "MU_STATUS_BAD_NOMATCH \<equiv> 0x806F0000"
abbreviation MU_STATUS_BAD_CERTIFICATEINVALID :: statuscode where "MU_STATUS_BAD_CERTIFICATEINVALID \<equiv> 0x80120000"
abbreviation MU_STATUS_BAD_SECURITYMODEREJECTED :: statuscode where "MU_STATUS_BAD_SECURITYMODEREJECTED \<equiv> 0x80540000"
abbreviation MU_STATUS_BAD_TOOMANYMONITOREDITEMS :: statuscode where "MU_STATUS_BAD_TOOMANYMONITOREDITEMS \<equiv> 0x80DB0000"
abbreviation MU_STATUS_BAD_TOOMANYSUBSCRIPTIONS :: statuscode where "MU_STATUS_BAD_TOOMANYSUBSCRIPTIONS \<equiv> 0x80770000"
abbreviation MU_STATUS_BAD_SUBSCRIPTIONIDINVALID :: statuscode where "MU_STATUS_BAD_SUBSCRIPTIONIDINVALID \<equiv> 0x80280000"
abbreviation MU_STATUS_BAD_MESSAGENOTAVAILABLE :: statuscode where "MU_STATUS_BAD_MESSAGENOTAVAILABLE \<equiv> 0x807B0000"
abbreviation MU_STATUS_BAD_SEQUENCENUMBERUNKNOWN :: statuscode where "MU_STATUS_BAD_SEQUENCENUMBERUNKNOWN \<equiv> 0x807A0000"
abbreviation MU_STATUS_BAD_TOOMANYPUBLISHREQUESTS :: statuscode where "MU_STATUS_BAD_TOOMANYPUBLISHREQUESTS \<equiv> 0x80780000"
abbreviation MU_STATUS_BAD_NOTHINGTODO :: statuscode where "MU_STATUS_BAD_NOTHINGTODO \<equiv> 0x800F0000"
abbreviation MU_STATUS_BAD_NOTWRITABLE :: statuscode where "MU_STATUS_BAD_NOTWRITABLE \<equiv> 0x803B0000"
abbreviation MU_STATUS_BAD_WRITENOTSUPPORTED :: statuscode where "MU_STATUS_BAD_WRITENOTSUPPORTED \<equiv> 0x80730000"
abbreviation MU_STATUS_BAD_TYPEMISMATCH :: statuscode where "MU_STATUS_BAD_TYPEMISMATCH \<equiv> 0x80740000"
abbreviation MU_STATUS_BAD_HISTORYOPERATIONUNSUPPORTED :: statuscode where "MU_STATUS_BAD_HISTORYOPERATIONUNSUPPORTED \<equiv> 0x80720000"
abbreviation MU_STATUS_BAD_MONITOREDITEMFILTERUNSUPPORTED :: statuscode where "MU_STATUS_BAD_MONITOREDITEMFILTERUNSUPPORTED \<equiv> 0x80440000"
abbreviation MU_STATUS_BAD_MONITOREDITEMFILTERINVALID :: statuscode where "MU_STATUS_BAD_MONITOREDITEMFILTERINVALID \<equiv> 0x80430000"
abbreviation MU_STATUS_BAD_FILTERNOTALLOWED :: statuscode where "MU_STATUS_BAD_FILTERNOTALLOWED \<equiv> 0x80450000"
abbreviation MU_STATUS_BAD_TIMESTAMPSTORETURNINVALID :: statuscode where "MU_STATUS_BAD_TIMESTAMPSTORETURNINVALID \<equiv> 0x802A0000"
abbreviation MU_STATUS_BAD_BROWSEDIRECTIONINVALID :: statuscode where "MU_STATUS_BAD_BROWSEDIRECTIONINVALID \<equiv> 0x804D0000"
abbreviation MU_STATUS_BAD_NODATA :: statuscode where "MU_STATUS_BAD_NODATA \<equiv> 0x809B0000"
abbreviation MU_STATUS_BAD_TCPSERVERTOOBUSY :: statuscode where "MU_STATUS_BAD_TCPSERVERTOOBUSY \<equiv> 0x807D0000"
abbreviation MU_STATUS_BAD_TCPMESSAGETYPEINVALID :: statuscode where "MU_STATUS_BAD_TCPMESSAGETYPEINVALID \<equiv> 0x807E0000"
abbreviation MU_STATUS_BAD_TCPSECURECHANNELUNKNOWN :: statuscode where "MU_STATUS_BAD_TCPSECURECHANNELUNKNOWN \<equiv> 0x807F0000"
abbreviation MU_STATUS_BAD_TCPMESSAGETOOLARGE :: statuscode where "MU_STATUS_BAD_TCPMESSAGETOOLARGE \<equiv> 0x80800000"
abbreviation MU_STATUS_BAD_TCPNOTENOUGHRESOURCES :: statuscode where "MU_STATUS_BAD_TCPNOTENOUGHRESOURCES \<equiv> 0x80810000"
abbreviation MU_STATUS_BAD_TCPINTERNALERROR :: statuscode where "MU_STATUS_BAD_TCPINTERNALERROR \<equiv> 0x80820000"
abbreviation MU_STATUS_BAD_TCPENDPOINTURLINVALID :: statuscode where "MU_STATUS_BAD_TCPENDPOINTURLINVALID \<equiv> 0x80830000"
abbreviation MU_STATUS_BAD_CERTIFICATEUNTRUSTED :: statuscode where "MU_STATUS_BAD_CERTIFICATEUNTRUSTED \<equiv> 0x801A0000"

section \<open>Strings, node identifiers, qualified names\<close>

text \<open>\<^verbatim>\<open>mu_string_t\<close> and \<^verbatim>\<open>mu_bytestring_t\<close> are the same struct in the code (the
  byte string functions cast one to the other).  The length is an \<^verbatim>\<open>Int32\<close>;
  -1 marks the null string.\<close>

record mu_string =
  str_length :: u32
  str_data :: "byte list option"

definition null_string :: mu_string where
  "null_string = \<lparr>str_length = -1, str_data = None\<rparr>"

definition mk_string :: "byte list \<Rightarrow> mu_string" where
  "mk_string bs = \<lparr>str_length = of_nat (length bs), str_data = Some bs\<rparr>"

text \<open>\<^verbatim>\<open>mu_nodeid_t\<close>: the tag \<^verbatim>\<open>identifier_type\<close> with the union member it selects;
  the GUID and Opaque tags have no member.\<close>

datatype mu_identifier = NumericId u32 | StringId mu_string | GuidId | OpaqueId

record mu_nodeid =
  namespace_index :: u16
  nid_identifier :: mu_identifier

text \<open>A numeric node id of namespace 0.\<close>

definition ns0 :: "u32 \<Rightarrow> mu_nodeid" where
  "ns0 i = \<lparr>namespace_index = 0, nid_identifier = NumericId i\<rparr>"

record mu_expanded_nodeid =
  exp_node_id :: mu_nodeid
  namespace_uri :: mu_string
  server_index :: u32

record mu_qualified_name =
  qn_namespace_index :: u16
  qn_name :: mu_string

record mu_localized_text =
  lt_locale :: mu_string
  lt_text :: mu_string

section \<open>Variants and data values\<close>

datatype mu_builtin_type =
    MU_TYPE_NULL | MU_TYPE_BOOLEAN | MU_TYPE_SBYTE | MU_TYPE_BYTE | MU_TYPE_INT16
  | MU_TYPE_UINT16 | MU_TYPE_INT32 | MU_TYPE_UINT32 | MU_TYPE_INT64 | MU_TYPE_UINT64
  | MU_TYPE_FLOAT | MU_TYPE_DOUBLE | MU_TYPE_STRING | MU_TYPE_DATETIME | MU_TYPE_GUID
  | MU_TYPE_BYTESTRING | MU_TYPE_XMLELEMENT | MU_TYPE_NODEID | MU_TYPE_EXPANDEDNODEID
  | MU_TYPE_STATUSCODE | MU_TYPE_QUALIFIEDNAME | MU_TYPE_LOCALIZEDTEXT
  | MU_TYPE_EXTENSIONOBJECT | MU_TYPE_DATAVALUE | MU_TYPE_VARIANT | MU_TYPE_DIAGNOSTICINFO

fun type_code :: "mu_builtin_type \<Rightarrow> byte" where
  "type_code MU_TYPE_NULL = 0"
| "type_code MU_TYPE_BOOLEAN = 1"
| "type_code MU_TYPE_SBYTE = 2"
| "type_code MU_TYPE_BYTE = 3"
| "type_code MU_TYPE_INT16 = 4"
| "type_code MU_TYPE_UINT16 = 5"
| "type_code MU_TYPE_INT32 = 6"
| "type_code MU_TYPE_UINT32 = 7"
| "type_code MU_TYPE_INT64 = 8"
| "type_code MU_TYPE_UINT64 = 9"
| "type_code MU_TYPE_FLOAT = 10"
| "type_code MU_TYPE_DOUBLE = 11"
| "type_code MU_TYPE_STRING = 12"
| "type_code MU_TYPE_DATETIME = 13"
| "type_code MU_TYPE_GUID = 14"
| "type_code MU_TYPE_BYTESTRING = 15"
| "type_code MU_TYPE_XMLELEMENT = 16"
| "type_code MU_TYPE_NODEID = 17"
| "type_code MU_TYPE_EXPANDEDNODEID = 18"
| "type_code MU_TYPE_STATUSCODE = 19"
| "type_code MU_TYPE_QUALIFIEDNAME = 20"
| "type_code MU_TYPE_LOCALIZEDTEXT = 21"
| "type_code MU_TYPE_EXTENSIONOBJECT = 22"
| "type_code MU_TYPE_DATAVALUE = 23"
| "type_code MU_TYPE_VARIANT = 24"
| "type_code MU_TYPE_DIAGNOSTICINFO = 25"

text \<open>The union of \<^verbatim>\<open>mu_variant_t\<close> with the tag that selects the member.\<close>

datatype mu_scalar =
    V_Boolean bool | V_SByte byte | V_Byte byte | V_Int16 u16 | V_UInt16 u16
  | V_Int32 u32 | V_UInt32 u32 | V_Int64 u64 | V_UInt64 u64 | V_Float u32 | V_Double u64
  | V_String mu_string | V_ByteString mu_string | V_DateTime u64 | V_StatusCode statuscode
  | V_NodeId mu_nodeid | V_QualifiedName mu_qualified_name | V_LocalizedText mu_localized_text

fun scalar_type :: "mu_scalar \<Rightarrow> mu_builtin_type" where
  "scalar_type (V_Boolean _) = MU_TYPE_BOOLEAN"
| "scalar_type (V_SByte _) = MU_TYPE_SBYTE"
| "scalar_type (V_Byte _) = MU_TYPE_BYTE"
| "scalar_type (V_Int16 _) = MU_TYPE_INT16"
| "scalar_type (V_UInt16 _) = MU_TYPE_UINT16"
| "scalar_type (V_Int32 _) = MU_TYPE_INT32"
| "scalar_type (V_UInt32 _) = MU_TYPE_UINT32"
| "scalar_type (V_Int64 _) = MU_TYPE_INT64"
| "scalar_type (V_UInt64 _) = MU_TYPE_UINT64"
| "scalar_type (V_Float _) = MU_TYPE_FLOAT"
| "scalar_type (V_Double _) = MU_TYPE_DOUBLE"
| "scalar_type (V_String _) = MU_TYPE_STRING"
| "scalar_type (V_ByteString _) = MU_TYPE_BYTESTRING"
| "scalar_type (V_DateTime _) = MU_TYPE_DATETIME"
| "scalar_type (V_StatusCode _) = MU_TYPE_STATUSCODE"
| "scalar_type (V_NodeId _) = MU_TYPE_NODEID"
| "scalar_type (V_QualifiedName _) = MU_TYPE_QUALIFIEDNAME"
| "scalar_type (V_LocalizedText _) = MU_TYPE_LOCALIZEDTEXT"

text \<open>\<^verbatim>\<open>mu_variant_t\<close>: \<open>VNull\<close> and \<open>VScalar\<close> have \<^verbatim>\<open>is_array\<close> false; \<open>VArray\<close> carries
  the tag, \<^verbatim>\<open>array_length\<close> and the element pointer; \<open>VOpaque\<close> is a scalar whose
  tag has no member in the union.\<close>

datatype mu_variant =
    VNull
  | VScalar mu_scalar
  | VArray mu_builtin_type u32 "mu_scalar list option"
  | VOpaque mu_builtin_type

record mu_datavalue =
  dv_value :: mu_variant
  dv_status :: statuscode
  source_timestamp :: u64
  server_timestamp :: u64
  has_value :: bool
  has_status :: bool
  has_source_timestamp :: bool
  has_server_timestamp :: bool

record mu_username_identity_token =
  un_policy_id :: mu_string
  un_username :: mu_string
  un_password :: mu_string
  un_encryption_algorithm :: mu_string

record mu_certificate_identity_token =
  ci_policy_id :: mu_string
  ci_certificate_data :: mu_string

end
