(* ===== verification/Binary_Buffer.thy ===== *)
theory Binary_Buffer
  imports Mu_Types
begin

text \<open>
  The cursor structs \<^verbatim>\<open>mu_binary_reader_t\<close> and \<^verbatim>\<open>mu_binary_writer_t\<close> of
  \<^verbatim>\<open>include/muc_opcua/encoding.h\<close>, the sequencing of fallible calls that the
  code writes as \<^verbatim>\<open>if (status != MU_STATUS_GOOD) return status;\<close>, and the three
  interfaces that every codec routine is shown to implement: a memory safe
  \<open>decoder\<close>, a memory safe \<open>encoder\<close>, and a \<open>codec\<close> that pairs them over one
  wire format.
\<close>

section \<open>The reader\<close>

record mu_binary_reader =
  rd_buffer :: "byte list option"
  rd_length :: nat
  rd_position :: nat
  rd_status :: statuscode

text \<open>A decoding routine returns its C status code when it is not Good, and the
  decoded value otherwise, with the reader it leaves behind.\<close>

type_synonym 'a rd = "mu_binary_reader \<Rightarrow> (statuscode + 'a) \<times> mu_binary_reader"

definition mu_binary_reader_init :: "byte list option \<Rightarrow> nat \<Rightarrow> mu_binary_reader" where
  "mu_binary_reader_init buffer len =
     \<lparr>rd_buffer = buffer, rd_length = len, rd_position = 0, rd_status = MU_STATUS_GOOD\<rparr>"

definition rbind :: "'a rd \<Rightarrow> ('a \<Rightarrow> 'b rd) \<Rightarrow> 'b rd" where
  "rbind m f r = (case m r of (Inl s, r') \<Rightarrow> (Inl s, r') | (Inr x, r') \<Rightarrow> f x r')"

definition rreturn :: "'a \<Rightarrow> 'a rd" where
  "rreturn x r = (Inr x, r)"

text \<open>\<^verbatim>\<open>return status;\<close> without touching the reader.\<close>

definition rfail :: "statuscode \<Rightarrow> 'a rd" where
  "rfail s r = (Inl s, r)"

text \<open>A value decoded \<open>n\<close> times, one after the other.\<close>

primrec rrepeat :: "nat \<Rightarrow> 'a rd \<Rightarrow> 'a list rd" where
  "rrepeat 0 m = rreturn []"
| "rrepeat (Suc n) m = rbind m (\<lambda>x. rbind (rrepeat n m) (\<lambda>xs. rreturn (x # xs)))"

definition rd_wf :: "mu_binary_reader \<Rightarrow> bool" where
  "rd_wf r \<longleftrightarrow> rd_position r \<le> rd_length r \<and>
     (case rd_buffer r of None \<Rightarrow> True | Some b \<Rightarrow> rd_length r \<le> length b)"

definition rd_ok :: "mu_binary_reader \<Rightarrow> bool" where
  "rd_ok r \<longleftrightarrow> rd_wf r \<and> rd_buffer r \<noteq> None \<and> rd_status r = MU_STATUS_GOOD"

text \<open>The bytes between the cursor and the declared end.\<close>

definition rd_rest :: "mu_binary_reader \<Rightarrow> byte list" where
  "rd_rest r = drop (rd_position r) (take (rd_length r) (the (rd_buffer r)))"

definition rd_skip :: "nat \<Rightarrow> mu_binary_reader \<Rightarrow> mu_binary_reader" where
  "rd_skip n r = r\<lparr>rd_position := rd_position r + n\<rparr>"

text \<open>The buffer and its bounds are untouched and the cursor only moves forward,
  never past the end.\<close>

definition rd_frame :: "mu_binary_reader \<Rightarrow> mu_binary_reader \<Rightarrow> bool" where
  "rd_frame r r' \<longleftrightarrow> rd_buffer r' = rd_buffer r \<and> rd_length r' = rd_length r \<and>
     rd_position r \<le> rd_position r' \<and> rd_position r' \<le> rd_length r"

section \<open>The writer\<close>

record mu_binary_writer =
  wr_buffer :: "byte list option"
  wr_length :: nat
  wr_position :: nat
  wr_status :: statuscode

type_synonym wr = "mu_binary_writer \<Rightarrow> statuscode \<times> mu_binary_writer"

definition mu_binary_writer_init :: "byte list option \<Rightarrow> nat \<Rightarrow> mu_binary_writer" where
  "mu_binary_writer_init buffer len =
     \<lparr>wr_buffer = buffer, wr_length = len, wr_position = 0, wr_status = MU_STATUS_GOOD\<rparr>"

definition wthen :: "wr \<Rightarrow> wr \<Rightarrow> wr" where
  "wthen m k w = (case m w of (s, w') \<Rightarrow> if s \<noteq> MU_STATUS_GOOD then (s, w') else k w')"

definition wreturn :: "statuscode \<Rightarrow> wr" where
  "wreturn s w = (s, w)"

primrec wseq :: "wr list \<Rightarrow> wr" where
  "wseq [] = wreturn MU_STATUS_GOOD"
| "wseq (m # ms) = wthen m (wseq ms)"

definition wr_wf :: "mu_binary_writer \<Rightarrow> bool" where
  "wr_wf w \<longleftrightarrow> wr_position w \<le> wr_length w \<and>
     (case wr_buffer w of None \<Rightarrow> True | Some b \<Rightarrow> wr_length w \<le> length b)"

definition wr_ok :: "mu_binary_writer \<Rightarrow> bool" where
  "wr_ok w \<longleftrightarrow> wr_wf w \<and> wr_buffer w \<noteq> None \<and> wr_status w = MU_STATUS_GOOD"

definition wr_room :: "mu_binary_writer \<Rightarrow> nat" where
  "wr_room w = wr_length w - wr_position w"

text \<open>The byte stores at the cursor.\<close>

definition wr_put :: "byte list \<Rightarrow> mu_binary_writer \<Rightarrow> mu_binary_writer" where
  "wr_put bs w = w\<lparr>wr_buffer := map_option (\<lambda>b. overwrite b (wr_position w) bs) (wr_buffer w),
                   wr_position := wr_position w + length bs\<rparr>"

text \<open>Only bytes between the old and the new cursor change.\<close>

definition wr_frame :: "mu_binary_writer \<Rightarrow> mu_binary_writer \<Rightarrow> bool" where
  "wr_frame w w' \<longleftrightarrow> (\<exists>bs. length bs \<le> wr_room w \<and>
     w' = (wr_put bs w)\<lparr>wr_status := wr_status w'\<rparr>)"

section \<open>The interfaces\<close>

text \<open>What every decoding routine promises on a live reader: a success consumes
  a number of bytes of the reader's own span, and these bytes alone determine
  the value, so nothing outside the span is ever looked at; a failure is
  reported as a status other than Good and leaves the buffer alone.\<close>

locale decoder_step =
  fixes m :: "mu_binary_reader \<Rightarrow> (statuscode + 'a) \<times> mu_binary_reader"
  assumes step_ok: "rd_ok r \<Longrightarrow> m r = (Inr x, r') \<Longrightarrow>
      \<exists>n \<le> length (rd_rest r). r' = rd_skip n r \<and>
        (\<forall>q. rd_ok q \<longrightarrow> take n (rd_rest q) = take n (rd_rest r) \<longrightarrow> m q = (Inr x, rd_skip n q))"
    and step_err: "rd_ok r \<Longrightarrow> m r = (Inl s, r') \<Longrightarrow> s \<noteq> MU_STATUS_GOOD \<and> rd_frame r r'"

text \<open>A decoder in addition refuses a reader that has already failed, and does
  not move it.\<close>

locale decoder = decoder_step m
  for m :: "mu_binary_reader \<Rightarrow> (statuscode + 'a) \<times> mu_binary_reader" +
  assumes dead: "rd_wf r \<Longrightarrow> \<not> rd_ok r \<Longrightarrow>
      \<exists>s r'. m r = (Inl s, r') \<and> s \<noteq> MU_STATUS_GOOD \<and> rd_frame r r' \<and>
        (rd_status r \<noteq> MU_STATUS_GOOD \<longrightarrow> r' = r)"

text \<open>What every encoding routine promises.\<close>

locale encoder_step =
  fixes m :: "mu_binary_writer \<Rightarrow> statuscode \<times> mu_binary_writer"
  assumes put_frame: "wr_ok w \<Longrightarrow> m w = (s, w') \<Longrightarrow> wr_frame w w'"
    and put_good: "wr_ok w \<Longrightarrow> m w = (MU_STATUS_GOOD, w') \<Longrightarrow> wr_status w' = MU_STATUS_GOOD"

locale encoder = encoder_step m
  for m :: "mu_binary_writer \<Rightarrow> statuscode \<times> mu_binary_writer" +
  assumes dead: "wr_wf w \<Longrightarrow> \<not> wr_ok w \<Longrightarrow>
      \<exists>s w'. m w = (s, w') \<and> s \<noteq> MU_STATUS_GOOD \<and>
        w' = w\<lparr>wr_status := wr_status w'\<rparr> \<and> (wr_status w \<noteq> MU_STATUS_GOOD \<longrightarrow> w' = w)"

text \<open>Exactly the bytes \<open>bs\<close> are stored when they fit, and the call fails when
  they do not; a reader in front of the bytes \<open>bs\<close> yields \<open>v\<close> and consumes
  exactly them.\<close>

definition wr_emits :: "wr \<Rightarrow> byte list \<Rightarrow> bool" where
  "wr_emits m bs \<longleftrightarrow> (\<forall>w. wr_ok w \<longrightarrow>
     (length bs \<le> wr_room w \<longrightarrow> m w = (MU_STATUS_GOOD, wr_put bs w)) \<and>
     (wr_room w < length bs \<longrightarrow> fst (m w) \<noteq> MU_STATUS_GOOD))"

definition rd_accepts :: "'a rd \<Rightarrow> byte list \<Rightarrow> 'a \<Rightarrow> bool" where
  "rd_accepts m bs v \<longleftrightarrow> (\<forall>r rest. rd_ok r \<longrightarrow> rd_rest r = bs @ rest \<longrightarrow>
     m r = (Inr v, rd_skip (length bs) r))"

text \<open>The reader a peer would start on the bytes that a write has just appended.\<close>

definition reread :: "mu_binary_writer \<Rightarrow> mu_binary_writer \<Rightarrow> mu_binary_reader" where
  "reread w w' = \<lparr>rd_buffer = wr_buffer w', rd_length = wr_position w',
                  rd_position = wr_position w, rd_status = MU_STATUS_GOOD\<rparr>"

text \<open>An encoder and a decoder that agree on a wire format \<open>enc\<close> for the values
  that satisfy \<open>valid\<close>.\<close>

locale codec = decoder rdr
  for rdr :: "mu_binary_reader \<Rightarrow> (statuscode + 'a) \<times> mu_binary_reader" +
  fixes wrt :: "'a \<Rightarrow> mu_binary_writer \<Rightarrow> statuscode \<times> mu_binary_writer"
    and enc :: "'a \<Rightarrow> byte list"
    and valid :: "'a \<Rightarrow> bool"
  assumes wrt_emits: "valid v \<Longrightarrow> wr_emits (wrt v) (enc v)"
    and rdr_accepts: "valid v \<Longrightarrow> rd_accepts rdr (enc v) v"

section \<open>Cursor arithmetic\<close>

lemma rd_skip_fields [simp]:
  "rd_buffer (rd_skip n r) = rd_buffer r"
  "rd_length (rd_skip n r) = rd_length r"
  "rd_position (rd_skip n r) = rd_position r + n"
  "rd_status (rd_skip n r) = rd_status r"
  by (simp_all add: rd_skip_def)

lemma rd_skip_0 [simp]: "rd_skip 0 r = r"
  by (simp add: rd_skip_def)

lemma rd_skip_skip [simp]: "rd_skip m (rd_skip n r) = rd_skip (n + m) r"
  by (simp add: rd_skip_def ac_simps)

lemma rd_skip_inject: "rd_skip m r = rd_skip n r \<longleftrightarrow> m = n"
  by (metis add_left_cancel rd_skip_fields(3))

lemma rd_rest_skip [simp]: "rd_rest (rd_skip n r) = drop n (rd_rest r)"
  by (simp add: rd_rest_def ac_simps)

lemma rd_okD:
  assumes "rd_ok r"
  obtains b where "rd_buffer r = Some b" "rd_length r \<le> length b"
    "rd_position r \<le> rd_length r" "rd_status r = MU_STATUS_GOOD" "rd_wf r"
  using assms by (auto simp: rd_ok_def rd_wf_def)

lemma length_rd_rest: "rd_ok r \<Longrightarrow> length (rd_rest r) = rd_length r - rd_position r"
  by (erule rd_okD) (simp add: rd_rest_def)

lemma rd_ok_skip: "rd_ok r \<Longrightarrow> n \<le> length (rd_rest r) \<Longrightarrow> rd_ok (rd_skip n r)"
  by (frule length_rd_rest, erule rd_okD) (simp add: rd_ok_def rd_wf_def)

lemma rd_frame_refl [simp]: "rd_wf r \<Longrightarrow> rd_frame r r"
  by (simp add: rd_frame_def rd_wf_def)

lemma rd_frame_skip: "rd_ok r \<Longrightarrow> n \<le> length (rd_rest r) \<Longrightarrow> rd_frame r (rd_skip n r)"
  by (frule length_rd_rest, erule rd_okD) (simp add: rd_frame_def)

lemma rd_frame_trans: "rd_frame r q \<Longrightarrow> rd_frame q p \<Longrightarrow> rd_frame r p"
  by (simp add: rd_frame_def)

lemma rd_frame_wf: "rd_wf r \<Longrightarrow> rd_frame r r' \<Longrightarrow> rd_wf r'"
  by (auto simp: rd_frame_def rd_wf_def split: option.splits)

lemma rd_frame_status [simp]:
  "rd_frame r (q\<lparr>rd_status := s\<rparr>) \<longleftrightarrow> rd_frame r q"
  by (simp add: rd_frame_def)

lemma rd_ok_wf: "rd_ok r \<Longrightarrow> rd_wf r"
  by (simp add: rd_ok_def)

lemma rd_ok_init [simp]: "rd_ok (mu_binary_reader_init (Some bs) (length bs))"
  by (simp add: rd_ok_def rd_wf_def mu_binary_reader_init_def)

lemma rd_rest_init [simp]: "rd_rest (mu_binary_reader_init (Some bs) (length bs)) = bs"
  by (simp add: rd_rest_def mu_binary_reader_init_def)

lemma take_prefix_split:
  assumes "take (n + k) xs = take (n + k) ys"
  shows "take n xs = take n ys" "take k (drop n xs) = take k (drop n ys)"
proof -
  have "take n xs = take n (take (n + k) xs)" "take n ys = take n (take (n + k) ys)"
    by (simp_all add: min_def)
  then show "take n xs = take n ys" by (simp only: assms)
  show "take k (drop n xs) = take k (drop n ys)"
    by (metis assms drop_take add_diff_cancel_left')
qed

section \<open>Sequencing keeps the interfaces\<close>

lemma decoder_step_return [safe_intros]: "decoder_step (rreturn x)"
  by unfold_locales (auto simp: rreturn_def intro!: exI [of _ 0])

lemma decoder_step_fail [safe_intros]: "s \<noteq> MU_STATUS_GOOD \<Longrightarrow> decoder_step (rfail s)"
  by unfold_locales (auto simp: rfail_def rd_ok_wf)

lemma decoder_step_if [safe_intros]:
  "(c \<Longrightarrow> decoder_step m) \<Longrightarrow> (\<not> c \<Longrightarrow> decoder_step k) \<Longrightarrow> decoder_step (if c then m else k)"
  by simp

lemma decoder_stepI: "decoder m \<Longrightarrow> decoder_step m"
  by (simp add: decoder_def)

lemma rbind_Inr:
  "rbind m f r = (Inr y, r') \<longleftrightarrow> (\<exists>x q. m r = (Inr x, q) \<and> f x q = (Inr y, r'))"
  by (auto simp: rbind_def split: prod.splits sum.splits)

lemma rbind_Inl:
  "rbind m f r = (Inl s, r') \<longleftrightarrow>
     m r = (Inl s, r') \<or> (\<exists>x q. m r = (Inr x, q) \<and> f x q = (Inl s, r'))"
  by (auto simp: rbind_def split: prod.splits sum.splits)

lemma decoder_stepI_span:
  assumes good: "\<And>r x. rd_ok r \<Longrightarrow> n \<le> length (rd_rest r) \<Longrightarrow> g (take n (rd_rest r)) = Some x \<Longrightarrow>
      m r = (Inr x, rd_skip n r)"
    and bad: "\<And>r. rd_ok r \<Longrightarrow> n \<le> length (rd_rest r) \<Longrightarrow> g (take n (rd_rest r)) = None \<Longrightarrow>
      \<exists>s r'. m r = (Inl s, r') \<and> s \<noteq> MU_STATUS_GOOD \<and> rd_frame r r'"
    and short: "\<And>r. rd_ok r \<Longrightarrow> length (rd_rest r) < n \<Longrightarrow>
      \<exists>s r'. m r = (Inl s, r') \<and> s \<noteq> MU_STATUS_GOOD \<and> rd_frame r r'"
  shows "decoder_step m"
proof
  fix r x r' assume r: "rd_ok r" and run: "m r = (Inr x, r')"
  have n: "n \<le> length (rd_rest r)"
    by (rule ccontr) (use short [OF r] run in auto)
  have g: "g (take n (rd_rest r)) = Some x"
    using good [OF r n] bad [OF r n] run by (cases "g (take n (rd_rest r))") auto
  have "m q = (Inr x, rd_skip n q)"
    if q: "rd_ok q" "take n (rd_rest q) = take n (rd_rest r)" for q
  proof -
    have "n \<le> length (rd_rest q)" using arg_cong [OF q(2), of length] n by auto
    then show ?thesis using good [OF q(1)] g q(2) by simp
  qed
  then show "\<exists>k \<le> length (rd_rest r). r' = rd_skip k r \<and>
    (\<forall>q. rd_ok q \<longrightarrow> take k (rd_rest q) = take k (rd_rest r) \<longrightarrow> m q = (Inr x, rd_skip k q))"
    using n good [OF r n g] run by auto
next
  fix r s r' assume r: "rd_ok r" and run: "m r = (Inl s, r')"
  consider "length (rd_rest r) < n" | "n \<le> length (rd_rest r)" "g (take n (rd_rest r)) = None"
    | x where "n \<le> length (rd_rest r)" "g (take n (rd_rest r)) = Some x"
    by (cases "g (take n (rd_rest r))") force+
  then show "s \<noteq> MU_STATUS_GOOD \<and> rd_frame r r'"
    using short [OF r] bad [OF r] good [OF r] run by cases auto
qed

lemma decoder_step_bind [safe_intros]:
  assumes m: "decoder_step m" and f: "\<And>x. decoder_step (f x)"
  shows "decoder_step (rbind m f)"
proof
  fix r y r' assume ok: "rd_ok r" and run: "rbind m f r = (Inr y, r')"
  then obtain x q where mx: "m r = (Inr x, q)" and fx: "f x q = (Inr y, r')"
    by (auto simp: rbind_Inr)
  from decoder_step.step_ok [OF m ok mx] obtain n where
    n: "n \<le> length (rd_rest r)" "q = rd_skip n r" and
    loc1: "\<And>p. rd_ok p \<Longrightarrow> take n (rd_rest p) = take n (rd_rest r) \<Longrightarrow> m p = (Inr x, rd_skip n p)"
    by blast
  have okq: "rd_ok q" using ok n by (simp add: rd_ok_skip)
  from decoder_step.step_ok [OF f okq fx] obtain k where
    k: "k \<le> length (rd_rest q)" "r' = rd_skip k q" and
    loc2: "\<And>p. rd_ok p \<Longrightarrow> take k (rd_rest p) = take k (rd_rest q) \<Longrightarrow> f x p = (Inr y, rd_skip k p)"
    by blast
  show "\<exists>i \<le> length (rd_rest r). r' = rd_skip i r \<and>
      (\<forall>p. rd_ok p \<longrightarrow> take i (rd_rest p) = take i (rd_rest r) \<longrightarrow> rbind m f p = (Inr y, rd_skip i p))"
  proof (intro exI [of _ "n + k"] conjI allI impI)
    show "n + k \<le> length (rd_rest r)" using n k by simp
    show "r' = rd_skip (n + k) r" using n k by simp
    fix p assume okp: "rd_ok p" and same: "take (n + k) (rd_rest p) = take (n + k) (rd_rest r)"
    note split = take_prefix_split [OF same]
    have "n + k \<le> length (rd_rest p)"
      using arg_cong [OF same, of length] n k by auto
    then have "rd_ok (rd_skip n p)" using okp by (simp add: rd_ok_skip)
    then show "rbind m f p = (Inr y, rd_skip (n + k) p)"
      using loc1 [OF okp split(1)] loc2 [of "rd_skip n p"] split(2) n(2)
      by (auto simp: rbind_Inr)
  qed
next
  fix r s r' assume ok: "rd_ok r" and run: "rbind m f r = (Inl s, r')"
  from run consider "m r = (Inl s, r')" | x q where "m r = (Inr x, q)" "f x q = (Inl s, r')"
    by (auto simp: rbind_Inl)
  then show "s \<noteq> MU_STATUS_GOOD \<and> rd_frame r r'"
  proof cases
    case 1
    then show ?thesis using decoder_step.step_err [OF m ok] by blast
  next
    case 2
    from decoder_step.step_ok [OF m ok 2(1)] obtain n where
      n: "n \<le> length (rd_rest r)" "q = rd_skip n r" by blast
    then have "rd_ok q" "rd_frame r q" using ok by (simp_all add: rd_ok_skip rd_frame_skip)
    then show ?thesis using decoder_step.step_err [OF f _ 2(2)] rd_frame_trans by blast
  qed
qed

lemma decoder_bind [safe_intros]:
  assumes m: "decoder m" and f: "\<And>x. decoder_step (f x)"
  shows "decoder (rbind m f)"
proof (rule decoder.intro)
  show "decoder_step (rbind m f)"
    using m f by (intro decoder_step_bind) (auto intro: decoder_stepI)
  show "decoder_axioms (rbind m f)"
    using decoder.dead [OF m] by unfold_locales (fastforce simp: rbind_Inl)
qed

lemma decoder_step_repeat [safe_intros]: "decoder_step m \<Longrightarrow> decoder_step (rrepeat n m)"
  by (induction n) (auto intro!: safe_intros)

lemma rbind_run [wire_simps]:
  "m r = (Inr x, q) \<Longrightarrow> rbind m f r = f x q"
  by (simp add: rbind_def)

lemma rbind_fail: "m r = (Inl s, q) \<Longrightarrow> rbind m f r = (Inl s, q)"
  by (simp add: rbind_def)

context decoder_step
begin

lemma same_rest:
  assumes "rd_ok p" "rd_ok q" "rd_rest p = rd_rest q" "m p = (Inr x, p')"
  shows "\<exists>n \<le> length (rd_rest p). p' = rd_skip n p \<and> m q = (Inr x, rd_skip n q)"
  using step_ok [OF assms(1,4)] assms(2,3) by metis

end

context decoder
begin

lemma safe:
  assumes wf: "rd_wf r" and run: "m r = (res, r')"
  shows "rd_frame r r' \<and> (\<forall>x. res = Inr x \<longrightarrow> rd_ok r \<and>
     (\<forall>q. rd_ok q \<and> rd_rest q = rd_rest r \<longrightarrow> fst (m q) = Inr x))"
proof (cases "rd_ok r")
  case True
  show ?thesis
  proof (cases res)
    case (Inl s)
    then show ?thesis using step_err [OF True] run by auto
  next
    case (Inr x)
    from step_ok [OF True run [unfolded Inr]] obtain n where n: "n \<le> length (rd_rest r)" "r' = rd_skip n r"
      and loc: "\<And>q. rd_ok q \<Longrightarrow> take n (rd_rest q) = take n (rd_rest r) \<Longrightarrow> m q = (Inr x, rd_skip n q)"
      by blast
    then show ?thesis using True Inr rd_frame_skip [OF True n(1)] by simp
  qed
next
  case False
  then show ?thesis using dead [OF wf] run by auto
qed

end

section \<open>Storing bytes\<close>

lemma wr_put_fields [simp]:
  "wr_length (wr_put bs w) = wr_length w"
  "wr_position (wr_put bs w) = wr_position w + length bs"
  "wr_status (wr_put bs w) = wr_status w"
  "wr_buffer (wr_put bs w) = map_option (\<lambda>b. overwrite b (wr_position w) bs) (wr_buffer w)"
  by (simp_all add: wr_put_def)

lemma wr_put_Nil [simp]: "wr_put [] w = w"
  by (simp add: wr_put_def option.map_ident)

lemma wr_okD:
  assumes "wr_ok w"
  obtains b where "wr_buffer w = Some b" "wr_length w \<le> length b"
    "wr_position w \<le> wr_length w" "wr_status w = MU_STATUS_GOOD"
  using assms by (auto simp: wr_ok_def wr_wf_def)

lemma wr_ok_put: "wr_ok w \<Longrightarrow> length bs \<le> wr_room w \<Longrightarrow> wr_ok (wr_put bs w)"
  by (erule wr_okD) (simp add: wr_ok_def wr_wf_def wr_room_def)

lemma wr_room_put [simp]: "wr_room (wr_put bs w) = wr_room w - length bs"
  by (simp add: wr_room_def)

lemma wr_put_put:
  "wr_ok w \<Longrightarrow> length as + length bs \<le> wr_room w \<Longrightarrow>
   wr_put bs (wr_put as w) = wr_put (as @ bs) w"
  by (erule wr_okD) (simp add: wr_put_def wr_room_def overwrite_overwrite_append)

lemma wr_frame_put: "length bs \<le> wr_room w \<Longrightarrow> wr_frame w (wr_put bs w)"
  by (auto simp: wr_frame_def intro!: exI [of _ bs])

lemma wr_frame_refl [simp]: "wr_frame w w"
  using wr_frame_put [of "[]" w] by simp

lemma wr_frame_status:
  "wr_frame w w' \<Longrightarrow> wr_frame w (w'\<lparr>wr_status := s\<rparr>)"
  unfolding wr_frame_def by (metis mu_binary_writer.select_convs(4) mu_binary_writer.surjective
      mu_binary_writer.update_convs(4))

lemma wr_frameE:
  assumes "wr_frame w w'" "wr_status w' = wr_status w"
  obtains bs where "length bs \<le> wr_room w" "w' = wr_put bs w"
  using assms by (auto simp: wr_frame_def)

lemma wr_frame_ok: "wr_ok w \<Longrightarrow> wr_frame w w' \<Longrightarrow> wr_status w' = MU_STATUS_GOOD \<Longrightarrow> wr_ok w'"
  by (metis wr_frameE wr_okD wr_ok_put)

lemma wr_frame_trans:
  assumes ok: "wr_ok w" and f1: "wr_frame w u" and good: "wr_status u = MU_STATUS_GOOD"
    and f2: "wr_frame u v"
  shows "wr_frame w v"
proof -
  from ok have "wr_status u = wr_status w" using good by (auto elim: wr_okD)
  with f1 obtain as where as: "length as \<le> wr_room w" "u = wr_put as w" by (rule wr_frameE)
  from f2 obtain bs where bs: "length bs \<le> wr_room u" "v = (wr_put bs u)\<lparr>wr_status := wr_status v\<rparr>"
    unfolding wr_frame_def by blast
  have fits: "length as + length bs \<le> wr_room w" using as bs by simp
  have "v = (wr_put (as @ bs) w)\<lparr>wr_status := wr_status v\<rparr>"
    using bs(2) as(2) wr_put_put [OF ok fits] by simp
  then show ?thesis using fits unfolding wr_frame_def by (intro exI [of _ "as @ bs"]) simp
qed

lemma encoder_stepI: "encoder m \<Longrightarrow> encoder_step m"
  by (simp add: encoder_def)

lemma encoder_step_return [safe_intros]: "encoder_step (wreturn s)"
  by unfold_locales (auto simp: wreturn_def elim: wr_okD)

lemma encoder_step_if [safe_intros]:
  "(c \<Longrightarrow> encoder_step m) \<Longrightarrow> (\<not> c \<Longrightarrow> encoder_step k) \<Longrightarrow> encoder_step (if c then m else k)"
  by simp

lemma encoder_if [safe_intros]:
  "(c \<Longrightarrow> encoder m) \<Longrightarrow> (\<not> c \<Longrightarrow> encoder k) \<Longrightarrow> encoder (if c then m else k)"
  by simp

lemma wthen_cases:
  assumes "wthen m k w = (s, w')"
  obtains "m w = (s, w')" "s \<noteq> MU_STATUS_GOOD"
  | u where "m w = (MU_STATUS_GOOD, u)" "k u = (s, w')"
  using assms by (auto simp: wthen_def split: prod.splits if_splits)

lemma encoder_step_wthen [safe_intros]:
  assumes m: "encoder_step m" and k: "encoder_step k"
  shows "encoder_step (wthen m k)"
proof
  fix w s w' assume ok: "wr_ok w" and run: "wthen m k w = (s, w')"
  from run show "wr_frame w w'"
  proof (cases rule: wthen_cases)
    case 1
    then show ?thesis using encoder_step.put_frame [OF m ok] by blast
  next
    case (2 u)
    then have u: "wr_frame w u" "wr_status u = MU_STATUS_GOOD"
      using encoder_step.put_frame [OF m ok] encoder_step.put_good [OF m ok] by blast+
    then have "wr_ok u" using ok by (blast intro: wr_frame_ok)
    then show ?thesis using 2 u ok encoder_step.put_frame [OF k] wr_frame_trans by blast
  qed
next
  fix w w' assume ok: "wr_ok w" and run: "wthen m k w = (MU_STATUS_GOOD, w')"
  from run show "wr_status w' = MU_STATUS_GOOD"
  proof (cases rule: wthen_cases)
    case (2 u)
    then have "wr_ok u"
      using ok encoder_step.put_frame [OF m ok] encoder_step.put_good [OF m ok]
      by (blast intro: wr_frame_ok)
    then show ?thesis using 2 encoder_step.put_good [OF k] by blast
  qed simp
qed

lemma encoder_wthen [safe_intros]:
  assumes m: "encoder m" and k: "encoder_step k"
  shows "encoder (wthen m k)"
proof (rule encoder.intro)
  show "encoder_step (wthen m k)"
    using m k by (intro encoder_step_wthen) (auto intro: encoder_stepI)
  show "encoder_axioms (wthen m k)"
    using encoder.dead [OF m] by unfold_locales (fastforce simp: wthen_def)
qed

lemma encoder_step_wseq [safe_intros]:
  "(\<And>m. m \<in> set ms \<Longrightarrow> encoder_step m) \<Longrightarrow> encoder_step (wseq ms)"
  by (induction ms) (auto intro!: safe_intros)

lemma wthen_run [wire_simps]:
  "m w = (MU_STATUS_GOOD, u) \<Longrightarrow> wthen m k w = k u"
  by (simp add: wthen_def)

lemma wr_frame_bytes:
  assumes "wr_ok w" "wr_frame w w'" "wr_buffer w = Some b"
  shows "\<exists>b'. wr_buffer w' = Some b' \<and> length b' = length b \<and>
    wr_position w \<le> wr_position w' \<and> wr_position w' \<le> wr_length w \<and>
    (\<forall>i < length b. i < wr_position w \<or> wr_position w' \<le> i \<longrightarrow> b' ! i = b ! i)"
proof -
  from assms(2) obtain bs where bs: "length bs \<le> wr_room w" "w' = (wr_put bs w)\<lparr>wr_status := wr_status w'\<rparr>"
    unfolding wr_frame_def by blast
  have len: "wr_position w \<le> wr_length w" "wr_length w \<le> length b"
    using assms(1,3) by (auto elim: wr_okD)
  have fit: "wr_position w + length bs \<le> length b" using bs(1) len by (simp add: wr_room_def)
  have w': "wr_buffer w' = Some (overwrite b (wr_position w) bs)" "wr_length w' = wr_length w"
    "wr_position w' = wr_position w + length bs"
    by (subst bs(2), simp add: assms(3))+
  show ?thesis
    unfolding w' using fit len bs(1) by (auto simp: nth_overwrite wr_room_def)
qed

section \<open>Wire formats compose\<close>

lemma wr_emits_return [wire_intros]: "wr_emits (wreturn MU_STATUS_GOOD) []"
  by (simp add: wr_emits_def wreturn_def)

lemma wr_emits_wthen:
  assumes m: "wr_emits m as" and k: "wr_emits k bs" and cs: "cs = as @ bs"
  shows "wr_emits (wthen m k) cs"
  unfolding wr_emits_def
proof (intro allI impI conjI)
  fix w assume ok: "wr_ok w"
  show "wthen m k w = (MU_STATUS_GOOD, wr_put cs w)" if fits: "length cs \<le> wr_room w"
  proof -
    have "m w = (MU_STATUS_GOOD, wr_put as w)" "wr_ok (wr_put as w)"
      using m ok fits cs by (auto simp: wr_emits_def wr_ok_put)
    moreover from this have "k (wr_put as w) = (MU_STATUS_GOOD, wr_put bs (wr_put as w))"
      using k fits cs by (auto simp: wr_emits_def)
    ultimately show ?thesis using wr_put_put [OF ok] fits cs by (simp add: wthen_def)
  qed
  show "fst (wthen m k w) \<noteq> MU_STATUS_GOOD" if full: "wr_room w < length cs"
  proof (cases "length as \<le> wr_room w")
    case True
    then have "m w = (MU_STATUS_GOOD, wr_put as w)" "wr_ok (wr_put as w)"
      using m ok by (auto simp: wr_emits_def wr_ok_put)
    then show ?thesis using k full cs True by (auto simp: wr_emits_def wthen_def)
  next
    case False
    then show ?thesis using m ok by (auto simp: wr_emits_def wthen_def split: prod.splits)
  qed
qed

lemma rd_accepts_return [wire_intros]: "rd_accepts (rreturn v) [] v"
  by (simp add: rd_accepts_def rreturn_def)

lemma rd_accepts_bind:
  assumes m: "rd_accepts m as x" and f: "rd_accepts (f x) bs y" and cs: "cs = as @ bs"
  shows "rd_accepts (rbind m f) cs y"
  unfolding rd_accepts_def
proof (intro allI impI)
  fix r rest assume ok: "rd_ok r" and rest: "rd_rest r = cs @ rest"
  have "m r = (Inr x, rd_skip (length as) r)"
    using m ok rest cs by (simp add: rd_accepts_def)
  moreover have "f x (rd_skip (length as) r) = (Inr y, rd_skip (length bs) (rd_skip (length as) r))"
    using f ok rest cs rd_ok_skip [OF ok, of "length as"] by (simp add: rd_accepts_def)
  ultimately show "rbind m f r = (Inr y, rd_skip (length cs) r)"
    using cs by (simp add: rbind_run)
qed

lemma rd_acceptsD:
  "rd_accepts m bs v \<Longrightarrow> rd_ok r \<Longrightarrow> rd_rest r = bs @ rest \<Longrightarrow> m r = (Inr v, rd_skip (length bs) r)"
  by (simp add: rd_accepts_def)

lemma wr_emits_good:
  "wr_emits m bs \<Longrightarrow> wr_ok w \<Longrightarrow> m w = (MU_STATUS_GOOD, w') \<Longrightarrow>
   length bs \<le> wr_room w \<and> w' = wr_put bs w"
  by (cases "length bs \<le> wr_room w") (auto simp: wr_emits_def)

lemma reread_put:
  assumes ok: "wr_ok w" and fits: "length bs \<le> wr_room w"
  shows "rd_ok (reread w (wr_put bs w))" "rd_rest (reread w (wr_put bs w)) = bs"
proof -
  from ok obtain b where b: "wr_buffer w = Some b" "wr_length w \<le> length b"
    "wr_position w \<le> wr_length w" by (rule wr_okD)
  have "wr_position w + length bs \<le> length b" using b fits by (simp add: wr_room_def)
  then show "rd_ok (reread w (wr_put bs w))" "rd_rest (reread w (wr_put bs w)) = bs"
    using b by (simp_all add: reread_def rd_ok_def rd_wf_def rd_rest_def take_overwrite_end)
qed

section \<open>What a codec gives its clients\<close>

context codec
begin

lemma roundtrip:
  assumes "valid v" "wr_ok w" "wrt v w = (MU_STATUS_GOOD, w')"
  shows "rdr (reread w w') = (Inr v, rd_skip (length (enc v)) (reread w w'))"
proof -
  have "length (enc v) \<le> wr_room w" "w' = wr_put (enc v) w"
    using wr_emits_good [OF wrt_emits] assms by blast+
  then show ?thesis
    using rd_acceptsD [OF rdr_accepts, of v "reread w w'" "[]"] assms(1,2) by (simp add: reread_put)
qed

lemma prefix_free:
  assumes "valid v" "valid u" "enc v @ xs = enc u @ ys"
  shows "v = u \<and> xs = ys"
proof -
  let ?r = "mu_binary_reader_init (Some (enc v @ xs)) (length (enc v @ xs))"
  have "rdr ?r = (Inr v, rd_skip (length (enc v)) ?r)"
    using rd_acceptsD [OF rdr_accepts [OF assms(1)] rd_ok_init rd_rest_init] by simp
  moreover have "rdr ?r = (Inr u, rd_skip (length (enc u)) ?r)"
    using rd_acceptsD [OF rdr_accepts [OF assms(2)], of ?r ys] assms(3) rd_ok_init rd_rest_init
    by metis
  ultimately show ?thesis using assms(3) by (simp add: rd_skip_inject)
qed

lemma accepts_then:
  "valid v \<Longrightarrow> rd_accepts (f v) bs y \<Longrightarrow> rd_accepts (rbind rdr f) (enc v @ bs) y"
  by (rule rd_accepts_bind [OF rdr_accepts]) auto

lemma accepts_last:
  "valid v \<Longrightarrow> rd_accepts (f v) [] y \<Longrightarrow> rd_accepts (rbind rdr f) (enc v) y"
  by (rule rd_accepts_bind [OF rdr_accepts]) auto

lemma emits_then:
  "valid v \<Longrightarrow> wr_emits k bs \<Longrightarrow> wr_emits (wthen (wrt v) k) (enc v @ bs)"
  by (rule wr_emits_wthen [OF wrt_emits]) auto

lemma emits_last:
  "valid v \<Longrightarrow> wr_emits k [] \<Longrightarrow> wr_emits (wthen (wrt v) k) (enc v)"
  by (rule wr_emits_wthen [OF wrt_emits]) auto

lemma truncated:
  assumes v: "valid v" and ok: "rd_ok r" and cut: "rd_rest r = take k (enc v)" "k < length (enc v)"
  shows "\<exists>s r'. rdr r = (Inl s, r') \<and> s \<noteq> MU_STATUS_GOOD"
proof (cases "rdr r")
  case (Pair res r')
  show ?thesis
  proof (cases res)
    case (Inl s)
    then show ?thesis using Pair step_err [OF ok] by blast
  next
    case (Inr x)
    from step_ok [OF ok Pair [unfolded Inr]] obtain n where n: "n \<le> length (rd_rest r)" and
      loc: "\<And>q. rd_ok q \<Longrightarrow> take n (rd_rest q) = take n (rd_rest r) \<Longrightarrow> rdr q = (Inr x, rd_skip n q)"
      by blast
    let ?q = "mu_binary_reader_init (Some (enc v)) (length (enc v))"
    have "take n (rd_rest ?q) = take n (rd_rest r)" using n cut by (simp add: min_def)
    then have "rdr ?q = (Inr x, rd_skip n ?q)" by (rule loc [OF rd_ok_init])
    moreover have "rdr ?q = (Inr v, rd_skip (length (enc v)) ?q)"
      using rd_acceptsD [OF rdr_accepts [OF v] rd_ok_init, of "enc v" "[]"] by simp
    ultimately show ?thesis using n cut by (simp add: rd_skip_inject)
  qed
qed

end

end
