(* ===== verification/Binary_Primitives.thy ===== *)
theory Binary_Primitives
  imports Binary_Buffer
begin

text \<open>
  The fixed-width primitives of the OPC UA binary encoding:
  \<^verbatim>\<open>src/encoding/binary_le.h\<close>, \<^verbatim>\<open>binary_reader.c\<close> and \<^verbatim>\<open>binary_writer.c\<close>.
\<close>

section \<open>Little-endian bytes\<close>

text \<open>The bytes that the put helpers store at \<^verbatim>\<open>dst\<close>, in order.\<close>

definition mu_binary_le_put_u16 :: "u16 \<Rightarrow> byte list" where
  "mu_binary_le_put_u16 v = [ucast (v AND 0xFF), ucast (drop_bit 8 v AND 0xFF)]"

definition mu_binary_le_put_u32 :: "u32 \<Rightarrow> byte list" where
  "mu_binary_le_put_u32 v =
     [ucast (v AND 0xFF), ucast (drop_bit 8 v AND 0xFF),
      ucast (drop_bit 16 v AND 0xFF), ucast (drop_bit 24 v AND 0xFF)]"

definition mu_binary_le_put_u64 :: "u64 \<Rightarrow> byte list" where
  "mu_binary_le_put_u64 v =
     [ucast (v AND 0xFF), ucast (drop_bit 8 v AND 0xFF),
      ucast (drop_bit 16 v AND 0xFF), ucast (drop_bit 24 v AND 0xFF),
      ucast (drop_bit 32 v AND 0xFF), ucast (drop_bit 40 v AND 0xFF),
      ucast (drop_bit 48 v AND 0xFF), ucast (drop_bit 56 v AND 0xFF)]"

definition mu_binary_le_get_u16 :: "byte list \<Rightarrow> u16" where
  "mu_binary_le_get_u16 src = ucast (src ! 0) OR push_bit 8 (ucast (src ! 1))"

definition mu_binary_le_get_u32 :: "byte list \<Rightarrow> u32" where
  "mu_binary_le_get_u32 src =
     ucast (src ! 0) OR push_bit 8 (ucast (src ! 1)) OR
     push_bit 16 (ucast (src ! 2)) OR push_bit 24 (ucast (src ! 3))"

definition mu_binary_le_get_u64 :: "byte list \<Rightarrow> u64" where
  "mu_binary_le_get_u64 src =
     ucast (src ! 0) OR push_bit 8 (ucast (src ! 1)) OR
     push_bit 16 (ucast (src ! 2)) OR push_bit 24 (ucast (src ! 3)) OR
     push_bit 32 (ucast (src ! 4)) OR push_bit 40 (ucast (src ! 5)) OR
     push_bit 48 (ucast (src ! 6)) OR push_bit 56 (ucast (src ! 7))"

section \<open>Reading\<close>

definition reader_status :: "mu_binary_reader \<Rightarrow> statuscode" where
  "reader_status r = (if rd_status r \<noteq> MU_STATUS_GOOD then rd_status r else MU_STATUS_GOOD)"

definition reader_fail :: "statuscode \<Rightarrow> 'a rd" where
  "reader_fail s r = (Inl s, r\<lparr>rd_status := s\<rparr>)"

definition ensure_bytes :: "nat \<Rightarrow> unit rd" where
  "ensure_bytes count r =
     (if rd_status r = MU_STATUS_GOOD \<and> rd_buffer r \<noteq> None \<and>
         rd_position r \<le> rd_length r \<and> count \<le> rd_length r - rd_position r
      then (Inr (), r)
      else if rd_status r \<noteq> MU_STATUS_GOOD then (Inl (rd_status r), r)
      else if rd_buffer r = None then reader_fail MU_STATUS_BAD_INTERNALERROR r
      else reader_fail MU_STATUS_BAD_DECODINGERROR r)"

text \<open>\<^verbatim>\<open>&reader->buffer[reader->position]\<close>\<close>

definition rd_at :: "mu_binary_reader \<Rightarrow> byte list" where
  "rd_at r = drop (rd_position r) (the (rd_buffer r))"

text \<open>The common shape of the primitive reads: check, load from the cursor,
  advance.\<close>

definition read_fixed :: "nat \<Rightarrow> (byte list \<Rightarrow> 'a) \<Rightarrow> 'a rd" where
  "read_fixed n load = rbind (ensure_bytes n) (\<lambda>_ r. (Inr (load (rd_at r)), rd_skip n r))"

definition mu_binary_read_boolean :: "bool rd" where
  "mu_binary_read_boolean = read_fixed 1 (\<lambda>src. src ! 0 \<noteq> 0)"

definition mu_binary_read_sbyte :: "byte rd" where
  "mu_binary_read_sbyte = read_fixed 1 (\<lambda>src. src ! 0)"

definition mu_binary_read_byte :: "byte rd" where
  "mu_binary_read_byte = read_fixed 1 (\<lambda>src. src ! 0)"

definition mu_binary_read_int16 :: "u16 rd" where
  "mu_binary_read_int16 = read_fixed 2 mu_binary_le_get_u16"

definition mu_binary_read_uint16 :: "u16 rd" where
  "mu_binary_read_uint16 = read_fixed 2 mu_binary_le_get_u16"

definition mu_binary_read_int32 :: "u32 rd" where
  "mu_binary_read_int32 = read_fixed 4 mu_binary_le_get_u32"

definition mu_binary_read_uint32 :: "u32 rd" where
  "mu_binary_read_uint32 = read_fixed 4 mu_binary_le_get_u32"

definition mu_binary_read_int64 :: "u64 rd" where
  "mu_binary_read_int64 = read_fixed 8 mu_binary_le_get_u64"

definition mu_binary_read_uint64 :: "u64 rd" where
  "mu_binary_read_uint64 = read_fixed 8 mu_binary_le_get_u64"

definition mu_binary_read_float :: "u32 rd" where
  "mu_binary_read_float = rbind mu_binary_read_uint32 rreturn"

definition mu_binary_read_double :: "u64 rd" where
  "mu_binary_read_double = rbind mu_binary_read_uint64 rreturn"

definition mu_binary_read_statuscode :: "statuscode rd" where
  "mu_binary_read_statuscode = mu_binary_read_uint32"

text \<open>\<^verbatim>\<open>SIZE_MAX\<close> of the 32-bit targets.\<close>

definition SIZE_MAX :: nat where "SIZE_MAX = 2 ^ 32 - 1"

definition mu_binary_read_array_length :: "u32 rd" where
  "mu_binary_read_array_length =
     rbind (read_fixed 4 mu_binary_le_get_u32) (\<lambda>decoded_length r.
       if sint decoded_length < -1 \<or>
          (0 < sint decoded_length \<and> SIZE_MAX - rd_position r < nat (sint decoded_length))
       then reader_fail MU_STATUS_BAD_DECODINGERROR r
       else (Inr decoded_length, r))"

section \<open>Writing\<close>

definition writer_status :: "mu_binary_writer \<Rightarrow> statuscode" where
  "writer_status w = (if wr_status w \<noteq> MU_STATUS_GOOD then wr_status w else MU_STATUS_GOOD)"

definition writer_fail :: "statuscode \<Rightarrow> wr" where
  "writer_fail s w = (s, w\<lparr>wr_status := s\<rparr>)"

definition ensure_space :: "nat \<Rightarrow> wr" where
  "ensure_space count w =
     (if wr_status w = MU_STATUS_GOOD \<and> wr_buffer w \<noteq> None \<and>
         wr_position w \<le> wr_length w \<and> count \<le> wr_length w - wr_position w
      then (MU_STATUS_GOOD, w)
      else if writer_status w \<noteq> MU_STATUS_GOOD then (writer_status w, w)
      else if wr_buffer w = None then writer_fail MU_STATUS_BAD_INTERNALERROR w
      else writer_fail MU_STATUS_BAD_ENCODINGERROR w)"

text \<open>The common shape of the primitive writes: check, store at the cursor,
  advance.\<close>

definition write_fixed :: "byte list \<Rightarrow> wr" where
  "write_fixed bs = wthen (ensure_space (length bs)) (\<lambda>w. (MU_STATUS_GOOD, wr_put bs w))"

definition mu_binary_write_boolean :: "bool \<Rightarrow> wr" where
  "mu_binary_write_boolean v = write_fixed [if v then 1 else 0]"

definition mu_binary_write_sbyte :: "byte \<Rightarrow> wr" where
  "mu_binary_write_sbyte v = write_fixed [v]"

definition mu_binary_write_byte :: "byte \<Rightarrow> wr" where
  "mu_binary_write_byte v = write_fixed [v]"

definition mu_binary_write_uint16 :: "u16 \<Rightarrow> wr" where
  "mu_binary_write_uint16 v = write_fixed (mu_binary_le_put_u16 v)"

definition mu_binary_write_int16 :: "u16 \<Rightarrow> wr" where
  "mu_binary_write_int16 v = mu_binary_write_uint16 v"

definition mu_binary_write_uint32 :: "u32 \<Rightarrow> wr" where
  "mu_binary_write_uint32 v = write_fixed (mu_binary_le_put_u32 v)"

definition mu_binary_write_int32 :: "u32 \<Rightarrow> wr" where
  "mu_binary_write_int32 v = mu_binary_write_uint32 v"

definition mu_binary_write_uint64 :: "u64 \<Rightarrow> wr" where
  "mu_binary_write_uint64 v = write_fixed (mu_binary_le_put_u64 v)"

definition mu_binary_write_int64 :: "u64 \<Rightarrow> wr" where
  "mu_binary_write_int64 v = mu_binary_write_uint64 v"

definition mu_binary_write_float :: "u32 \<Rightarrow> wr" where
  "mu_binary_write_float v = mu_binary_write_uint32 v"

definition mu_binary_write_double :: "u64 \<Rightarrow> wr" where
  "mu_binary_write_double v = mu_binary_write_uint64 v"

definition mu_binary_write_statuscode :: "statuscode \<Rightarrow> wr" where
  "mu_binary_write_statuscode v = mu_binary_write_uint32 v"

text \<open>A load that looks at the first \<open>n\<close> bytes only.\<close>

definition local_load :: "nat \<Rightarrow> (byte list \<Rightarrow> 'a) \<Rightarrow> bool" where
  "local_load n load \<longleftrightarrow> (\<forall>xs ys. n \<le> length xs \<longrightarrow> take n xs = take n ys \<longrightarrow> load xs = load ys)"

text \<open>The wire format of a Boolean.\<close>

definition enc_bool :: "bool \<Rightarrow> byte list" where
  "enc_bool v = [if v then 1 else 0]"

section \<open>Bytes and words\<close>

lemma length_put [simp]:
  "length (mu_binary_le_put_u16 v) = 2"
  "length (mu_binary_le_put_u32 w) = 4"
  "length (mu_binary_le_put_u64 x) = 8"
  by (simp_all add: mu_binary_le_put_u16_def mu_binary_le_put_u32_def mu_binary_le_put_u64_def)

lemma get_put_u16 [simp]: "mu_binary_le_get_u16 (mu_binary_le_put_u16 v @ rest) = v"
proof (rule bit_word_eqI)
  fix n assume "n < LENGTH(16)"
  then consider "n < 8" | "8 \<le> n" "n < 16" by fastforce
  then show "bit (mu_binary_le_get_u16 (mu_binary_le_put_u16 v @ rest)) n = bit v n"
    by cases (simp_all add: mu_binary_le_get_u16_def mu_binary_le_put_u16_def bit_simps less_diff_conv2)
qed

lemma get_put_u32 [simp]: "mu_binary_le_get_u32 (mu_binary_le_put_u32 v @ rest) = v"
proof (rule bit_word_eqI)
  fix n assume "n < LENGTH(32)"
  then consider "n < 8" | "8 \<le> n" "n < 16" | "16 \<le> n" "n < 24" | "24 \<le> n" "n < 32"
    by fastforce
  then show "bit (mu_binary_le_get_u32 (mu_binary_le_put_u32 v @ rest)) n = bit v n"
    by cases (simp_all add: mu_binary_le_get_u32_def mu_binary_le_put_u32_def bit_simps less_diff_conv2)
qed

lemma get_put_u64 [simp]: "mu_binary_le_get_u64 (mu_binary_le_put_u64 v @ rest) = v"
proof (rule bit_word_eqI)
  fix n assume "n < LENGTH(64)"
  then consider "n < 8" | "8 \<le> n" "n < 16" | "16 \<le> n" "n < 24" | "24 \<le> n" "n < 32"
    | "32 \<le> n" "n < 40" | "40 \<le> n" "n < 48" | "48 \<le> n" "n < 56" | "56 \<le> n" "n < 64"
    by fastforce
  then show "bit (mu_binary_le_get_u64 (mu_binary_le_put_u64 v @ rest)) n = bit v n"
    by cases (simp_all add: mu_binary_le_get_u64_def mu_binary_le_put_u64_def bit_simps less_diff_conv2)
qed

section \<open>The primitives are safe\<close>

lemma rd_at_rest: "rd_ok r \<Longrightarrow> n \<le> length (rd_rest r) \<Longrightarrow> take n (rd_at r) = take n (rd_rest r)"
  by (frule length_rd_rest, erule rd_okD) (simp add: rd_at_def rd_rest_def drop_take min_def)

lemma ensure_bytes_ok: "rd_ok r \<Longrightarrow> count \<le> length (rd_rest r) \<Longrightarrow> ensure_bytes count r = (Inr (), r)"
  by (frule length_rd_rest, erule rd_okD) (simp add: ensure_bytes_def)

lemma ensure_bytes_short:
  "rd_ok r \<Longrightarrow> length (rd_rest r) < count \<Longrightarrow>
   ensure_bytes count r = (Inl MU_STATUS_BAD_DECODINGERROR, r\<lparr>rd_status := MU_STATUS_BAD_DECODINGERROR\<rparr>)"
  by (frule length_rd_rest, erule rd_okD) (simp add: ensure_bytes_def reader_fail_def)

lemma ensure_bytes_dead:
  "rd_wf r \<Longrightarrow> \<not> rd_ok r \<Longrightarrow>
   \<exists>s r'. ensure_bytes count r = (Inl s, r') \<and> s \<noteq> MU_STATUS_GOOD \<and> rd_frame r r' \<and>
     (rd_status r \<noteq> MU_STATUS_GOOD \<longrightarrow> r' = r)"
  by (auto simp: ensure_bytes_def reader_fail_def rd_ok_def)

lemma local_loadI_nth:
  assumes "\<And>xs ys. (\<And>i. i < n \<Longrightarrow> xs ! i = ys ! i) \<Longrightarrow> load xs = load ys"
  shows "local_load n load"
  unfolding local_load_def using assms by (metis nth_take)

lemma read_fixed_ok:
  "rd_ok r \<Longrightarrow> n \<le> length (rd_rest r) \<Longrightarrow> local_load n load \<Longrightarrow>
   read_fixed n load r = (Inr (load (rd_rest r)), rd_skip n r)"
proof -
  assume ok: "rd_ok r" and n: "n \<le> length (rd_rest r)" and "local_load n load"
  then have "load (rd_rest r) = load (rd_at r)"
    using rd_at_rest [OF ok n] unfolding local_load_def by metis
  then show ?thesis using ensure_bytes_ok [OF ok n] by (simp add: read_fixed_def rbind_def)
qed

lemma read_fixed_short:
  "rd_ok r \<Longrightarrow> length (rd_rest r) < n \<Longrightarrow>
   read_fixed n load r = (Inl MU_STATUS_BAD_DECODINGERROR, r\<lparr>rd_status := MU_STATUS_BAD_DECODINGERROR\<rparr>)"
  by (simp add: read_fixed_def rbind_def ensure_bytes_short)

lemma local_load_take: "local_load n load \<Longrightarrow> n \<le> length xs \<Longrightarrow> load (take n xs) = load xs"
  unfolding local_load_def by (metis length_take min.absorb2 order_refl take_all)

lemma decoder_read_fixed:
  assumes load: "local_load n load"
  shows "decoder (read_fixed n load)"
proof (rule decoder.intro)
  show "decoder_step (read_fixed n load)"
    by (rule decoder_stepI_span [where n = n and g = "\<lambda>bs. Some (load bs)"])
       (simp_all add: read_fixed_ok read_fixed_short load local_load_take rd_ok_wf)
  show "decoder_axioms (read_fixed n load)"
    using ensure_bytes_dead [of _ n] by unfold_locales (fastforce simp: read_fixed_def rbind_def)
qed

lemma rd_accepts_fixed:
  "local_load n load \<Longrightarrow> length bs = n \<Longrightarrow> load bs = v \<Longrightarrow> rd_accepts (read_fixed n load) bs v"
proof -
  assume l: "local_load n load" and n: "length bs = n" and v: "load bs = v"
  then have "load (bs @ rest) = v" for rest
    unfolding local_load_def by (metis append_eq_conv_conj le_refl take_all)
  then show ?thesis using l n by (simp add: rd_accepts_def read_fixed_ok)
qed

lemma local_loads:
  "local_load 1 (\<lambda>src. src ! 0)"
  "local_load 1 (\<lambda>src. src ! 0 \<noteq> (0 :: byte))"
  "local_load 2 mu_binary_le_get_u16"
  "local_load 4 mu_binary_le_get_u32"
  "local_load 8 mu_binary_le_get_u64"
  by (rule local_loadI_nth;
      simp add: mu_binary_le_get_u16_def mu_binary_le_get_u32_def mu_binary_le_get_u64_def)+

lemmas read_defs =
  mu_binary_read_boolean_def mu_binary_read_sbyte_def mu_binary_read_byte_def
  mu_binary_read_int16_def mu_binary_read_uint16_def mu_binary_read_int32_def
  mu_binary_read_uint32_def mu_binary_read_int64_def mu_binary_read_uint64_def
  mu_binary_read_float_def mu_binary_read_double_def mu_binary_read_statuscode_def

lemmas write_defs =
  mu_binary_write_boolean_def mu_binary_write_sbyte_def mu_binary_write_byte_def
  mu_binary_write_int16_def mu_binary_write_uint16_def mu_binary_write_int32_def
  mu_binary_write_uint32_def mu_binary_write_int64_def mu_binary_write_uint64_def
  mu_binary_write_float_def mu_binary_write_double_def mu_binary_write_statuscode_def

lemma decoder_primitives [safe_intros]:
  "decoder mu_binary_read_boolean" "decoder mu_binary_read_sbyte" "decoder mu_binary_read_byte"
  "decoder mu_binary_read_int16" "decoder mu_binary_read_uint16" "decoder mu_binary_read_int32"
  "decoder mu_binary_read_uint32" "decoder mu_binary_read_int64" "decoder mu_binary_read_uint64"
  "decoder mu_binary_read_float" "decoder mu_binary_read_double" "decoder mu_binary_read_statuscode"
  unfolding read_defs by (intro decoder_read_fixed local_loads decoder_bind decoder_step_return)+

lemmas decoder_step_primitives [safe_intros] = decoder_primitives [THEN decoder_stepI]

lemma ensure_space_ok: "wr_ok w \<Longrightarrow> n \<le> wr_room w \<Longrightarrow> ensure_space n w = (MU_STATUS_GOOD, w)"
  by (erule wr_okD) (simp add: ensure_space_def wr_room_def)

lemma ensure_space_full:
  "wr_ok w \<Longrightarrow> wr_room w < n \<Longrightarrow>
   ensure_space n w = (MU_STATUS_BAD_ENCODINGERROR, w\<lparr>wr_status := MU_STATUS_BAD_ENCODINGERROR\<rparr>)"
  by (erule wr_okD) (simp add: ensure_space_def wr_room_def writer_status_def writer_fail_def)

lemma wr_emits_fixed: "wr_emits (write_fixed bs) bs"
  by (simp add: wr_emits_def write_fixed_def wthen_def ensure_space_ok ensure_space_full)

lemma encoder_write_fixed [safe_intros]: "encoder (write_fixed bs)"
proof
  fix w s w' assume ok: "wr_ok w" and run: "write_fixed bs w = (s, w')"
  then show "wr_frame w w'"
    by (cases "length bs \<le> wr_room w")
       (auto simp: write_fixed_def wthen_def ensure_space_ok ensure_space_full
             intro: wr_frame_put wr_frame_status)
next
  fix w w' assume ok: "wr_ok w" and run: "write_fixed bs w = (MU_STATUS_GOOD, w')"
  then show "wr_status w' = MU_STATUS_GOOD"
    using wr_emits_good [OF wr_emits_fixed ok run] by (auto elim: wr_okD)
next
  fix w assume "wr_wf w" "\<not> wr_ok w"
  then show "\<exists>s w'. write_fixed bs w = (s, w') \<and> s \<noteq> MU_STATUS_GOOD \<and>
        w' = w\<lparr>wr_status := wr_status w'\<rparr> \<and> (wr_status w \<noteq> MU_STATUS_GOOD \<longrightarrow> w' = w)"
    by (cases "wr_status w = MU_STATUS_GOOD")
       (simp_all add: write_fixed_def wthen_def ensure_space_def wr_ok_def writer_fail_def writer_status_def)
qed

lemma encoder_primitives [safe_intros]:
  "encoder (mu_binary_write_boolean a)" "encoder (mu_binary_write_sbyte b)"
  "encoder (mu_binary_write_byte b)" "encoder (mu_binary_write_int16 c)"
  "encoder (mu_binary_write_uint16 c)" "encoder (mu_binary_write_int32 d)"
  "encoder (mu_binary_write_uint32 d)" "encoder (mu_binary_write_int64 e)"
  "encoder (mu_binary_write_uint64 e)" "encoder (mu_binary_write_float d)"
  "encoder (mu_binary_write_double e)" "encoder (mu_binary_write_statuscode d)"
  unfolding write_defs by (rule encoder_write_fixed)+

lemmas encoder_step_primitives [safe_intros] = encoder_primitives [THEN encoder_stepI]

section \<open>The primitives are codecs\<close>

lemma get_put [simp]:
  "mu_binary_le_get_u16 (mu_binary_le_put_u16 a) = a"
  "mu_binary_le_get_u32 (mu_binary_le_put_u32 b) = b"
  "mu_binary_le_get_u64 (mu_binary_le_put_u64 c) = c"
  using get_put_u16 [of a "[]"] get_put_u32 [of b "[]"] get_put_u64 [of c "[]"] by simp_all


lemma codec_fixed:
  assumes "rdr = read_fixed n load" "local_load n load"
    and "\<And>v. wrt v = write_fixed (enc v)"
    and "\<And>v. valid v \<Longrightarrow> length (enc v) = n \<and> load (enc v) = v"
  shows "codec rdr wrt enc valid"
  unfolding codec_def codec_axioms_def
  using assms by (simp add: decoder_read_fixed rd_accepts_fixed wr_emits_fixed)

interpretation c_boolean: codec mu_binary_read_boolean mu_binary_write_boolean enc_bool "\<lambda>_. True"
  by (rule codec_fixed [OF mu_binary_read_boolean_def local_loads(2)])
     (simp_all add: enc_bool_def mu_binary_write_boolean_def)

interpretation c_sbyte: codec mu_binary_read_sbyte mu_binary_write_sbyte "\<lambda>v. [v]" "\<lambda>_. True"
  by (rule codec_fixed [OF mu_binary_read_sbyte_def local_loads(1)])
     (simp_all add: mu_binary_write_sbyte_def)

interpretation c_byte: codec mu_binary_read_byte mu_binary_write_byte "\<lambda>v. [v]" "\<lambda>_. True"
  by (rule codec_fixed [OF mu_binary_read_byte_def local_loads(1)])
     (simp_all add: mu_binary_write_byte_def)

interpretation c_int16: codec mu_binary_read_int16 mu_binary_write_int16 mu_binary_le_put_u16 "\<lambda>_. True"
  by (rule codec_fixed [OF mu_binary_read_int16_def local_loads(3)]) (simp_all add: write_defs)

interpretation c_uint16: codec mu_binary_read_uint16 mu_binary_write_uint16 mu_binary_le_put_u16 "\<lambda>_. True"
  by (rule codec_fixed [OF mu_binary_read_uint16_def local_loads(3)]) (simp_all add: write_defs)

interpretation c_int32: codec mu_binary_read_int32 mu_binary_write_int32 mu_binary_le_put_u32 "\<lambda>_. True"
  by (rule codec_fixed [OF mu_binary_read_int32_def local_loads(4)]) (simp_all add: write_defs)

interpretation c_uint32: codec mu_binary_read_uint32 mu_binary_write_uint32 mu_binary_le_put_u32 "\<lambda>_. True"
  by (rule codec_fixed [OF mu_binary_read_uint32_def local_loads(4)]) (simp_all add: write_defs)

interpretation c_int64: codec mu_binary_read_int64 mu_binary_write_int64 mu_binary_le_put_u64 "\<lambda>_. True"
  by (rule codec_fixed [OF mu_binary_read_int64_def local_loads(5)]) (simp_all add: write_defs)

interpretation c_uint64: codec mu_binary_read_uint64 mu_binary_write_uint64 mu_binary_le_put_u64 "\<lambda>_. True"
  by (rule codec_fixed [OF mu_binary_read_uint64_def local_loads(5)]) (simp_all add: write_defs)

lemma rbind_return [simp]: "rbind m rreturn = m"
  by (rule ext) (simp add: rbind_def rreturn_def split: prod.splits sum.splits)

interpretation c_float: codec mu_binary_read_float mu_binary_write_float mu_binary_le_put_u32 "\<lambda>_. True"
  by (rule codec_fixed [OF _ local_loads(4)]) (simp_all add: read_defs write_defs)

interpretation c_double: codec mu_binary_read_double mu_binary_write_double mu_binary_le_put_u64 "\<lambda>_. True"
  by (rule codec_fixed [OF _ local_loads(5)]) (simp_all add: read_defs write_defs)

interpretation c_statuscode: codec mu_binary_read_statuscode mu_binary_write_statuscode mu_binary_le_put_u32 "\<lambda>_. True"
  by (rule codec_fixed [OF _ local_loads(4)]) (simp_all add: read_defs write_defs)

lemmas emits_primitives [wire_intros] =
  c_boolean.wrt_emits [OF TrueI] c_sbyte.wrt_emits [OF TrueI]
  c_byte.wrt_emits [OF TrueI] c_int16.wrt_emits [OF TrueI]
  c_uint16.wrt_emits [OF TrueI] c_int32.wrt_emits [OF TrueI]
  c_uint32.wrt_emits [OF TrueI] c_int64.wrt_emits [OF TrueI]
  c_uint64.wrt_emits [OF TrueI] c_float.wrt_emits [OF TrueI]
  c_double.wrt_emits [OF TrueI] c_statuscode.wrt_emits [OF TrueI]

lemmas emits_then_primitives [wire_intros] =
  c_boolean.emits_then [OF TrueI, simplified append.simps] c_sbyte.emits_then [OF TrueI, simplified append.simps]
  c_byte.emits_then [OF TrueI, simplified append.simps] c_int16.emits_then [OF TrueI, simplified append.simps]
  c_uint16.emits_then [OF TrueI, simplified append.simps] c_int32.emits_then [OF TrueI, simplified append.simps]
  c_uint32.emits_then [OF TrueI, simplified append.simps] c_int64.emits_then [OF TrueI, simplified append.simps]
  c_uint64.emits_then [OF TrueI, simplified append.simps] c_float.emits_then [OF TrueI, simplified append.simps]
  c_double.emits_then [OF TrueI, simplified append.simps] c_statuscode.emits_then [OF TrueI, simplified append.simps]

lemmas emits_last_primitives [wire_intros] =
  c_boolean.emits_last [OF TrueI, simplified append.simps] c_sbyte.emits_last [OF TrueI, simplified append.simps]
  c_byte.emits_last [OF TrueI, simplified append.simps] c_int16.emits_last [OF TrueI, simplified append.simps]
  c_uint16.emits_last [OF TrueI, simplified append.simps] c_int32.emits_last [OF TrueI, simplified append.simps]
  c_uint32.emits_last [OF TrueI, simplified append.simps] c_int64.emits_last [OF TrueI, simplified append.simps]
  c_uint64.emits_last [OF TrueI, simplified append.simps] c_float.emits_last [OF TrueI, simplified append.simps]
  c_double.emits_last [OF TrueI, simplified append.simps] c_statuscode.emits_last [OF TrueI, simplified append.simps]

lemmas accepts_primitives [wire_intros] =
  c_boolean.rdr_accepts [OF TrueI] c_sbyte.rdr_accepts [OF TrueI]
  c_byte.rdr_accepts [OF TrueI] c_int16.rdr_accepts [OF TrueI]
  c_uint16.rdr_accepts [OF TrueI] c_int32.rdr_accepts [OF TrueI]
  c_uint32.rdr_accepts [OF TrueI] c_int64.rdr_accepts [OF TrueI]
  c_uint64.rdr_accepts [OF TrueI] c_float.rdr_accepts [OF TrueI]
  c_double.rdr_accepts [OF TrueI] c_statuscode.rdr_accepts [OF TrueI]

lemmas accepts_then_primitives [wire_intros] =
  c_boolean.accepts_then [OF TrueI, simplified append.simps] c_sbyte.accepts_then [OF TrueI, simplified append.simps]
  c_byte.accepts_then [OF TrueI, simplified append.simps] c_int16.accepts_then [OF TrueI, simplified append.simps]
  c_uint16.accepts_then [OF TrueI, simplified append.simps] c_int32.accepts_then [OF TrueI, simplified append.simps]
  c_uint32.accepts_then [OF TrueI, simplified append.simps] c_int64.accepts_then [OF TrueI, simplified append.simps]
  c_uint64.accepts_then [OF TrueI, simplified append.simps] c_float.accepts_then [OF TrueI, simplified append.simps]
  c_double.accepts_then [OF TrueI, simplified append.simps] c_statuscode.accepts_then [OF TrueI, simplified append.simps]

lemmas accepts_last_primitives [wire_intros] =
  c_boolean.accepts_last [OF TrueI, simplified append.simps] c_sbyte.accepts_last [OF TrueI, simplified append.simps]
  c_byte.accepts_last [OF TrueI, simplified append.simps] c_int16.accepts_last [OF TrueI, simplified append.simps]
  c_uint16.accepts_last [OF TrueI, simplified append.simps] c_int32.accepts_last [OF TrueI, simplified append.simps]
  c_uint32.accepts_last [OF TrueI, simplified append.simps] c_int64.accepts_last [OF TrueI, simplified append.simps]
  c_uint64.accepts_last [OF TrueI, simplified append.simps] c_float.accepts_last [OF TrueI, simplified append.simps]
  c_double.accepts_last [OF TrueI, simplified append.simps] c_statuscode.accepts_last [OF TrueI, simplified append.simps]

section \<open>Array lengths and the sticky status\<close>

lemma read_fixed_latched:
  "rd_status r \<noteq> MU_STATUS_GOOD \<Longrightarrow> read_fixed n load r = (Inl (rd_status r), r)"
  by (simp add: read_fixed_def rbind_def ensure_bytes_def)

lemma write_fixed_latched:
  "wr_status w \<noteq> MU_STATUS_GOOD \<Longrightarrow> write_fixed bs w = (wr_status w, w)"
  by (simp add: write_fixed_def wthen_def ensure_space_def writer_status_def)

section \<open>What a primitive read returns\<close>

lemma read_fixed_iff:
  "read_fixed n load r = (Inr v, r') \<longleftrightarrow> rd_status r = MU_STATUS_GOOD \<and> rd_buffer r \<noteq> None \<and>
     rd_position r \<le> rd_length r \<and> n \<le> rd_length r - rd_position r \<and> v = load (rd_at r) \<and> r' = rd_skip n r"
  by (auto simp: read_fixed_def rbind_def ensure_bytes_def reader_fail_def)

lemma rd_at_skip: "rd_at (rd_skip n r) = drop n (rd_at r)"
  by (simp add: rd_at_def ac_simps)

lemma read_fixed_err:
  "read_fixed n load r = (Inl s, r') \<Longrightarrow> rd_status r = MU_STATUS_GOOD \<Longrightarrow>
   s = MU_STATUS_BAD_INTERNALERROR \<or> s = MU_STATUS_BAD_DECODINGERROR"
  by (auto simp: read_fixed_def rbind_def ensure_bytes_def reader_fail_def split: if_splits)

end
