(* ===== verification/Binary_Values.thy ===== *)
theory Binary_Values
  imports Binary_Primitives
begin

text \<open>
  The structured values of the OPC UA binary encoding: strings
  (\<^verbatim>\<open>src/encoding/binary_string.c\<close>), node identifiers and qualified names
  (\<^verbatim>\<open>binary_nodeid.c\<close>), extension object headers
  (\<^verbatim>\<open>binary_extension_object.c\<close>), variants (\<^verbatim>\<open>binary_variant.c\<close>) and data values
  (\<^verbatim>\<open>binary_datavalue.c\<close>).  Strings point into the receive buffer in the code;
  here they carry the bytes they point to.
\<close>

section \<open>Strings\<close>

definition MU_MAX_ENCODED_STRING_LENGTH :: int where
  "MU_MAX_ENCODED_STRING_LENGTH = 4096"

definition string_reader_fail :: "statuscode \<Rightarrow> 'a rd" where
  "string_reader_fail s r = (Inl s, r\<lparr>rd_status := s\<rparr>)"

definition ensure_string_payload :: "u32 \<Rightarrow> unit rd" where
  "ensure_string_payload len r =
     (if sint len \<le> 0 then (Inr (), r)
      else if rd_length r < rd_position r then string_reader_fail MU_STATUS_BAD_DECODINGERROR r
      else if rd_length r - rd_position r < nat (sint len)
      then string_reader_fail MU_STATUS_BAD_DECODINGERROR r
      else (Inr (), r))"

definition mu_binary_read_string :: "mu_string rd" where
  "mu_binary_read_string =
     rbind mu_binary_read_int32 (\<lambda>len.
       if len = -1 then rreturn \<lparr>str_length = len, str_data = None\<rparr>
       else if sint len < 0 then rfail MU_STATUS_BAD_DECODINGERROR
       else if MU_MAX_ENCODED_STRING_LENGTH < sint len then rfail MU_STATUS_BAD_ENCODINGLIMITSEXCEEDED
       else rbind (ensure_string_payload len) (\<lambda>_ r.
         (Inr \<lparr>str_length = len, str_data = Some (take (nat (sint len)) (rd_at r))\<rparr>,
          rd_skip (nat (sint len)) r)))"

definition mu_binary_write_string :: "mu_string \<Rightarrow> wr" where
  "mu_binary_write_string v =
     (if str_length v = -1 then mu_binary_write_int32 (-1)
      else if sint (str_length v) < 0 then wreturn MU_STATUS_BAD_ENCODINGERROR
      else if MU_MAX_ENCODED_STRING_LENGTH < sint (str_length v)
      then wreturn MU_STATUS_BAD_ENCODINGLIMITSEXCEEDED
      else wthen (mu_binary_write_int32 (str_length v)) (\<lambda>w.
        if 0 < sint (str_length v) then
          if wr_length w < wr_position w + nat (sint (str_length v))
          then (MU_STATUS_BAD_ENCODINGERROR, w)
          else (MU_STATUS_GOOD, wr_put (take (nat (sint (str_length v))) (the (str_data v))) w)
        else (MU_STATUS_GOOD, w)))"

definition mu_binary_read_bytestring :: "mu_string rd" where
  "mu_binary_read_bytestring = mu_binary_read_string"

definition mu_binary_write_bytestring :: "mu_string \<Rightarrow> wr" where
  "mu_binary_write_bytestring v = mu_binary_write_string v"

definition mu_binary_read_username_identity_token :: "mu_username_identity_token rd" where
  "mu_binary_read_username_identity_token r =
     (if reader_status r \<noteq> MU_STATUS_GOOD then (Inl (reader_status r), r)
      else rbind mu_binary_read_string (\<lambda>policy.
           rbind mu_binary_read_string (\<lambda>user.
           rbind mu_binary_read_bytestring (\<lambda>password.
           rbind mu_binary_read_string (\<lambda>algorithm.
             rreturn \<lparr>un_policy_id = policy, un_username = user, un_password = password,
                      un_encryption_algorithm = algorithm\<rparr>)))) r)"

definition mu_binary_read_certificate_identity_token :: "mu_certificate_identity_token rd" where
  "mu_binary_read_certificate_identity_token r =
     (if reader_status r \<noteq> MU_STATUS_GOOD then (Inl (reader_status r), r)
      else rbind mu_binary_read_string (\<lambda>policy.
           rbind mu_binary_read_bytestring (\<lambda>cert.
             rreturn \<lparr>ci_policy_id = policy, ci_certificate_data = cert\<rparr>)) r)"

section \<open>Node identifiers and qualified names\<close>

definition mu_binary_read_nodeid :: "mu_nodeid rd" where
  "mu_binary_read_nodeid =
     rbind mu_binary_read_byte (\<lambda>encoding_mask.
       let format = encoding_mask AND 0x0F in
       if format = 0x00 then
         rbind mu_binary_read_byte (\<lambda>i.
           rreturn \<lparr>namespace_index = 0, nid_identifier = NumericId (ucast i)\<rparr>)
       else if format = 0x01 then
         rbind mu_binary_read_byte (\<lambda>ns.
         rbind mu_binary_read_uint16 (\<lambda>i.
           rreturn \<lparr>namespace_index = ucast ns, nid_identifier = NumericId (ucast i)\<rparr>))
       else if format = 0x02 then
         rbind mu_binary_read_uint16 (\<lambda>ns.
         rbind mu_binary_read_uint32 (\<lambda>i.
           rreturn \<lparr>namespace_index = ns, nid_identifier = NumericId i\<rparr>))
       else if format = 0x03 then
         rbind mu_binary_read_uint16 (\<lambda>ns.
         rbind mu_binary_read_string (\<lambda>s.
           rreturn \<lparr>namespace_index = ns, nid_identifier = StringId s\<rparr>))
       else rfail MU_STATUS_BAD_DECODINGERROR)"

definition mu_binary_write_nodeid :: "mu_nodeid \<Rightarrow> wr" where
  "mu_binary_write_nodeid v =
     (case nid_identifier v of
        NumericId i \<Rightarrow>
          if namespace_index v = 0 \<and> i \<le> 255 then
            wthen (mu_binary_write_byte 0x00) (mu_binary_write_byte (ucast i))
          else if namespace_index v \<le> 255 \<and> i \<le> 65535 then
            wthen (mu_binary_write_byte 0x01)
              (wthen (mu_binary_write_byte (ucast (namespace_index v)))
                (mu_binary_write_uint16 (ucast i)))
          else
            wthen (mu_binary_write_byte 0x02)
              (wthen (mu_binary_write_uint16 (namespace_index v)) (mu_binary_write_uint32 i))
      | StringId s \<Rightarrow>
          wthen (mu_binary_write_byte 0x03)
            (wthen (mu_binary_write_uint16 (namespace_index v)) (mu_binary_write_string s))
      | GuidId \<Rightarrow> wreturn MU_STATUS_BAD_ENCODINGERROR
      | OpaqueId \<Rightarrow> wreturn MU_STATUS_BAD_ENCODINGERROR)"

definition mu_binary_read_expanded_nodeid :: "mu_expanded_nodeid rd" where
  "mu_binary_read_expanded_nodeid r =
     (if rd_length r \<le> rd_position r then (Inl MU_STATUS_BAD_DECODINGERROR, r)
      else let encoding_mask = rd_at r ! 0 in
        rbind mu_binary_read_nodeid (\<lambda>nid.
        rbind (if encoding_mask AND 0x80 \<noteq> 0 then mu_binary_read_string else rreturn null_string) (\<lambda>uri.
        rbind (if encoding_mask AND 0x40 \<noteq> 0 then mu_binary_read_uint32 else rreturn 0) (\<lambda>srv.
          rreturn \<lparr>exp_node_id = nid, namespace_uri = uri, server_index = srv\<rparr>))) r)"

definition mu_binary_write_expanded_nodeid :: "mu_expanded_nodeid \<Rightarrow> wr" where
  "mu_binary_write_expanded_nodeid v = mu_binary_write_nodeid (exp_node_id v)"

definition mu_binary_read_qualified_name :: "mu_qualified_name rd" where
  "mu_binary_read_qualified_name =
     rbind mu_binary_read_uint16 (\<lambda>ns.
     rbind mu_binary_read_string (\<lambda>name.
       rreturn \<lparr>qn_namespace_index = ns, qn_name = name\<rparr>))"

definition mu_binary_write_qualified_name :: "mu_qualified_name \<Rightarrow> wr" where
  "mu_binary_write_qualified_name v =
     wthen (mu_binary_write_uint16 (qn_namespace_index v)) (mu_binary_write_string (qn_name v))"

section \<open>Extension objects\<close>

definition mu_binary_read_extension_object_header :: "(mu_nodeid \<times> nat) rd" where
  "mu_binary_read_extension_object_header =
     rbind mu_binary_read_nodeid (\<lambda>type_id.
     rbind mu_binary_read_byte (\<lambda>encoding_mask.
       if encoding_mask = 0x00 then rreturn (type_id, 0)
       else if encoding_mask = 0x01 \<or> encoding_mask = 0x02 then
         rbind mu_binary_read_int32 (\<lambda>len.
           if sint len < 0 then rfail MU_STATUS_BAD_DECODINGERROR
           else rreturn (type_id, nat (sint len)))
       else rfail MU_STATUS_BAD_DECODINGERROR))"

definition mu_binary_write_extension_object_header :: "mu_nodeid \<Rightarrow> nat \<Rightarrow> wr" where
  "mu_binary_write_extension_object_header type_id len =
     wthen (mu_binary_write_nodeid type_id)
       (if len = 0 then wthen (mu_binary_write_byte 0x00) (wreturn MU_STATUS_GOOD)
        else wthen (mu_binary_write_byte 0x01)
               (wthen (mu_binary_write_int32 (of_nat len)) (wreturn MU_STATUS_GOOD)))"

text \<open>The body is decoded by a callback on a reader of its own, bounded by the
  declared length; the whole length must be consumed.\<close>

definition mu_binary_read_extension_object_body :: "nat \<Rightarrow> 'a rd \<Rightarrow> 'a rd" where
  "mu_binary_read_extension_object_body len dec r =
     (if rd_status r \<noteq> MU_STATUS_GOOD then (Inl (rd_status r), r)
      else if rd_buffer r = None then (Inl MU_STATUS_BAD_INTERNALERROR, r)
      else if rd_length r < rd_position r \<or> rd_length r - rd_position r < len
      then (Inl MU_STATUS_BAD_DECODINGERROR, r\<lparr>rd_status := MU_STATUS_BAD_DECODINGERROR\<rparr>)
      else case dec (mu_binary_reader_init (Some (rd_at r)) len) of
          (Inl s, body) \<Rightarrow> (Inl s, r\<lparr>rd_status := s\<rparr>)
        | (Inr x, body) \<Rightarrow>
            if rd_status body \<noteq> MU_STATUS_GOOD
            then (Inl (rd_status body), r\<lparr>rd_status := rd_status body\<rparr>)
            else if rd_position body \<noteq> len
            then (Inl MU_STATUS_BAD_DECODINGERROR, r\<lparr>rd_status := MU_STATUS_BAD_DECODINGERROR\<rparr>)
            else (Inr x, rd_skip len r))"

definition mu_binary_skip_extension_object :: "unit rd" where
  "mu_binary_skip_extension_object =
     rbind mu_binary_read_extension_object_header (\<lambda>(type_id, len) r.
       if rd_length r < rd_position r \<or> rd_length r - rd_position r < len
       then (Inl MU_STATUS_BAD_DECODINGERROR, r\<lparr>rd_status := MU_STATUS_BAD_DECODINGERROR\<rparr>)
       else (Inr (), rd_skip len r))"

section \<open>Wire formats\<close>

definition valid_string :: "mu_string \<Rightarrow> bool" where
  "valid_string s \<longleftrightarrow> s = null_string \<or>
     (case str_data s of None \<Rightarrow> False
      | Some bs \<Rightarrow> str_length s = of_nat (length bs) \<and> int (length bs) \<le> MU_MAX_ENCODED_STRING_LENGTH)"

definition enc_string :: "mu_string \<Rightarrow> byte list" where
  "enc_string s = mu_binary_le_put_u32 (str_length s) @ (case str_data s of None \<Rightarrow> [] | Some bs \<Rightarrow> bs)"

definition valid_nodeid :: "mu_nodeid \<Rightarrow> bool" where
  "valid_nodeid v = (case nid_identifier v of NumericId _ \<Rightarrow> True | StringId s \<Rightarrow> valid_string s
     | GuidId \<Rightarrow> False | OpaqueId \<Rightarrow> False)"

definition enc_nodeid :: "mu_nodeid \<Rightarrow> byte list" where
  "enc_nodeid v = (case nid_identifier v of
      NumericId i \<Rightarrow>
        if namespace_index v = 0 \<and> i \<le> 255 then [0x00, ucast i]
        else if namespace_index v \<le> 255 \<and> i \<le> 65535
        then [0x01, ucast (namespace_index v)] @ mu_binary_le_put_u16 (ucast i)
        else [0x02] @ mu_binary_le_put_u16 (namespace_index v) @ mu_binary_le_put_u32 i
    | StringId s \<Rightarrow> [0x03] @ mu_binary_le_put_u16 (namespace_index v) @ enc_string s
    | _ \<Rightarrow> [])"

definition valid_qualified_name :: "mu_qualified_name \<Rightarrow> bool" where
  "valid_qualified_name v \<longleftrightarrow> valid_string (qn_name v)"

definition enc_qualified_name :: "mu_qualified_name \<Rightarrow> byte list" where
  "enc_qualified_name v = mu_binary_le_put_u16 (qn_namespace_index v) @ enc_string (qn_name v)"

definition valid_extension_object_header :: "mu_nodeid \<times> nat \<Rightarrow> bool" where
  "valid_extension_object_header h \<longleftrightarrow> valid_nodeid (fst h) \<and> snd h < 2 ^ 31"

definition enc_extension_object_header :: "mu_nodeid \<times> nat \<Rightarrow> byte list" where
  "enc_extension_object_header h = enc_nodeid (fst h) @
     (if snd h = 0 then [0x00] else [0x01] @ mu_binary_le_put_u32 (of_nat (snd h)))"

section \<open>Strings: safety and wire format\<close>

lemma sint_of_nat_small: "n < 2 ^ 31 \<Longrightarrow> sint (of_nat n :: u32) = int n"
  by (simp add: signed_of_nat signed_take_bit_eq_if_positive take_bit_nat_eq_self
     signed_take_bit_int_eq_self)

lemma valid_string_cases:
  assumes "valid_string s"
  obtains "s = null_string"
  | bs where "s = mk_string bs" "length bs \<le> 4096" "sint (str_length s) = int (length bs)"
proof (cases "s = null_string")
  case False
  then obtain bs where bs: "str_data s = Some bs" "str_length s = of_nat (length bs)" "length bs \<le> 4096"
    using assms by (auto simp: valid_string_def MU_MAX_ENCODED_STRING_LENGTH_def split: option.splits)
  then have "s = mk_string bs" by (simp add: mk_string_def)
  then show ?thesis using that(2) [of bs] bs sint_of_nat_small [of "length bs"] by simp
qed (use that in blast)

lemma ensure_string_payload_ok:
  "rd_ok r \<Longrightarrow> nat (sint len) \<le> length (rd_rest r) \<Longrightarrow> ensure_string_payload len r = (Inr (), r)"
  by (frule length_rd_rest, erule rd_okD) (simp add: ensure_string_payload_def)

lemma ensure_string_payload_short:
  "rd_ok r \<Longrightarrow> length (rd_rest r) < nat (sint len) \<Longrightarrow>
   ensure_string_payload len r =
     (Inl MU_STATUS_BAD_DECODINGERROR, r\<lparr>rd_status := MU_STATUS_BAD_DECODINGERROR\<rparr>)"
  by (frule length_rd_rest, erule rd_okD) (simp add: ensure_string_payload_def string_reader_fail_def)

lemma decoder_step_payload:
  "decoder_step (rbind (ensure_string_payload len) (\<lambda>_ r.
     (Inr (f (take (nat (sint len)) (rd_at r))), rd_skip (nat (sint len)) r)))"
  by (rule decoder_stepI_span [where n = "nat (sint len)" and g = "\<lambda>bs. Some (f bs)"])
     (simp_all add: rbind_def ensure_string_payload_ok ensure_string_payload_short rd_at_rest rd_ok_wf)

lemma decoder_read_string [safe_intros]: "decoder mu_binary_read_string"
  unfolding mu_binary_read_string_def
  by (intro safe_intros decoder_step_payload
      [where f = "\<lambda>bs. \<lparr>str_length = len, str_data = Some bs\<rparr>" for len]) simp_all

lemma decoder_read_bytestring [safe_intros]: "decoder mu_binary_read_bytestring"
  unfolding mu_binary_read_bytestring_def by (rule decoder_read_string)

lemmas decoder_step_string [safe_intros] =
  decoder_read_string [THEN decoder_stepI] decoder_read_bytestring [THEN decoder_stepI]

lemma rd_accepts_payload:
  "sint len = int (length bs) \<Longrightarrow>
   rd_accepts (rbind (ensure_string_payload len) (\<lambda>_ r.
     (Inr (f (take (nat (sint len)) (rd_at r))), rd_skip (nat (sint len)) r))) bs (f bs)"
  unfolding rd_accepts_def
proof (intro allI impI)
  fix r rest assume len: "sint len = int (length bs)" and r: "rd_ok r" "rd_rest r = bs @ rest"
  then have "ensure_string_payload len r = (Inr (), r)" "take (length bs) (rd_at r) = bs"
    using rd_at_rest [OF r(1), of "length bs"] by (simp_all add: ensure_string_payload_ok)
  then show "rbind (ensure_string_payload len) (\<lambda>_ r.
     (Inr (f (take (nat (sint len)) (rd_at r))), rd_skip (nat (sint len)) r)) r =
       (Inr (f bs), rd_skip (length bs) r)"
    using len by (simp add: rbind_def)
qed

lemma rd_accepts_string: "valid_string s \<Longrightarrow> rd_accepts mu_binary_read_string (enc_string s) s"
proof (erule valid_string_cases)
  assume "s = null_string"
  then show ?thesis
    unfolding mu_binary_read_string_def enc_string_def
    by (intro rd_accepts_bind [OF c_int32.rdr_accepts [of "-1"]])
       (auto simp: null_string_def rd_accepts_return)
next
  fix bs assume s: "s = mk_string bs" "length bs \<le> 4096" "sint (str_length s) = int (length bs)"
  then have "str_length s \<noteq> -1" by auto
  then show ?thesis
    unfolding mu_binary_read_string_def enc_string_def
    using s rd_accepts_payload [of "str_length s" bs "\<lambda>bs. \<lparr>str_length = str_length s, str_data = Some bs\<rparr>"]
    by (intro rd_accepts_bind [OF c_int32.rdr_accepts [of "str_length s"]])
       (auto simp: mk_string_def MU_MAX_ENCODED_STRING_LENGTH_def)
qed

lemma put_payload:
  assumes w: "wr_ok w" and n: "sint len = int (length bs)"
  shows "(if 0 < sint len then
            if wr_length w < wr_position w + nat (sint len) then (MU_STATUS_BAD_ENCODINGERROR, w)
            else (MU_STATUS_GOOD, wr_put (take (nat (sint len)) bs) w)
          else (MU_STATUS_GOOD, w)) =
         (if length bs \<le> wr_room w then (MU_STATUS_GOOD, wr_put bs w)
          else (MU_STATUS_BAD_ENCODINGERROR, w))"
  using w n by (auto simp: wr_room_def elim!: wr_okD)

lemma wr_emits_string: "valid_string s \<Longrightarrow> wr_emits (mu_binary_write_string s) (enc_string s)"
proof (erule valid_string_cases)
  assume "s = null_string"
  then show ?thesis
    using c_int32.wrt_emits [of "-1"]
    by (simp add: null_string_def mu_binary_write_string_def enc_string_def)
next
  fix bs assume s: "s = mk_string bs" "length bs \<le> 4096" "sint (str_length s) = int (length bs)"
  then have data: "the (str_data s) = bs" by (simp add: mk_string_def)
  have "enc_string s = mu_binary_le_put_u32 (str_length s) @ bs"
    using s(1) by (simp add: enc_string_def mk_string_def)
  moreover have "str_length s \<noteq> -1" "\<not> sint (str_length s) < 0"
    "\<not> MU_MAX_ENCODED_STRING_LENGTH < sint (str_length s)"
    using s(2,3) by (auto simp: MU_MAX_ENCODED_STRING_LENGTH_def)
  ultimately show ?thesis
    using put_payload [OF _ s(3)]
    by (simp only: mu_binary_write_string_def if_False data)
       (rule c_int32.emits_then, simp, simp add: wr_emits_def)
qed

interpretation c_string: codec mu_binary_read_string mu_binary_write_string enc_string valid_string
  unfolding codec_def codec_axioms_def
  using decoder_read_string wr_emits_string rd_accepts_string by blast

interpretation c_bytestring: codec mu_binary_read_bytestring mu_binary_write_bytestring enc_string valid_string
  using c_string.codec_axioms
  by (simp add: mu_binary_read_bytestring_def mu_binary_write_bytestring_def [abs_def])

lemma encoder_step_put_payload:
  "encoder_step (\<lambda>w. if 0 < sint len then
            if wr_length w < wr_position w + nat (sint len) then (MU_STATUS_BAD_ENCODINGERROR, w)
            else (MU_STATUS_GOOD, wr_put (take (nat (sint len)) bs) w)
          else (MU_STATUS_GOOD, w))"
  by unfold_locales
     (auto split: if_splits intro!: wr_frame_put elim!: wr_okD simp: wr_room_def min_def)

lemma encoder_step_write_string [safe_intros]: "encoder_step (mu_binary_write_string s)"
  unfolding mu_binary_write_string_def
  by (intro safe_intros encoder_step_put_payload)

lemma encoder_step_write_bytestring [safe_intros]: "encoder_step (mu_binary_write_bytestring s)"
  unfolding mu_binary_write_bytestring_def by (rule encoder_step_write_string)

section \<open>Node identifiers: safety and wire format\<close>

lemma decoder_read_nodeid [safe_intros]: "decoder mu_binary_read_nodeid"
  unfolding mu_binary_read_nodeid_def Let_def by (intro safe_intros) simp

lemma decoder_read_qualified_name [safe_intros]: "decoder mu_binary_read_qualified_name"
  unfolding mu_binary_read_qualified_name_def by (intro safe_intros)

lemma decoder_read_extension_object_header [safe_intros]:
  "decoder mu_binary_read_extension_object_header"
  unfolding mu_binary_read_extension_object_header_def by (intro safe_intros) simp_all

lemmas decoder_step_nodeid [safe_intros] =
  decoder_read_nodeid [THEN decoder_stepI] decoder_read_qualified_name [THEN decoder_stepI]
  decoder_read_extension_object_header [THEN decoder_stepI]

lemma encoder_step_write_nodeid [safe_intros]: "encoder_step (mu_binary_write_nodeid v)"
  unfolding mu_binary_write_nodeid_def
  by (cases "nid_identifier v") (auto intro!: safe_intros)

lemma encoder_step_write_qualified_name [safe_intros]: "encoder_step (mu_binary_write_qualified_name v)"
  unfolding mu_binary_write_qualified_name_def by (intro safe_intros)

lemma encoder_step_write_extension_object_header [safe_intros]:
  "encoder_step (mu_binary_write_extension_object_header t n)"
  unfolding mu_binary_write_extension_object_header_def by (intro safe_intros)

lemma ucast_back:
  "i \<le> 255 \<Longrightarrow> ucast (ucast (i :: u32) :: byte) = i"
  "i \<le> 65535 \<Longrightarrow> ucast (ucast (i :: u32) :: u16) = i"
  "n \<le> 255 \<Longrightarrow> ucast (ucast (n :: u16) :: byte) = n"
  by (rule ucast_ucast_small; simp add: word_le_nat_alt)+

lemmas string_wire [wire_intros] =
  c_string.wrt_emits c_string.emits_then c_string.emits_last
  c_string.rdr_accepts c_string.accepts_then c_string.accepts_last
  c_bytestring.wrt_emits c_bytestring.emits_then c_bytestring.emits_last
  c_bytestring.rdr_accepts c_bytestring.accepts_then c_bytestring.accepts_last

lemma wr_emits_nodeid: "valid_nodeid v \<Longrightarrow> wr_emits (mu_binary_write_nodeid v) (enc_nodeid v)"
  unfolding mu_binary_write_nodeid_def enc_nodeid_def valid_nodeid_def
  by (cases "nid_identifier v") (auto intro!: wire_intros)

lemma rd_accepts_nodeid: "valid_nodeid v \<Longrightarrow> rd_accepts mu_binary_read_nodeid (enc_nodeid v) v"
  unfolding mu_binary_read_nodeid_def enc_nodeid_def valid_nodeid_def
  by (cases v, cases "nid_identifier v") (auto intro!: wire_intros simp: ucast_back)

interpretation c_nodeid: codec mu_binary_read_nodeid mu_binary_write_nodeid enc_nodeid valid_nodeid
  unfolding codec_def codec_axioms_def
  using decoder_read_nodeid wr_emits_nodeid rd_accepts_nodeid by blast

lemma rd_accepts_returnI: "x = v \<Longrightarrow> rd_accepts (rreturn x) [] v"
  by (simp add: rd_accepts_return)

interpretation c_qualified_name: codec mu_binary_read_qualified_name mu_binary_write_qualified_name
    enc_qualified_name valid_qualified_name
  unfolding codec_def codec_axioms_def
  by (auto intro!: safe_intros wire_intros rd_accepts_returnI simp: mu_binary_read_qualified_name_def
      mu_binary_write_qualified_name_def enc_qualified_name_def valid_qualified_name_def)

lemmas nodeid_wire [wire_intros] =
  c_nodeid.wrt_emits c_nodeid.emits_then c_nodeid.emits_last
  c_nodeid.rdr_accepts c_nodeid.accepts_then c_nodeid.accepts_last
  c_qualified_name.wrt_emits c_qualified_name.emits_then c_qualified_name.emits_last
  c_qualified_name.rdr_accepts c_qualified_name.accepts_then c_qualified_name.accepts_last

section \<open>Extension objects: safety and wire format\<close>

interpretation c_extension_object_header: codec mu_binary_read_extension_object_header
    "case_prod mu_binary_write_extension_object_header"
    enc_extension_object_header valid_extension_object_header
  unfolding codec_def codec_axioms_def
  by (auto intro!: safe_intros wire_intros rd_accepts_returnI
      simp: mu_binary_read_extension_object_header_def mu_binary_write_extension_object_header_def
        enc_extension_object_header_def valid_extension_object_header_def sint_of_nat_small)

text \<open>The body reader of an extension object sees the declared span and nothing
  else.\<close>

lemma rd_rest_init_take: "rd_rest (mu_binary_reader_init (Some bs) n) = take n bs"
  by (simp add: rd_rest_def mu_binary_reader_init_def)

lemma body_reader:
  assumes "rd_ok r" "len \<le> length (rd_rest r)"
  shows "rd_ok (mu_binary_reader_init (Some (rd_at r)) len)"
    "rd_rest (mu_binary_reader_init (Some (rd_at r)) len) = take len (rd_rest r)"
proof -
  have "len \<le> length (rd_at r)" using assms(2) by (simp add: rd_at_def rd_rest_def)
  then show "rd_ok (mu_binary_reader_init (Some (rd_at r)) len)"
    by (simp add: rd_ok_def rd_wf_def mu_binary_reader_init_def)
  show "rd_rest (mu_binary_reader_init (Some (rd_at r)) len) = take len (rd_rest r)"
    using rd_at_rest [OF assms] by (simp add: rd_rest_init_take)
qed

lemma decoder_read_extension_object_body [safe_intros]:
  assumes dec: "decoder_step dec"
  shows "decoder (mu_binary_read_extension_object_body len dec)"
proof (rule decoder.intro)
  let ?span = "\<lambda>bs. mu_binary_reader_init (Some bs) (length bs)"
  let ?m = "mu_binary_read_extension_object_body len dec"
  define g where "g bs = (case dec (?span bs) of
      (Inr x, b) \<Rightarrow> if rd_position b = len then Some x else None | _ \<Rightarrow> None)" for bs
  have run: "?m r = (case dec (mu_binary_reader_init (Some (rd_at r)) len) of
      (Inl s, b) \<Rightarrow> (Inl s, r\<lparr>rd_status := s\<rparr>)
    | (Inr x, b) \<Rightarrow> if rd_status b \<noteq> MU_STATUS_GOOD then (Inl (rd_status b), r\<lparr>rd_status := rd_status b\<rparr>)
        else if rd_position b \<noteq> len
        then (Inl MU_STATUS_BAD_DECODINGERROR, r\<lparr>rd_status := MU_STATUS_BAD_DECODINGERROR\<rparr>)
        else (Inr x, rd_skip len r))"
    if "rd_ok r" "len \<le> length (rd_rest r)" for r
    using that length_rd_rest [OF that(1)]
    by (auto simp: mu_binary_read_extension_object_body_def elim!: rd_okD)
  show "decoder_step ?m"
  proof (rule decoder_stepI_span [where n = len and g = g])
    fix r x assume r: "rd_ok r" "len \<le> length (rd_rest r)" and g: "g (take len (rd_rest r)) = Some x"
    then obtain b where b: "dec (?span (take len (rd_rest r))) = (Inr x, b)" "rd_position b = len"
      by (auto simp: g_def split: prod.splits sum.splits if_splits)
    from decoder_step.same_rest [OF dec rd_ok_init body_reader(1) [OF r] _ b(1)] body_reader(2) [OF r]
    obtain n where "b = rd_skip n (?span (take len (rd_rest r)))"
      "dec (mu_binary_reader_init (Some (rd_at r)) len)
        = (Inr x, rd_skip n (mu_binary_reader_init (Some (rd_at r)) len))"
      by (metis rd_rest_init)
    then show "?m r = (Inr x, rd_skip len r)"
      using b(2) run [OF r] by (simp add: mu_binary_reader_init_def)
  next
    fix r assume r: "rd_ok r" "len \<le> length (rd_rest r)" and g: "g (take len (rd_rest r)) = None"
    obtain y b where y: "dec (mu_binary_reader_init (Some (rd_at r)) len) = (y, b)" by fastforce
    show "\<exists>s r'. ?m r = (Inl s, r') \<and> s \<noteq> MU_STATUS_GOOD \<and> rd_frame r r'"
    proof (cases y)
      case (Inl s)
      then show ?thesis
        using run [OF r] y decoder_step.step_err [OF dec body_reader(1) [OF r]] r(1) by (simp add: rd_ok_wf)
    next
      case (Inr x)
      from decoder_step.same_rest [OF dec body_reader(1) [OF r] rd_ok_init _ y [unfolded Inr]]
        body_reader(2) [OF r] obtain n where n: "b = rd_skip n (mu_binary_reader_init (Some (rd_at r)) len)"
        "dec (?span (take len (rd_rest r))) = (Inr x, rd_skip n (?span (take len (rd_rest r))))"
        by (metis rd_rest_init)
      then have "rd_position b \<noteq> len" "rd_status b = MU_STATUS_GOOD"
        using g by (auto simp: g_def mu_binary_reader_init_def split: if_splits)
      then show ?thesis using run [OF r] y Inr r(1) by (simp add: rd_ok_wf)
    qed
  next
    fix r assume r: "rd_ok r" "length (rd_rest r) < len"
    then show "\<exists>s r'. ?m r = (Inl s, r') \<and> s \<noteq> MU_STATUS_GOOD \<and> rd_frame r r'"
      using length_rd_rest [OF r(1)]
      by (auto simp: mu_binary_read_extension_object_body_def rd_ok_wf elim!: rd_okD)
  qed
  show "decoder_axioms ?m"
    by unfold_locales (auto simp: mu_binary_read_extension_object_body_def rd_ok_def)
qed

lemma skip_body_step:
  "decoder_step (\<lambda>r. if rd_length r < rd_position r \<or> rd_length r - rd_position r < len
       then (Inl MU_STATUS_BAD_DECODINGERROR, r\<lparr>rd_status := MU_STATUS_BAD_DECODINGERROR\<rparr>)
       else (Inr (), rd_skip len r))"
  by (rule decoder_stepI_span [where n = len and g = "\<lambda>_. Some ()"])
     (simp_all add: length_rd_rest rd_ok_wf, auto elim: rd_okD)

lemma decoder_skip_extension_object [safe_intros]: "decoder mu_binary_skip_extension_object"
  unfolding mu_binary_skip_extension_object_def
  by (rule decoder_bind [OF decoder_read_extension_object_header]) (auto intro: skip_body_step)

section \<open>What a string read returns\<close>

lemma read_string_length:
  "mu_binary_read_string r = (Inr s, r') \<Longrightarrow>
   str_length s = mu_binary_le_get_u32 (rd_at r) \<and> 4 \<le> rd_length r - rd_position r"
  by (auto simp: mu_binary_read_string_def rbind_Inr mu_binary_read_int32_def read_fixed_iff rreturn_def rfail_def split: if_splits)

lemma read_string_bound:
  "mu_binary_read_string r = (Inr s, r') \<Longrightarrow> sint (str_length s) \<le> 4096"
  by (auto simp: mu_binary_read_string_def rbind_Inr rreturn_def rfail_def MU_MAX_ENCODED_STRING_LENGTH_def split: if_splits)

lemma read_string_err:
  "mu_binary_read_string r = (Inl s, r') \<Longrightarrow> rd_status r = MU_STATUS_GOOD \<Longrightarrow>
   s = MU_STATUS_BAD_INTERNALERROR \<or> s = MU_STATUS_BAD_DECODINGERROR \<or> s = MU_STATUS_BAD_ENCODINGLIMITSEXCEEDED"
  by (auto simp: mu_binary_read_string_def rbind_Inl mu_binary_read_int32_def read_fixed_iff
      rreturn_def rfail_def ensure_string_payload_def string_reader_fail_def dest: read_fixed_err split: if_splits)

end
