(* ===== verification/Chunk_Framing.thy ===== *)
theory Chunk_Framing
  imports Binary_Values
begin

text \<open>
  Message chunks: the parsing and writing of chunk headers
  (\<^verbatim>\<open>src/core/message_chunk.c\<close>), the framing of responses (\<^verbatim>\<open>uasc.c\<close>), the
  service type prefix (\<^verbatim>\<open>service_message.c\<close>) and the sequence number check
  (\<^verbatim>\<open>sequence.c\<close>).  A raw buffer is a byte list with its declared length next to
  it; stores replace a span of it.
\<close>

section \<open>Chunk headers\<close>

record mu_message_header =
  message_type :: "byte list"
  chunk_type :: byte
  message_size :: u32
  mh_secure_channel_id :: u32

record mu_sequence_header =
  sequence_number :: u32
  sh_request_id :: u32

definition HEL :: "byte list" where "HEL = [0x48, 0x45, 0x4C]"
definition ACK :: "byte list" where "ACK = [0x41, 0x43, 0x4B]"
definition ERR :: "byte list" where "ERR = [0x45, 0x52, 0x52]"
definition OPN :: "byte list" where "OPN = [0x4F, 0x50, 0x4E]"
definition CLO :: "byte list" where "CLO = [0x43, 0x4C, 0x4F]"
definition MSG :: "byte list" where "MSG = [0x4D, 0x53, 0x47]"

abbreviation chunk_C :: byte where "chunk_C \<equiv> 0x43"
abbreviation chunk_F :: byte where "chunk_F \<equiv> 0x46"
abbreviation chunk_A :: byte where "chunk_A \<equiv> 0x41"

definition MU_UASC_SYMMETRIC_HEADER_SIZE :: nat where "MU_UASC_SYMMETRIC_HEADER_SIZE = 24"
definition MU_UASC_ASYMMETRIC_NONE_HEADER_SIZE :: nat where
  "MU_UASC_ASYMMETRIC_NONE_HEADER_SIZE = 79"

text \<open>An abort chunk carries an error code of its own behind the header.\<close>

definition abort_chunk_status :: "byte list \<Rightarrow> nat \<Rightarrow> mu_message_header \<Rightarrow> statuscode" where
  "abort_chunk_status buffer len header =
    (if message_type header ! 0 = 0x4F then MU_STATUS_BAD_TCPINTERNALERROR
     else if unat (message_size header) < MU_UASC_SYMMETRIC_HEADER_SIZE + 4
     then MU_STATUS_BAD_TCPINTERNALERROR
     else case mu_binary_read_statuscode
              ((mu_binary_reader_init (Some buffer) len)\<lparr>rd_position := MU_UASC_SYMMETRIC_HEADER_SIZE\<rparr>) of
         (Inl status, _) \<Rightarrow> status
       | (Inr abort_status, _) \<Rightarrow>
           if abort_status = MU_STATUS_GOOD then MU_STATUS_BAD_TCPINTERNALERROR else abort_status)"

text \<open>The status is returned together with the header struct as far as it has been
  filled in, which the caller looks at also after an error.\<close>

definition mu_parse_message_header ::
    "byte list \<Rightarrow> nat \<Rightarrow> mu_message_header \<Rightarrow> statuscode \<times> mu_message_header" where
  "mu_parse_message_header buffer len header =
    (if len < 8 then (MU_STATUS_BAD_TCPINTERNALERROR, header)
     else let header = header\<lparr>message_type := [buffer ! 0, buffer ! 1, buffer ! 2], chunk_type := buffer ! 3\<rparr> in
     if message_type header \<notin> set [HEL, ACK, ERR, OPN, CLO, MSG]
     then (MU_STATUS_BAD_TCPMESSAGETYPEINVALID, header)
     else if chunk_type header \<notin> set [chunk_C, chunk_F, chunk_A]
     then (MU_STATUS_BAD_TCPMESSAGETYPEINVALID, header)
     else let header = header\<lparr>message_size := mu_binary_le_get_u32 (drop 4 buffer)\<rparr> in
     if message_size header < 8 then (MU_STATUS_BAD_TCPINTERNALERROR, header)
     else if len < unat (message_size header) then (MU_STATUS_BAD_TCPMESSAGETOOLARGE, header)
     else if chunk_type header = chunk_C then (MU_STATUS_BAD_TCPINTERNALERROR, header)
     else if message_type header ! 0 \<in> set [0x48, 0x41, 0x45]
     then (MU_STATUS_GOOD, header\<lparr>mh_secure_channel_id := 0\<rparr>)
     else if len < 12 then (MU_STATUS_BAD_TCPINTERNALERROR, header)
     else if message_size header < 12 then (MU_STATUS_BAD_TCPINTERNALERROR, header)
     else let header = header\<lparr>mh_secure_channel_id := mu_binary_le_get_u32 (drop 8 buffer)\<rparr> in
     if chunk_type header = chunk_A then (abort_chunk_status buffer len header, header)
     else (MU_STATUS_GOOD, header))"

definition mu_write_message_header ::
    "byte list \<Rightarrow> nat \<Rightarrow> mu_message_header \<Rightarrow> statuscode \<times> byte list" where
  "mu_write_message_header buffer len header =
    (if len < 12 then (MU_STATUS_BAD_INTERNALERROR, buffer)
     else (MU_STATUS_GOOD, overwrite buffer 0
       ([message_type header ! 0, message_type header ! 1, message_type header ! 2, chunk_type header] @
        mu_binary_le_put_u32 (message_size header) @ mu_binary_le_put_u32 (mh_secure_channel_id header))))"

definition mu_parse_sequence_header ::
    "byte list \<Rightarrow> nat \<Rightarrow> nat \<Rightarrow> statuscode + (mu_sequence_header \<times> nat)" where
  "mu_parse_sequence_header buffer len offset =
    (if len < offset then Inl MU_STATUS_BAD_DECODINGERROR
     else if len - offset < 4 then Inl MU_STATUS_BAD_DECODINGERROR
     else let seq = mu_binary_le_get_u32 (drop offset buffer); position = offset + 4 in
     if len - position < 4 then Inl MU_STATUS_BAD_DECODINGERROR
     else Inr (\<lparr>sequence_number = seq, sh_request_id = mu_binary_le_get_u32 (drop position buffer)\<rparr>,
               position + 4))"

definition mu_write_sequence_header ::
    "byte list \<Rightarrow> nat \<Rightarrow> nat \<Rightarrow> mu_sequence_header \<Rightarrow> (statuscode + nat) \<times> byte list" where
  "mu_write_sequence_header buffer len offset header =
    (if len < offset then (Inl MU_STATUS_BAD_ENCODINGERROR, buffer)
     else if len - offset < 4 then (Inl MU_STATUS_BAD_ENCODINGERROR, buffer)
     else let buffer = overwrite buffer offset (mu_binary_le_put_u32 (sequence_number header));
              position = offset + 4 in
     if len - position < 4 then (Inl MU_STATUS_BAD_ENCODINGERROR, buffer)
     else (Inr (position + 4), overwrite buffer position (mu_binary_le_put_u32 (sh_request_id header))))"

section \<open>Response framing\<close>

definition mu_uasc_write_uint32_le :: "byte list \<Rightarrow> nat \<Rightarrow> u32 \<Rightarrow> byte list" where
  "mu_uasc_write_uint32_le buffer offset value = overwrite buffer offset (mu_binary_le_put_u32 value)"

definition mu_uasc_finalize_symmetric ::
    "byte list \<Rightarrow> nat \<Rightarrow> u32 \<Rightarrow> u32 \<Rightarrow> u32 \<Rightarrow> u32 \<Rightarrow> nat \<Rightarrow> (statuscode + nat) \<times> byte list" where
  "mu_uasc_finalize_symmetric buffer buffer_size channel token seq req body_length =
    (let total = MU_UASC_SYMMETRIC_HEADER_SIZE + body_length in
     if buffer_size < total then (Inl MU_STATUS_BAD_RESPONSETOOLARGE, buffer)
     else let buffer = overwrite buffer 0 (MSG @ [chunk_F]);
              buffer = mu_uasc_write_uint32_le buffer 4 (of_nat total);
              buffer = mu_uasc_write_uint32_le buffer 8 channel;
              buffer = mu_uasc_write_uint32_le buffer 12 token;
              buffer = mu_uasc_write_uint32_le buffer 16 seq;
              buffer = mu_uasc_write_uint32_le buffer 20 req in
          (Inr total, buffer))"

text \<open>\<open>"http://opcfoundation.org/UA/SecurityPolicy#None"\<close>\<close>

definition policy_uri_none :: "byte list" where
  "policy_uri_none = map (\<lambda>c. of_char c) ''http://opcfoundation.org/UA/SecurityPolicy#None''"

definition mu_uasc_finalize_asymmetric_none ::
    "byte list \<Rightarrow> nat \<Rightarrow> u32 \<Rightarrow> u32 \<Rightarrow> u32 \<Rightarrow> nat \<Rightarrow> (statuscode + nat) \<times> byte list" where
  "mu_uasc_finalize_asymmetric_none buffer buffer_size channel seq req body_length =
    (let total = MU_UASC_ASYMMETRIC_NONE_HEADER_SIZE + body_length in
     if buffer_size < total then (Inl MU_STATUS_BAD_RESPONSETOOLARGE, buffer)
     else let buffer = overwrite buffer 0 (OPN @ [chunk_F]);
              buffer = mu_uasc_write_uint32_le buffer 4 (of_nat total);
              buffer = mu_uasc_write_uint32_le buffer 8 channel;
              buffer = mu_uasc_write_uint32_le buffer 12 (of_nat (length policy_uri_none));
              buffer = overwrite buffer 16 policy_uri_none;
              buffer = mu_uasc_write_uint32_le buffer 63 0xFFFFFFFF;
              buffer = mu_uasc_write_uint32_le buffer 67 0xFFFFFFFF;
              buffer = mu_uasc_write_uint32_le buffer 71 seq;
              buffer = mu_uasc_write_uint32_le buffer 75 req in
          (Inr total, buffer))"

section \<open>The service type prefix\<close>

definition mu_parse_service_prefix :: "byte list \<Rightarrow> nat \<Rightarrow> nat \<Rightarrow> statuscode + (mu_nodeid \<times> nat)" where
  "mu_parse_service_prefix buffer len offset =
    (case mu_binary_read_nodeid ((mu_binary_reader_init (Some buffer) len)\<lparr>rd_position := offset\<rparr>) of
       (Inl s, _) \<Rightarrow> Inl s
     | (Inr nid, r) \<Rightarrow> Inr (nid, rd_position r))"

definition mu_write_service_prefix ::
    "byte list \<Rightarrow> nat \<Rightarrow> nat \<Rightarrow> mu_nodeid \<Rightarrow> (statuscode + nat) \<times> byte list" where
  "mu_write_service_prefix buffer len offset nid =
    (case mu_binary_write_nodeid nid ((mu_binary_writer_init (Some buffer) len)\<lparr>wr_position := offset\<rparr>) of
       (s, w) \<Rightarrow> (if s \<noteq> MU_STATUS_GOOD then Inl s else Inr (wr_position w), the (wr_buffer w)))"

section \<open>Sequence numbers\<close>

record mu_sequence_validator =
  last_sequence_number :: u32
  is_initialized :: bool

definition mu_sequence_validator_init :: mu_sequence_validator where
  "mu_sequence_validator_init = \<lparr>last_sequence_number = 0, is_initialized = False\<rparr>"

definition mu_sequence_validate ::
    "mu_sequence_validator \<Rightarrow> u32 \<Rightarrow> statuscode \<times> mu_sequence_validator" where
  "mu_sequence_validate v n =
    (if \<not> is_initialized v
     then (MU_STATUS_GOOD, v\<lparr>last_sequence_number := n, is_initialized := True\<rparr>)
     else if n = last_sequence_number v + 1
     then (MU_STATUS_GOOD, v\<lparr>last_sequence_number := n\<rparr>)
     else if 4294966271 < last_sequence_number v \<and> n < 1024
     then (MU_STATUS_GOOD, v\<lparr>last_sequence_number := n\<rparr>)
     else (MU_STATUS_BAD_SECURITYCHECKSFAILED, v))"

text \<open>A whole stream of numbers offered to the validator; the receiver aborts at
  the first refusal.\<close>

fun sequence_accepts :: "mu_sequence_validator \<Rightarrow> u32 list \<Rightarrow> bool" where
  "sequence_accepts v [] = True"
| "sequence_accepts v (n # ns) =
     (case mu_sequence_validate v n of (s, v') \<Rightarrow> s = MU_STATUS_GOOD \<and> sequence_accepts v' ns)"

text \<open>The successor relation on the numbers of a stream.\<close>

definition seq_next :: "nat \<Rightarrow> nat \<Rightarrow> bool" where
  "seq_next a b \<longleftrightarrow> b = a + 1 \<or> (4294966271 < a \<and> b < 1024)"

fun seq_chain :: "nat list \<Rightarrow> bool" where
  "seq_chain (a # b # xs) = (seq_next a b \<and> seq_chain (b # xs))"
| "seq_chain _ = True"

section \<open>Framed responses parse back\<close>

lemmas message_types = HEL_def ACK_def ERR_def OPN_def CLO_def MSG_def

lemma symmetric_bytes:
  assumes "24 + n \<le> cap" "cap \<le> length buffer"
  shows "mu_uasc_finalize_symmetric buffer cap channel token seq req n =
    (Inr (24 + n), (MSG @ [chunk_F]) @ mu_binary_le_put_u32 (of_nat (24 + n)) @ mu_binary_le_put_u32 channel @
       mu_binary_le_put_u32 token @ mu_binary_le_put_u32 seq @ mu_binary_le_put_u32 req @ drop 24 buffer)"
proof -
  let ?hd = "\<lambda>ws. (MSG @ [chunk_F]) @ concat (map mu_binary_le_put_u32 ws)"
  have len: "length (?hd ws) = 4 + 4 * length ws" for ws
    by (induction ws) (simp_all add: MSG_def)
  have step: "overwrite (overwrite buffer 0 (?hd ws)) (4 + 4 * length ws) (mu_binary_le_put_u32 w)
      = overwrite buffer 0 (?hd (ws @ [w]))" if "length ws < 5" for ws w
    using overwrite_overwrite_append [of 0 "?hd ws" "mu_binary_le_put_u32 w" buffer] len [of ws] that assms
    by simp
  show ?thesis
    using step [of "[]"] step [of "[of_nat (24 + n)]"] step [of "[of_nat (24 + n), channel]"]
      step [of "[of_nat (24 + n), channel, token]"] step [of "[of_nat (24 + n), channel, token, seq]"] assms
    by (simp add: mu_uasc_finalize_symmetric_def mu_uasc_write_uint32_le_def MU_UASC_SYMMETRIC_HEADER_SIZE_def
        Let_def overwrite_def [of buffer 0] MSG_def)
qed

lemma length_policy_uri_none: "length policy_uri_none = 47"
  by (simp add: policy_uri_none_def)

lemma asymmetric_bytes:
  assumes "79 + n \<le> cap" "cap \<le> length buffer"
  shows "mu_uasc_finalize_asymmetric_none buffer cap channel seq req n =
    (Inr (79 + n), (OPN @ [chunk_F]) @ mu_binary_le_put_u32 (of_nat (79 + n)) @ mu_binary_le_put_u32 channel @
       mu_binary_le_put_u32 47 @ policy_uri_none @ mu_binary_le_put_u32 0xFFFFFFFF @
       mu_binary_le_put_u32 0xFFFFFFFF @ mu_binary_le_put_u32 seq @ mu_binary_le_put_u32 req @ drop 79 buffer)"
proof -
  have step: "overwrite (overwrite buffer 0 as) k bs = overwrite buffer 0 (as @ bs)"
    if "k = length as" "length as + length bs \<le> 79" for as bs k
    using overwrite_overwrite_append [of 0 as bs buffer] that assms by simp
  show ?thesis
    using assms length_policy_uri_none
    by (simp add: mu_uasc_finalize_asymmetric_none_def mu_uasc_write_uint32_le_def
        MU_UASC_ASYMMETRIC_NONE_HEADER_SIZE_def Let_def OPN_def step)
       (simp add: overwrite_def)
qed

lemma parse_written_header:
  assumes "length mt = 3" "mt \<in> set [OPN, CLO, MSG]" "12 \<le> n" "n \<le> len" "n < 2 ^ 32" "len < 2 ^ 32"
  shows "mu_parse_message_header (mt @ [chunk_F] @ mu_binary_le_put_u32 (of_nat n) @ mu_binary_le_put_u32 channel @ rest) len h
    = (MU_STATUS_GOOD, \<lparr>message_type = mt, chunk_type = chunk_F, message_size = of_nat n, mh_secure_channel_id = channel\<rparr>)"
proof -
  have n: "unat (of_nat n :: u32) = n" using assms by (simp add: unat_of_nat_small)
  then have "\<not> (of_nat n :: u32) < 8" "\<not> (of_nat n :: u32) < 12"
    using assms(3) by (simp_all add: word_less_nat_alt)
  moreover obtain a b c where "mt = [a, b, c]"
    using assms(1) by (auto simp: length_Suc_conv numeral_3_eq_3)
  ultimately show ?thesis
    using assms n by (auto simp: mu_parse_message_header_def message_types Let_def)
qed

text \<open>C16: a response that \<^verbatim>\<open>mu_uasc_finalize_symmetric\<close> has framed is what a
  receiver expects: its header parses as a final MSG chunk of exactly the framed
  size on the given channel, the token and the sequence header are found at their
  offsets, and the body behind the header is untouched.\<close>

theorem finalize_symmetric_parses:
  assumes "24 + n \<le> cap" "cap \<le> length buffer" "24 + n < 2 ^ 32"
  shows "\<exists>buffer'. mu_uasc_finalize_symmetric buffer cap channel token seq req n = (Inr (24 + n), buffer') \<and>
    mu_parse_message_header buffer' (24 + n) h =
      (MU_STATUS_GOOD, \<lparr>message_type = MSG, chunk_type = chunk_F, message_size = of_nat (24 + n), mh_secure_channel_id = channel\<rparr>) \<and>
    mu_binary_le_get_u32 (drop 12 buffer') = token \<and>
    mu_parse_sequence_header buffer' (24 + n) 16 = Inr (\<lparr>sequence_number = seq, sh_request_id = req\<rparr>, 24) \<and>
    length buffer' = length buffer \<and> drop 24 buffer' = drop 24 buffer"
proof -
  have hdr: "mu_parse_message_header ((MSG @ [chunk_F]) @ mu_binary_le_put_u32 (of_nat (24 + n)) @ mu_binary_le_put_u32 channel @ rest) (24 + n) h =
      (MU_STATUS_GOOD, \<lparr>message_type = MSG, chunk_type = chunk_F, message_size = of_nat (24 + n), mh_secure_channel_id = channel\<rparr>)" for rest
    using parse_written_header [of MSG "24 + n" "24 + n" channel rest h] assms(3) by (simp add: MSG_def)
  show ?thesis
    unfolding symmetric_bytes [OF assms(1,2)] using hdr assms(1,2)
    by (auto simp: mu_parse_sequence_header_def Let_def MSG_def)
qed

theorem finalize_symmetric_parses_witness:
  "\<exists>buffer'. mu_uasc_finalize_symmetric (replicate 40 7) 40 5 6 7 8 4 = (Inr 28, buffer') \<and>
     mu_parse_sequence_header buffer' 28 16 = Inr (\<lparr>sequence_number = 7, sh_request_id = 8\<rparr>, 24)"
  using finalize_symmetric_parses [of 4 40 "replicate 40 7" 5 6 7 8 undefined] by fastforce

text \<open>a framed OpenSecureChannel response is read back by the reads that the
  receiving side performs: channel, policy URI, two null byte strings, and the
  sequence header, ending exactly at the body.\<close>

theorem finalize_asymmetric_none_parses:
  assumes "79 + n \<le> cap" "cap \<le> length buffer" "79 + n < 2 ^ 32"
  shows "\<exists>buffer'. mu_uasc_finalize_asymmetric_none buffer cap channel seq req n = (Inr (79 + n), buffer') \<and>
    mu_parse_message_header buffer' (79 + n) h =
      (MU_STATUS_GOOD, \<lparr>message_type = OPN, chunk_type = chunk_F, message_size = of_nat (79 + n), mh_secure_channel_id = channel\<rparr>) \<and>
    (\<exists>r. rbind mu_binary_read_uint32 (\<lambda>ch. rbind mu_binary_read_string (\<lambda>uri.
          rbind mu_binary_read_bytestring (\<lambda>cert. rbind mu_binary_read_bytestring (\<lambda>thumb.
          rbind mu_binary_read_uint32 (\<lambda>sq. rbind mu_binary_read_uint32 (\<lambda>rq.
            rreturn (ch, uri, cert, thumb, sq, rq)))))))
        ((mu_binary_reader_init (Some buffer') (79 + n))\<lparr>rd_position := 8\<rparr>) =
        (Inr (channel, mk_string policy_uri_none, null_string, null_string, seq, req), r) \<and> rd_position r = 79) \<and>
    drop 79 buffer' = drop 79 buffer"
proof -
  let ?b = "(OPN @ [chunk_F]) @ mu_binary_le_put_u32 (of_nat (79 + n)) @ mu_binary_le_put_u32 channel @
       mu_binary_le_put_u32 47 @ policy_uri_none @ mu_binary_le_put_u32 0xFFFFFFFF @
       mu_binary_le_put_u32 0xFFFFFFFF @ mu_binary_le_put_u32 seq @ mu_binary_le_put_u32 req @ drop 79 buffer"
  let ?r = "(mu_binary_reader_init (Some ?b) (79 + n))\<lparr>rd_position := 8\<rparr>"
  let ?bs = "mu_binary_le_put_u32 channel @ enc_string (mk_string policy_uri_none) @ enc_string null_string @
      enc_string null_string @ mu_binary_le_put_u32 seq @ mu_binary_le_put_u32 req"
  have v: "valid_string (mk_string policy_uri_none)" "valid_string null_string"
    by (simp_all add: valid_string_def mk_string_def length_policy_uri_none MU_MAX_ENCODED_STRING_LENGTH_def)
  have acc: "rd_accepts (rbind mu_binary_read_uint32 (\<lambda>ch. rbind mu_binary_read_string (\<lambda>uri.
          rbind mu_binary_read_bytestring (\<lambda>cert. rbind mu_binary_read_bytestring (\<lambda>thumb.
          rbind mu_binary_read_uint32 (\<lambda>sq. rbind mu_binary_read_uint32 (\<lambda>rq.
            rreturn (ch, uri, cert, thumb, sq, rq))))))) ) ?bs
        (channel, mk_string policy_uri_none, null_string, null_string, seq, req)"
    using v by (intro wire_intros)
  have null: "(0xFFFFFFFF :: u32) = -1" by simp
  have bs: "rd_rest ?r = ?bs @ take n (drop 79 buffer)" "length ?bs = 71" "rd_ok ?r"
    unfolding null using assms length_policy_uri_none
    by (simp_all add: rd_rest_def rd_ok_def rd_wf_def mu_binary_reader_init_def OPN_def enc_string_def mk_string_def
        null_string_def drop_take)
  show ?thesis
    unfolding asymmetric_bytes [OF assms(1,2)]
    using rd_acceptsD [OF acc bs(3,1)] bs(2) parse_written_header [of OPN "79 + n" "79 + n" channel _ h] assms
      length_policy_uri_none
    by (auto simp: OPN_def mu_binary_reader_init_def)
qed

theorem finalize_asymmetric_none_parses_witness:
  "\<exists>buffer'. mu_uasc_finalize_asymmetric_none (replicate 100 7) 100 1 2 3 4 = (Inr 83, buffer') \<and>
     drop 79 buffer' = replicate 21 7"
  using finalize_asymmetric_none_parses [of 4 100 "replicate 100 7" 1 2 3 undefined] by fastforce

section \<open>Which chunks are accepted\<close>

lemma read_statuscode_good:
  "mu_binary_read_statuscode r = (Inl s, r') \<Longrightarrow> rd_wf r \<Longrightarrow> s \<noteq> MU_STATUS_GOOD"
  using decoder.dead [OF decoder_primitives(12), of r] decoder_step.step_err [OF decoder_step_primitives(12), of r]
  by (cases "rd_ok r") auto

lemma fst_if_bad: "s \<noteq> g \<Longrightarrow> fst (if c then (s, x) else y) = g \<longleftrightarrow> \<not> c \<and> fst y = g"
  by simp

lemma fst_if_good: "fst (if c then (g, x) else y) = g \<longleftrightarrow> c \<or> fst y = g"
  by simp

lemma fst_if_abort: "(c \<Longrightarrow> fst x \<noteq> g) \<Longrightarrow> fst (if c then x else (g, y)) = g \<longleftrightarrow> \<not> c"
  by auto

lemma abort_chunk_status_bad:
  assumes "len \<le> length buffer" "unat (message_size header) \<le> len"
  shows "abort_chunk_status buffer len header \<noteq> MU_STATUS_GOOD"
proof (cases "unat (message_size header) < 28")
  case False
  let ?r = "(mu_binary_reader_init (Some buffer) len)\<lparr>rd_position := MU_UASC_SYMMETRIC_HEADER_SIZE\<rparr>"
  have wf: "rd_wf ?r"
    using False assms by (simp add: rd_wf_def mu_binary_reader_init_def MU_UASC_SYMMETRIC_HEADER_SIZE_def)
  obtain res r' where run: "mu_binary_read_statuscode ?r = (res, r')" by fastforce
  show ?thesis
  proof (cases res)
    case (Inl s)
    then show ?thesis using run read_statuscode_good [of ?r s r'] wf by (simp add: abort_chunk_status_def)
  qed (simp add: run abort_chunk_status_def)
qed (simp add: abort_chunk_status_def MU_UASC_SYMMETRIC_HEADER_SIZE_def)

lemma parse_message_header_good:
  assumes "len \<le> length buffer" "8 \<le> len"
  shows "fst (mu_parse_message_header buffer len h) = MU_STATUS_GOOD \<longleftrightarrow>
   [buffer ! 0, buffer ! 1, buffer ! 2] \<in> set [HEL, ACK, ERR, OPN, CLO, MSG] \<and>
   buffer ! 3 \<in> set [chunk_C, chunk_F, chunk_A] \<and>
   8 \<le> unat (mu_binary_le_get_u32 (drop 4 buffer)) \<and> unat (mu_binary_le_get_u32 (drop 4 buffer)) \<le> len \<and> buffer ! 3 \<noteq> chunk_C \<and>
   (buffer ! 0 \<in> set [0x48, 0x41, 0x45] \<or> (12 \<le> len \<and> 12 \<le> unat (mu_binary_le_get_u32 (drop 4 buffer)) \<and> buffer ! 3 \<noteq> chunk_A))"

proof (cases "unat (mu_binary_le_get_u32 (drop 4 buffer)) \<le> len")
  case size: True
  have "abort_chunk_status buffer len (h\<lparr>message_type := mt, chunk_type := ct, message_size := (mu_binary_le_get_u32 (drop 4 buffer)),
      mh_secure_channel_id := ch\<rparr>) \<noteq> MU_STATUS_GOOD" for mt ct ch
    by (rule abort_chunk_status_bad [OF assms(1)]) (simp add: size)
  then show ?thesis
    unfolding mu_parse_message_header_def Let_def using assms(2) size
    by (simp add: fst_if_bad fst_if_good fst_if_abort word_less_nat_alt not_less
          del: list.set split del: if_split)
next
  case False
  then show ?thesis
    unfolding mu_parse_message_header_def Let_def using assms(2)
    by (simp add: fst_if_bad fst_if_good word_less_nat_alt not_less del: list.set split del: if_split)
qed

text \<open>Exactly which chunks the parser lets through: a chunk of at least eight
  bytes, of a known message type, final or abort, whose declared size lies between
  the header and the bytes at hand; and, for the secure channel messages, final
  chunks that at least hold the channel id.  Continuation chunks and aborts of
  secure channel messages are always answered with an error.\<close>

theorem parse_message_header_accepts:
  assumes "len \<le> length buffer"
  shows "fst (mu_parse_message_header buffer len h) = MU_STATUS_GOOD \<longleftrightarrow>
    8 \<le> len \<and> take 3 buffer \<in> set [HEL, ACK, ERR, OPN, CLO, MSG] \<and> buffer ! 3 \<in> set [chunk_F, chunk_A] \<and>
    8 \<le> unat (mu_binary_le_get_u32 (drop 4 buffer)) \<and> unat (mu_binary_le_get_u32 (drop 4 buffer)) \<le> len \<and>
    (take 3 buffer \<in> set [HEL, ACK, ERR] \<or>
     (buffer ! 3 = chunk_F \<and> 12 \<le> unat (mu_binary_le_get_u32 (drop 4 buffer))))"
  (is "?lhs \<longleftrightarrow> ?rhs")
proof (cases "8 \<le> len")
  case True
  let ?size = "mu_binary_le_get_u32 (drop 4 buffer)"
  have t: "take 3 buffer = [buffer ! 0, buffer ! 1, buffer ! 2]"
    using True assms by (intro nth_equalityI) (auto simp: less_Suc_eq numeral_3_eq_3 numeral_2_eq_2)
  note parse = parse_message_header_good [OF assms True, of h]
  let ?T = "[buffer ! 0, buffer ! 1, buffer ! 2]"
  have first: "buffer ! 0 \<in> set [0x48, 0x41, 0x45] \<longleftrightarrow> ?T \<in> set [HEL, ACK, ERR]"
    if "?T \<in> set [HEL, ACK, ERR, OPN, CLO, MSG]"
    using that by (auto simp: message_types)
  have ct: "x \<in> set [chunk_C, chunk_F, chunk_A] \<and> x \<noteq> chunk_C \<longleftrightarrow> x \<in> set [chunk_F, chunk_A]"
    "x \<in> set [chunk_F, chunk_A] \<Longrightarrow> x \<noteq> chunk_A \<longleftrightarrow> x = chunk_F" for x :: byte
    by auto
  show ?thesis
  proof (cases "?T \<in> set [HEL, ACK, ERR, OPN, CLO, MSG] \<and> buffer ! 3 \<in> set [chunk_F, chunk_A] \<and> unat ?size \<le> len")
    case ok: True
    then have "12 \<le> unat ?size \<Longrightarrow> 12 \<le> len" by simp
    then show ?thesis using ok True parse first ct(1) [of "buffer ! 3"] ct(2) [of "buffer ! 3"] unfolding t by blast
  next
    case False
    then show ?thesis using parse ct(1) [of "buffer ! 3"] unfolding t by blast
  qed
qed (simp add: mu_parse_message_header_def)

theorem parse_message_header_accepts_witness:
  "\<exists>h. fst (mu_parse_message_header [0x4D, 0x53, 0x47, 0x46, 12, 0, 0, 0, 1, 0, 0, 0] 12 h) = MU_STATUS_GOOD"
  using parse_message_header_accepts [of 12 "[0x4D, 0x53, 0x47, 0x46, 12, 0, 0, 0, 1, 0, 0, 0]"]
  by (simp add: message_types mu_binary_le_get_u32_def)

section \<open>No replay\<close>

lemma u32_succ:
  "(n :: u32) = a + 1 \<longleftrightarrow> unat n = unat a + 1 \<or> (unat a = 4294967295 \<and> unat n = 0)"
proof -
  have "n = a + 1 \<longleftrightarrow> unat n = unat (a + 1)" by (simp add: word_unat_eq_iff)
  also have "unat (a + 1) = (unat a + 1) mod 4294967296" by (simp add: unat_word_ariths)
  finally show ?thesis using unat_u32 [of a] unat_u32 [of n]
    by (cases "unat a = 4294967295") (auto simp: mod_less)
qed

lemma validate_next:
  "is_initialized v \<Longrightarrow>
   fst (mu_sequence_validate v n) = MU_STATUS_GOOD \<longleftrightarrow> seq_next (unat (last_sequence_number v)) (unat n)"
  by (auto simp: mu_sequence_validate_def seq_next_def word_less_nat_alt u32_succ)

lemma accepts_chain:
  "is_initialized v \<Longrightarrow>
   sequence_accepts v ns \<longleftrightarrow> seq_chain (unat (last_sequence_number v) # map unat ns)"
proof (induction ns arbitrary: v)
  case (Cons n ns)
  have good: "mu_sequence_validate v n = (MU_STATUS_GOOD, v\<lparr>last_sequence_number := n\<rparr>)"
    if "fst (mu_sequence_validate v n) = MU_STATUS_GOOD"
    using that Cons.prems by (auto simp: mu_sequence_validate_def split: if_splits)
  show ?case
    using Cons good validate_next [OF Cons.prems, of n]
    by (cases "fst (mu_sequence_validate v n) = MU_STATUS_GOOD") (auto split: prod.splits)
qed simp

lemma seq_chain_snoc:
  "seq_chain (xs @ [z]) \<Longrightarrow> xs \<noteq> [] \<Longrightarrow> seq_chain xs \<and> seq_next (last xs) z"
  by (induction xs rule: seq_chain.induct) auto

text \<open>An accepted stream is one ascending run, or two when it wraps once.\<close>

lemma seq_chain_runs:
  assumes "seq_chain xs" "length xs \<le> 4294965250" "xs \<noteq> []"
  shows "(\<exists>a c. a \<le> c \<and> xs = [a..<Suc c]) \<or>
    (\<exists>a m b c. a \<le> m \<and> 4294966271 < m \<and> b < 1024 \<and> b \<le> c \<and> c < a \<and> xs = [a..<Suc m] @ [b..<Suc c])"
  using assms
proof (induction xs rule: rev_induct)
  case (snoc z xs)
  show ?case
  proof (cases "xs = []")
    case True
    then show ?thesis by (intro disjI1 exI [of _ z]) simp
  next
    case False
    then have ch: "seq_chain xs" "seq_next (last xs) z" using seq_chain_snoc snoc.prems(1) by blast+
    have "length xs \<le> 4294965250" using snoc.prems(2) by simp
    note snoc.IH [OF ch(1) this False]
    then consider (one) a c where "a \<le> c" "xs = [a..<Suc c]"
      | (two) a m b c where "a \<le> m" "4294966271 < m" "b < 1024" "b \<le> c" "c < a" "xs = [a..<Suc m] @ [b..<Suc c]"
      by blast
    then show ?thesis
    proof cases
      case one
      then have last: "last xs = c" and len: "length xs = Suc c - a" by (simp_all add: last_append)
      consider "z = c + 1" | "4294966271 < c" "z < 1024"
        using ch(2) last unfolding seq_next_def by blast
      then show ?thesis
      proof cases
        case 1
        then show ?thesis using one by (intro disjI1 exI [of _ a] exI [of _ z]) simp
      next
        case 2
        then have "z < a" using len one snoc.prems(2) by auto
        then show ?thesis using one 2
          by (intro disjI2 exI [of _ a] exI [of _ c] exI [of _ z]) simp
      qed
    next
      case two
      then have last: "last xs = c" and len: "length xs = (Suc m - a) + (Suc c - b)"
        by (simp_all add: last_append)
      have "z = c + 1" "z < a"
        using two(1-5) ch(2) last len snoc.prems(2) unfolding seq_next_def by auto
      then show ?thesis
        using two by (intro disjI2 exI [of _ a] exI [of _ m] exI [of _ b] exI [of _ z]) simp
    qed
  qed
qed simp

lemma seq_chain_distinct: "seq_chain xs \<Longrightarrow> length xs \<le> 4294965250 \<Longrightarrow> distinct xs"
  using seq_chain_runs [of xs] by (cases "xs = []") (auto simp del: upt_Suc)

text \<open>C4: replay protection: in any stream of at most 4 294 965 250 chunks that
  the validator accepts from its initial state, no sequence number occurs twice.\<close>

theorem sequence_no_replay:
  assumes "sequence_accepts mu_sequence_validator_init ns" "length ns \<le> 4294965250"
  shows "distinct ns"
proof (cases ns)
  case (Cons n ms)
  then have "seq_chain (map unat ns)"
    using assms(1) accepts_chain [of "\<lparr>last_sequence_number = n, is_initialized = True\<rparr>" ms]
    by (simp add: mu_sequence_validate_def mu_sequence_validator_init_def)
  then have "distinct (map unat ns)" using seq_chain_distinct assms(2) by simp
  then show ?thesis by (simp only: distinct_map)
qed simp

theorem sequence_no_replay_witness:
  "sequence_accepts mu_sequence_validator_init [4294967295, 5, 6] \<and> distinct [4294967295, 5, 6 :: u32]"
proof -
  have acc: "sequence_accepts mu_sequence_validator_init [4294967295, 5, 6]"
    by (simp add: mu_sequence_validate_def mu_sequence_validator_init_def)
  then show ?thesis using sequence_no_replay [OF acc] by simp
qed
end
