(* ===== verification/Tcp_Connection.thy ===== *)
theory Tcp_Connection
  imports Chunk_Framing
begin

text \<open>
  The transport handshake (\<^verbatim>\<open>src/core/tcp_connection.c\<close>): the state of a
  connection, the answer to Hello and the Error message.
\<close>

section \<open>Connection state and configuration\<close>

datatype mu_tcp_state = MU_TCP_STATE_CLOSED | MU_TCP_STATE_CONNECTED | MU_TCP_STATE_ESTABLISHED

record mu_tcp_connection =
  tc_state :: mu_tcp_state
  tc_receive_buffer_size :: u32
  tc_send_buffer_size :: u32
  tc_max_message_size :: u32
  tc_max_chunk_count :: u32
  tc_protocol_version :: u32

text \<open>The transport limits of \<^verbatim>\<open>mu_server_config_t\<close>.\<close>

record mu_transport_limits =
  cfg_receive_buffer_size :: nat
  cfg_send_buffer_size :: nat
  cfg_max_chunk_count :: u32
  cfg_max_message_size :: u32

definition MU_MIN_CHUNK_SIZE :: nat where "MU_MIN_CHUNK_SIZE = 8192"

definition tcp_write_uint32_le :: "byte list \<Rightarrow> nat \<Rightarrow> u32 \<Rightarrow> byte list" where
  "tcp_write_uint32_le buffer offset value = overwrite buffer offset (mu_binary_le_put_u32 value)"

definition mu_tcp_connection_init :: mu_tcp_connection where
  "mu_tcp_connection_init = \<lparr>tc_state = MU_TCP_STATE_CLOSED, tc_receive_buffer_size = 0,
     tc_send_buffer_size = 0, tc_max_message_size = 0, tc_max_chunk_count = 0, tc_protocol_version = 0\<rparr>"

section \<open>Hello\<close>

record hello_fields =
  h_protocol_version :: u32
  h_receive_buffer_size :: u32
  h_send_buffer_size :: u32
  h_max_message_size :: u32
  h_max_chunk_count :: u32
  h_endpoint_url :: mu_string

text \<open>The reads of the Hello body, after the message and chunk type.\<close>

definition read_hello :: "nat \<Rightarrow> hello_fields rd" where
  "read_hello len =
     rbind mu_binary_read_int32 (\<lambda>message_size.
       if sint (of_nat len :: u32) < sint message_size then rfail MU_STATUS_BAD_TCPMESSAGETOOLARGE
       else rbind mu_binary_read_uint32 (\<lambda>version.
            rbind mu_binary_read_uint32 (\<lambda>receive.
            rbind mu_binary_read_uint32 (\<lambda>send.
            rbind mu_binary_read_uint32 (\<lambda>max_message.
            rbind mu_binary_read_uint32 (\<lambda>max_chunk.
            rbind mu_binary_read_string (\<lambda>url.
              rreturn \<lparr>h_protocol_version = version, h_receive_buffer_size = receive,
                h_send_buffer_size = send, h_max_message_size = max_message,
                h_max_chunk_count = max_chunk, h_endpoint_url = url\<rparr>)))))))"

text \<open>The negotiated values.  The receive size of the connection is what the
  peer can receive, the send size what the peer may send.\<close>

definition negotiate :: "mu_transport_limits \<Rightarrow> hello_fields \<Rightarrow> mu_tcp_connection \<Rightarrow> mu_tcp_connection" where
  "negotiate cfg h c =
    (let ack_receive = (if h_send_buffer_size h < of_nat (cfg_receive_buffer_size cfg)
                        then h_send_buffer_size h else of_nat (cfg_receive_buffer_size cfg));
         ack_send = (if h_receive_buffer_size h < of_nat (cfg_send_buffer_size cfg)
                     then h_receive_buffer_size h else of_nat (cfg_send_buffer_size cfg));
         max_message = (if h_max_message_size h < cfg_max_message_size cfg
                        then h_max_message_size h else cfg_max_message_size cfg);
         max_chunk = (if h_max_chunk_count h < cfg_max_chunk_count cfg
                      then h_max_chunk_count h else cfg_max_chunk_count cfg) in
     c\<lparr>tc_protocol_version := h_protocol_version h,
       tc_receive_buffer_size := ack_send,
       tc_send_buffer_size := ack_receive,
       tc_max_message_size := (if max_message = 0 then cfg_max_message_size cfg else max_message),
       tc_max_chunk_count := (if max_chunk = 0 then cfg_max_chunk_count cfg else max_chunk)\<rparr>)"

definition write_ack :: "mu_tcp_connection \<Rightarrow> byte list \<Rightarrow> byte list" where
  "write_ack c ack =
    (let ack = overwrite ack 0 (ACK @ [chunk_F]);
         ack = tcp_write_uint32_le ack 4 28;
         ack = tcp_write_uint32_le ack 8 0;
         ack = tcp_write_uint32_le ack 12 (tc_send_buffer_size c);
         ack = tcp_write_uint32_le ack 16 (tc_receive_buffer_size c);
         ack = tcp_write_uint32_le ack 20 (tc_max_message_size c) in
     tcp_write_uint32_le ack 24 (tc_max_chunk_count c))"

text \<open>The result is the status or the length of the acknowledgement, with the
  connection and the acknowledgement buffer.\<close>

definition mu_tcp_process_hello ::
    "mu_tcp_connection \<Rightarrow> byte list \<Rightarrow> nat \<Rightarrow> mu_transport_limits \<Rightarrow> byte list \<Rightarrow> nat
     \<Rightarrow> (statuscode + nat) \<times> mu_tcp_connection \<times> byte list" where
  "mu_tcp_process_hello c message len cfg ack ack_length =
    (if len < 8 then (Inl MU_STATUS_BAD_TCPMESSAGETOOLARGE, c, ack)
     else if message ! 0 \<noteq> 0x48 \<or> message ! 1 \<noteq> 0x45 \<or> message ! 2 \<noteq> 0x4C \<or> message ! 3 \<noteq> chunk_F
     then (Inl MU_STATUS_BAD_TCPMESSAGETYPEINVALID, c, ack)
     else case read_hello len ((mu_binary_reader_init (Some message) len)\<lparr>rd_position := 4\<rparr>) of
         (Inl s, _) \<Rightarrow> (Inl s, c, ack)
       | (Inr h, _) \<Rightarrow>
           if 4096 \<le> sint (str_length (h_endpoint_url h))
           then (Inl MU_STATUS_BAD_TCPENDPOINTURLINVALID, c, ack)
           else if unat (h_receive_buffer_size h) < MU_MIN_CHUNK_SIZE \<or>
                   unat (h_send_buffer_size h) < MU_MIN_CHUNK_SIZE
           then (Inl MU_STATUS_BAD_TCPNOTENOUGHRESOURCES, c, ack)
           else let c = negotiate cfg h c in
             if ack_length < 28 then (Inl MU_STATUS_BAD_INTERNALERROR, c, ack)
             else (Inr 28, c\<lparr>tc_state := MU_TCP_STATE_ESTABLISHED\<rparr>, write_ack c ack))"

section \<open>The Error message\<close>

definition mu_tcp_create_error_message ::
    "statuscode \<Rightarrow> byte list option \<Rightarrow> byte list \<Rightarrow> nat \<Rightarrow> (statuscode + nat) \<times> byte list" where
  "mu_tcp_create_error_message error_code reason err err_length =
    (let reason_len = (case reason of None \<Rightarrow> 0 | Some bs \<Rightarrow> length bs);
         total_len = 8 + 4 + 4 + reason_len in
     if err_length < total_len then (Inl MU_STATUS_BAD_INTERNALERROR, err)
     else let err = overwrite err 0 (ERR @ [chunk_F]);
              err = tcp_write_uint32_le err 4 (of_nat total_len);
              err = tcp_write_uint32_le err 8 error_code in
          case mu_binary_write_string \<lparr>str_length = of_nat reason_len, str_data = reason\<rparr>
                 ((mu_binary_writer_init (Some err) err_length)\<lparr>wr_position := 12\<rparr>) of
            (s, w) \<Rightarrow> (if s \<noteq> MU_STATUS_GOOD then Inl s else Inr (wr_position w), the (wr_buffer w)))"

section \<open>Vocabulary of the properties\<close>

text \<open>A limit that both sides can honour; a zero of the client means none.\<close>

definition lim_ok :: "u32 \<Rightarrow> u32 \<Rightarrow> u32 \<Rightarrow> bool" where
  "lim_ok client server agreed \<longleftrightarrow> 0 < agreed \<and> agreed \<le> server \<and> (client \<noteq> 0 \<longrightarrow> agreed \<le> client)"

definition enc_hello :: "u32 \<Rightarrow> hello_fields \<Rightarrow> byte list" where
  "enc_hello sz h = mu_binary_le_put_u32 sz @ mu_binary_le_put_u32 (h_protocol_version h) @
     mu_binary_le_put_u32 (h_receive_buffer_size h) @ mu_binary_le_put_u32 (h_send_buffer_size h) @
     mu_binary_le_put_u32 (h_max_message_size h) @ mu_binary_le_put_u32 (h_max_chunk_count h) @
     enc_string (h_endpoint_url h)"

definition sample_limits :: mu_transport_limits where
  "sample_limits = \<lparr>cfg_receive_buffer_size = 8192, cfg_send_buffer_size = 8192,
     cfg_max_chunk_count = 1, cfg_max_message_size = 8192\<rparr>"

definition sample_fields :: hello_fields where
  "sample_fields = \<lparr>h_protocol_version = 0, h_receive_buffer_size = 65536, h_send_buffer_size = 65536,
     h_max_message_size = 0, h_max_chunk_count = 0, h_endpoint_url = mk_string [0x61]\<rparr>"

definition long_url_hello :: "byte list" where
  "long_url_hello = HEL @ [chunk_F] @ enc_hello 4128 (sample_fields\<lparr>h_endpoint_url := mk_string (replicate 4096 0x61)\<rparr>)"

definition reason_bytes :: "byte list option \<Rightarrow> byte list" where
  "reason_bytes reason = (case reason of None \<Rightarrow> [] | Some bs \<Rightarrow> bs)"

section \<open>What Hello negotiates\<close>

lemma read_hello_fields:
  assumes "read_hello len r = (Inr h, r')"
  shows "h_receive_buffer_size h = mu_binary_le_get_u32 (drop 8 (rd_at r)) \<and>
    h_send_buffer_size h = mu_binary_le_get_u32 (drop 12 (rd_at r)) \<and>
    h_max_message_size h = mu_binary_le_get_u32 (drop 16 (rd_at r)) \<and>
    h_max_chunk_count h = mu_binary_le_get_u32 (drop 20 (rd_at r)) \<and>
    str_length (h_endpoint_url h) = mu_binary_le_get_u32 (drop 24 (rd_at r)) \<and> 28 \<le> rd_length r - rd_position r"
proof -
  from assms obtain sz v rc sd mm mc url q where
    "read_fixed 4 mu_binary_le_get_u32 r = (Inr sz, rd_skip 4 r)"
    "read_fixed 4 mu_binary_le_get_u32 (rd_skip 4 r) = (Inr v, rd_skip 8 r)"
    "read_fixed 4 mu_binary_le_get_u32 (rd_skip 8 r) = (Inr rc, rd_skip 12 r)"
    "read_fixed 4 mu_binary_le_get_u32 (rd_skip 12 r) = (Inr sd, rd_skip 16 r)"
    "read_fixed 4 mu_binary_le_get_u32 (rd_skip 16 r) = (Inr mm, rd_skip 20 r)"
    "read_fixed 4 mu_binary_le_get_u32 (rd_skip 20 r) = (Inr mc, rd_skip 24 r)"
    "mu_binary_read_string (rd_skip 24 r) = (Inr url, q)"
    "h = \<lparr>h_protocol_version = v, h_receive_buffer_size = rc,
                h_send_buffer_size = sd, h_max_message_size = mm,
                h_max_chunk_count = mc, h_endpoint_url = url\<rparr>"
    by (auto simp: read_hello_def rbind_Inr mu_binary_read_int32_def mu_binary_read_uint32_def read_fixed_iff
        rreturn_def rfail_def split: if_splits)
  then show ?thesis
    using read_string_length [of "rd_skip 24 r" url q] by (auto simp: read_fixed_iff rd_at_skip)
qed

lemma write_ack_bytes:
  assumes "28 \<le> length ack"
  shows "write_ack c ack = (ACK @ [chunk_F]) @ mu_binary_le_put_u32 28 @ mu_binary_le_put_u32 0 @
     mu_binary_le_put_u32 (tc_send_buffer_size c) @ mu_binary_le_put_u32 (tc_receive_buffer_size c) @
     mu_binary_le_put_u32 (tc_max_message_size c) @ mu_binary_le_put_u32 (tc_max_chunk_count c) @ drop 28 ack"
proof -
  have step: "overwrite (overwrite ack 0 as) k bs = overwrite ack 0 (as @ bs)"
    if "k = length as" "length as + length bs \<le> 28" for as bs k
    using overwrite_overwrite_append [of 0 as bs ack] that assms by simp
  show ?thesis
    by (simp add: write_ack_def tcp_write_uint32_le_def Let_def ACK_def step) (simp add: overwrite_def)
qed

lemma negotiate_limits:
  assumes "0 < s"
  shows "lim_ok c s (if (if c < s then c else s) = 0 then s else (if c < s then c else s))"
  using assms by (auto simp: lim_ok_def word_less_nat_alt word_le_nat_alt unat_gt_0)

lemma min_of_nat:
  assumes "n < 2 ^ 32"
  shows "unat (if x < (of_nat n :: u32) then x else of_nat n) = min (unat x) n"
  using assms by (auto simp: word_less_nat_alt unat_of_nat_small)

lemma negotiate_fields:
  assumes "cfg_receive_buffer_size cfg < 2 ^ 32" "cfg_send_buffer_size cfg < 2 ^ 32"
    "0 < cfg_max_message_size cfg" "0 < cfg_max_chunk_count cfg"
  shows "unat (tc_send_buffer_size (negotiate cfg h c)) = min (unat (h_send_buffer_size h)) (cfg_receive_buffer_size cfg)"
    "unat (tc_receive_buffer_size (negotiate cfg h c)) = min (unat (h_receive_buffer_size h)) (cfg_send_buffer_size cfg)"
    "lim_ok (h_max_message_size h) (cfg_max_message_size cfg) (tc_max_message_size (negotiate cfg h c))"
    "lim_ok (h_max_chunk_count h) (cfg_max_chunk_count cfg) (tc_max_chunk_count (negotiate cfg h c))"
  using assms by (simp_all add: negotiate_def Let_def min_of_nat negotiate_limits split del: if_split)

text \<open>C17: when a Hello is answered, the acknowledgement has its fixed layout and the
  connection is established with limits that both sides can honour: the buffer
  sizes are at least the minimum chunk size and never above what either side
  announced, and the message and chunk limits are non-zero and respect both sides,
  a zero of the peer meaning no limit.\<close>

theorem hello_negotiation:
  assumes "mu_tcp_process_hello c message len cfg ack n = (Inr k, c', ack')" "n \<le> length ack"
    and "8192 \<le> cfg_receive_buffer_size cfg" "cfg_receive_buffer_size cfg < 2 ^ 32"
    and "8192 \<le> cfg_send_buffer_size cfg" "cfg_send_buffer_size cfg < 2 ^ 32"
    and "0 < cfg_max_message_size cfg" "0 < cfg_max_chunk_count cfg"
  shows "k = 28 \<and> tc_state c' = MU_TCP_STATE_ESTABLISHED \<and>
    unat (tc_send_buffer_size c') = min (unat (mu_binary_le_get_u32 (drop 16 message))) (cfg_receive_buffer_size cfg) \<and>
    unat (tc_receive_buffer_size c') = min (unat (mu_binary_le_get_u32 (drop 12 message))) (cfg_send_buffer_size cfg) \<and>
    8192 \<le> unat (tc_send_buffer_size c') \<and> 8192 \<le> unat (tc_receive_buffer_size c') \<and>
    lim_ok (mu_binary_le_get_u32 (drop 20 message)) (cfg_max_message_size cfg) (tc_max_message_size c') \<and>
    lim_ok (mu_binary_le_get_u32 (drop 24 message)) (cfg_max_chunk_count cfg) (tc_max_chunk_count c') \<and>
    ack' = (ACK @ [chunk_F]) @ mu_binary_le_put_u32 28 @ mu_binary_le_put_u32 0 @
     mu_binary_le_put_u32 (tc_send_buffer_size c') @ mu_binary_le_put_u32 (tc_receive_buffer_size c') @
     mu_binary_le_put_u32 (tc_max_message_size c') @ mu_binary_le_put_u32 (tc_max_chunk_count c') @ drop 28 ack"
proof -
  let ?r = "(mu_binary_reader_init (Some message) len)\<lparr>rd_position := 4\<rparr>"
  obtain h r where h: "read_hello len ?r = (Inr h, r)" and
    big: "8192 \<le> unat (h_receive_buffer_size h)" "8192 \<le> unat (h_send_buffer_size h)" and "28 \<le> n" and
    c': "c' = (negotiate cfg h c)\<lparr>tc_state := MU_TCP_STATE_ESTABLISHED\<rparr>" "k = 28"
      "ack' = write_ack (negotiate cfg h c) ack"
    using assms(1) by (auto simp: mu_tcp_process_hello_def MU_MIN_CHUNK_SIZE_def Let_def not_less
        split: if_splits prod.splits sum.splits)
  have at: "rd_at ?r = drop 4 message" by (simp add: rd_at_def mu_binary_reader_init_def)
  note fields = read_hello_fields [OF h, unfolded at, simplified]
  show ?thesis
    unfolding c' using big fields assms(2-) \<open>28 \<le> n\<close> negotiate_fields [OF assms(4,6-8), of h c]
    by (simp add: write_ack_bytes)
qed

lemma read_hello_accepts:
  assumes "valid_string (h_endpoint_url h)" "sint sz \<le> sint (of_nat len :: u32)"
  shows "rd_accepts (read_hello len) (enc_hello sz h) h"
  unfolding read_hello_def enc_hello_def
  using assms by (intro accepts_then_primitives(6)) (auto intro!: wire_intros rd_accepts_returnI)

lemma hello_answered:
  assumes msg: "message = HEL @ [chunk_F] @ enc_hello sz h" and len: "len = length message"
    and "valid_string (h_endpoint_url h)" "sint (str_length (h_endpoint_url h)) < 4096"
    and "sint sz \<le> sint (of_nat len :: u32)"
    and "8192 \<le> unat (h_receive_buffer_size h)" "8192 \<le> unat (h_send_buffer_size h)" "28 \<le> n"
  shows "\<exists>c' ack'. mu_tcp_process_hello c message len cfg ack n = (Inr 28, c', ack')"
proof -
  let ?r = "(mu_binary_reader_init (Some message) len)\<lparr>rd_position := 4\<rparr>"
  have "rd_ok ?r" "rd_rest ?r = enc_hello sz h @ []"
    using msg len by (simp_all add: rd_ok_def rd_wf_def rd_rest_def mu_binary_reader_init_def HEL_def)
  then have "read_hello len ?r = (Inr h, rd_skip (length (enc_hello sz h)) ?r)"
    using rd_acceptsD [OF read_hello_accepts] assms(3,5) by blast
  moreover have "8 \<le> len" using msg len by (simp add: HEL_def enc_hello_def)
  ultimately show ?thesis
    using msg assms(4,6-) by (simp add: mu_tcp_process_hello_def HEL_def MU_MIN_CHUNK_SIZE_def Let_def)
qed

theorem hello_negotiation_witness:
  "\<exists>c' ack'. mu_tcp_process_hello mu_tcp_connection_init (HEL @ [chunk_F] @ enc_hello 33 sample_fields) 33
      sample_limits (replicate 64 0) 64 = (Inr 28, c', ack') \<and>
     tc_state c' = MU_TCP_STATE_ESTABLISHED \<and> unat (tc_send_buffer_size c') = 8192 \<and> tc_max_chunk_count c' \<le> 1"
proof -
  let ?m = "HEL @ [chunk_F] @ enc_hello 33 sample_fields"
  have "\<exists>c' ack'. mu_tcp_process_hello mu_tcp_connection_init ?m 33 sample_limits (replicate 64 0) 64 = (Inr 28, c', ack')"
    by (rule hello_answered [OF refl])
       (simp_all add: sample_fields_def valid_string_def mk_string_def MU_MAX_ENCODED_STRING_LENGTH_def
          HEL_def enc_hello_def enc_string_def)
  then obtain c' ack' where r: "mu_tcp_process_hello mu_tcp_connection_init ?m 33 sample_limits (replicate 64 0) 64 = (Inr 28, c', ack')"
    by blast
  have "drop 16 ?m = mu_binary_le_put_u32 65536 @ drop 20 ?m" "drop 24 ?m = mu_binary_le_put_u32 0 @ drop 28 ?m"
    by (simp_all add: HEL_def enc_hello_def sample_fields_def)
  then have "mu_binary_le_get_u32 (drop 16 ?m) = 65536" "mu_binary_le_get_u32 (drop 24 ?m) = 0"
    by (metis get_put_u32)+
  then show ?thesis
    using hello_negotiation [OF r] r by (auto simp: sample_limits_def lim_ok_def)
qed

lemma read_hello_err:
  assumes "read_hello len r = (Inl s, r')" "rd_status r = MU_STATUS_GOOD"
  shows "s \<noteq> MU_STATUS_BAD_TCPENDPOINTURLINVALID"
proof -
  have f: "read_fixed 4 mu_binary_le_get_u32 q = (Inl s, q') \<Longrightarrow> rd_status q = MU_STATUS_GOOD \<Longrightarrow>
      s \<noteq> MU_STATUS_BAD_TCPENDPOINTURLINVALID" for s q q'
    using read_fixed_err by force
  have t: "mu_binary_read_string q = (Inl s, q') \<Longrightarrow> rd_status q = MU_STATUS_GOOD \<Longrightarrow>
      s \<noteq> MU_STATUS_BAD_TCPENDPOINTURLINVALID" for s q q'
    using read_string_err by force
  show ?thesis
    using assms
    by (auto simp: read_hello_def rbind_Inl mu_binary_read_int32_def mu_binary_read_uint32_def read_fixed_iff
        rreturn_def rfail_def dest!: f t split: if_splits)
qed


section \<open>Error messages parse\<close>

lemma write_reason:
  assumes "length (reason_bytes reason) \<le> 4096"
  shows "wr_emits (mu_binary_write_string \<lparr>str_length = of_nat (length (reason_bytes reason)), str_data = reason\<rparr>)
    (mu_binary_le_put_u32 (of_nat (length (reason_bytes reason))) @ reason_bytes reason)"
proof (cases reason)
  case None
  then show ?thesis
    using c_int32.emits_last [where v = 0 and k = "wreturn MU_STATUS_GOOD"] wr_emits_return
    by (simp add: reason_bytes_def mu_binary_write_string_def MU_MAX_ENCODED_STRING_LENGTH_def wreturn_def [abs_def])
next
  case (Some bs)
  have "valid_string (mk_string bs)"
    using assms Some by (simp add: reason_bytes_def valid_string_def mk_string_def MU_MAX_ENCODED_STRING_LENGTH_def)
  from wr_emits_string [OF this] show ?thesis
    using Some by (simp add: reason_bytes_def mk_string_def enc_string_def)
qed

lemma error_message_bytes:
  fixes reason
  defines "n \<equiv> length (reason_bytes reason)"
  assumes "n \<le> 4096" "16 + n \<le> cap" "cap \<le> length err"
  shows "mu_tcp_create_error_message code reason err cap =
    (Inr (16 + n), (ERR @ [chunk_F]) @ mu_binary_le_put_u32 (of_nat (16 + n)) @ mu_binary_le_put_u32 code @
       mu_binary_le_put_u32 (of_nat n) @ reason_bytes reason @ drop (16 + n) err)"
proof -
  let ?hd = "(ERR @ [chunk_F]) @ mu_binary_le_put_u32 (of_nat (16 + n)) @ mu_binary_le_put_u32 code"
  let ?bs = "mu_binary_le_put_u32 (of_nat n) @ reason_bytes reason"
  let ?w = "(mu_binary_writer_init (Some (overwrite err 0 ?hd)) cap)\<lparr>wr_position := 12\<rparr>"
  have step: "overwrite (overwrite err 0 as) k bs = overwrite err 0 (as @ bs)"
    if "k = length as" "length as + length bs \<le> 16 + n" for as bs k
    using overwrite_overwrite_append [of 0 as bs err] that assms by simp
  have hd: "tcp_write_uint32_le (tcp_write_uint32_le (overwrite err 0 (ERR @ [chunk_F])) 4 (of_nat (16 + n))) 8 code = overwrite err 0 ?hd"
    by (simp add: tcp_write_uint32_le_def step ERR_def)
  have w: "wr_ok ?w" "length ?bs \<le> wr_room ?w" "length ?hd = 12"
    using assms by (simp_all add: wr_ok_def wr_wf_def wr_room_def mu_binary_writer_init_def ERR_def n_def)
  have run: "mu_binary_write_string \<lparr>str_length = of_nat n, str_data = reason\<rparr> ?w = (MU_STATUS_GOOD, wr_put ?bs ?w)"
    using write_reason [of reason] w assms(2) unfolding n_def by (simp add: wr_emits_def)
  have len: "(case reason of None \<Rightarrow> 0 | Some bs \<Rightarrow> length bs) = n"
    by (simp add: n_def reason_bytes_def split: option.splits)
  have tot: "8 + 4 + 4 + n = 16 + n" and n_len: "length (reason_bytes reason) = n" by (simp_all add: n_def)
  have buf: "overwrite (overwrite err 0 ?hd) 12 ?bs = ?hd @ ?bs @ drop (16 + n) err"
    using w(3) by (subst step) (simp_all add: n_def overwrite_def)
  show ?thesis
    unfolding mu_tcp_create_error_message_def len Let_def tot hd using assms(3) run buf
    by (simp add: mu_binary_writer_init_def n_len del: of_nat_add)
qed

text \<open>Every Error message that the server frames is a final ERR chunk of the
  length reported, carrying the given status code, and nothing behind it is
  touched.\<close>

theorem error_message_parses:
  fixes reason
  defines "n \<equiv> length (reason_bytes reason)"
  assumes "n \<le> 4096" "16 + n \<le> cap" "cap \<le> length err"
  shows "\<exists>err'. mu_tcp_create_error_message code reason err cap = (Inr (16 + n), err') \<and>
    mu_parse_message_header err' (16 + n) h =
      (MU_STATUS_GOOD, \<lparr>message_type = ERR, chunk_type = chunk_F, message_size = of_nat (16 + n), mh_secure_channel_id = 0\<rparr>) \<and>
    mu_binary_le_get_u32 (drop 8 err') = code \<and> drop (16 + n) err' = drop (16 + n) err"
proof -
  have n: "unat (of_nat (16 + n) :: u32) = 16 + n" using assms by (intro unat_of_nat_small) simp
  then have "\<not> (of_nat (16 + n) :: u32) < 8" by (simp add: word_less_nat_alt del: of_nat_add)
  moreover have "drop (16 + n) ((ERR @ [chunk_F]) @ mu_binary_le_put_u32 a @ mu_binary_le_put_u32 b @
      mu_binary_le_put_u32 c @ reason_bytes reason @ rest) = rest" for a b c rest
    unfolding drop_drop [of n 16, symmetric, unfolded add.commute [of n]] by (simp add: ERR_def n_def)
  ultimately show ?thesis
    unfolding error_message_bytes [of reason, folded n_def, OF assms(2-)] using n
    by (simp add: mu_parse_message_header_def Let_def message_types del: of_nat_add)
qed
theorem error_message_parses_witness:
  "\<exists>err'. mu_tcp_create_error_message MU_STATUS_BAD_TCPINTERNALERROR None (replicate 32 0) 32 = (Inr 16, err') \<and>
     mu_binary_le_get_u32 (drop 8 err') = MU_STATUS_BAD_TCPINTERNALERROR"
  using error_message_parses [of None 32 "replicate 32 0" MU_STATUS_BAD_TCPINTERNALERROR undefined]
  by (auto simp: reason_bytes_def)

end
