(* ===== verification/Address_Space.thy ===== *)
theory Address_Space
  imports Binary_Values "HOL-Library.List_Lexorder" "HOL-Library.Product_Lexorder" "HOL-Library.Multiset"
begin

text \<open>
  The address space: nodes and references (\<^verbatim>\<open>include/muc_opcua/address_space.h\<close>),
  validation (\<^verbatim>\<open>src/address_space/address_space.c\<close>), node identifier comparison,
  the bounded sorted index and the three look-up strategies
  (\<^verbatim>\<open>src/address_space/node_id.c\<close>), and value sources (\<^verbatim>\<open>value_source.c\<close>).
  An address space is identified by its address, a number; the callbacks of the
  application are handles whose behaviour is an argument of the operations.
\<close>

section \<open>Nodes\<close>

datatype mu_node_class =
    MU_NODECLASS_OBJECT | MU_NODECLASS_VARIABLE | MU_NODECLASS_METHOD | MU_NODECLASS_OBJECTTYPE
  | MU_NODECLASS_VARIABLETYPE | MU_NODECLASS_REFERENCETYPE | MU_NODECLASS_DATATYPE | MU_NODECLASS_VIEW

record mu_reference =
  reference_type_id :: mu_nodeid
  target_id :: mu_nodeid
  is_forward :: bool

datatype mu_value_source = StaticValue mu_variant | CallbackValue "nat option"

type_synonym read_callbacks = "nat \<Rightarrow> mu_nodeid \<Rightarrow> statuscode + mu_variant"

record mu_node =
  node_id :: mu_nodeid
  node_class :: mu_node_class
  browse_name :: mu_string
  display_name :: mu_string
  node_references :: "mu_reference list option"
  reference_count :: nat
  node_value :: "mu_value_source option"

record mu_address_space =
  as_nodes :: "mu_node list option"
  node_count :: nat

definition MU_MAX_ADDRESS_SPACE_NODES :: nat where "MU_MAX_ADDRESS_SPACE_NODES = 64"

record mu_address_space_index =
  ix_order :: "u16 list"
  ix_count :: nat
  ix_indexed :: bool
  built_for :: "nat option"
  built_count :: nat

section \<open>Comparing node identifiers\<close>

text \<open>The sign of \<^verbatim>\<open>memcmp\<close>.\<close>

fun memcmp :: "byte list \<Rightarrow> byte list \<Rightarrow> int" where
  "memcmp (x # xs) (y # ys) = (if x < y then -1 else if y < x then 1 else memcmp xs ys)"
| "memcmp _ _ = 0"

fun identifier_type :: "mu_identifier \<Rightarrow> nat" where
  "identifier_type (NumericId _) = 0"
| "identifier_type (StringId _) = 1"
| "identifier_type GuidId = 2"
| "identifier_type OpaqueId = 3"

fun compare_identifier :: "mu_identifier \<Rightarrow> mu_identifier \<Rightarrow> int" where
  "compare_identifier (NumericId a) (NumericId b) = (if a < b then -1 else if b < a then 1 else 0)"
| "compare_identifier (StringId a) (StringId b) =
     (if sint (str_length a) < sint (str_length b) then -1
      else if sint (str_length b) < sint (str_length a) then 1
      else if sint (str_length a) \<le> 0 then 0
      else case (str_data a, str_data b) of
          (None, None) \<Rightarrow> 0
        | (None, Some _) \<Rightarrow> -1
        | (Some _, None) \<Rightarrow> 1
        | (Some x, Some y) \<Rightarrow>
            memcmp (take (nat (sint (str_length a))) x) (take (nat (sint (str_length a))) y))"
| "compare_identifier _ _ = 0"

definition mu_nodeid_compare_direct :: "mu_nodeid \<Rightarrow> mu_nodeid \<Rightarrow> int" where
  "mu_nodeid_compare_direct l r =
     (if namespace_index l < namespace_index r then -1
      else if namespace_index r < namespace_index l then 1
      else if identifier_type (nid_identifier l) < identifier_type (nid_identifier r) then -1
      else if identifier_type (nid_identifier r) < identifier_type (nid_identifier l) then 1
      else compare_identifier (nid_identifier l) (nid_identifier r))"

fun equal_identifier :: "mu_identifier \<Rightarrow> mu_identifier \<Rightarrow> bool" where
  "equal_identifier (NumericId a) (NumericId b) = (a = b)"
| "equal_identifier (StringId a) (StringId b) =
     (if str_length a \<noteq> str_length b then False
      else if sint (str_length a) \<le> 0 then True
      else case (str_data a, str_data b) of
          (None, None) \<Rightarrow> True
        | (None, Some _) \<Rightarrow> False
        | (Some _, None) \<Rightarrow> False
        | (Some x, Some y) \<Rightarrow>
            memcmp (take (nat (sint (str_length a))) x) (take (nat (sint (str_length a))) y) = 0)"
| "equal_identifier _ _ = False"

definition mu_nodeid_equal :: "mu_nodeid \<Rightarrow> mu_nodeid \<Rightarrow> bool" where
  "mu_nodeid_equal a b =
     (if namespace_index a \<noteq> namespace_index b then False
      else if identifier_type (nid_identifier a) \<noteq> identifier_type (nid_identifier b) then False
      else equal_identifier (nid_identifier a) (nid_identifier b))"

definition mu_nodeid_in_namespace :: "mu_nodeid \<Rightarrow> u16 \<Rightarrow> bool" where
  "mu_nodeid_in_namespace n ns \<longleftrightarrow> namespace_index n = ns"

section \<open>The index\<close>

text \<open>The inner loop of the insertion: entries that compare greater move up by
  one, from the end; the result is the array and the position left free.\<close>

fun index_shift :: "mu_node list \<Rightarrow> mu_nodeid \<Rightarrow> u16 list \<Rightarrow> nat \<Rightarrow> u16 list \<times> nat" where
  "index_shift nodes current order 0 = (order, 0)"
| "index_shift nodes current order (Suc p) =
     (if mu_nodeid_compare_direct (node_id (nodes ! unat (order ! p))) current \<le> 0
      then (order, Suc p)
      else index_shift nodes current (order[Suc p := order ! p]) p)"

definition index_insert :: "mu_node list \<Rightarrow> nat \<Rightarrow> u16 list \<times> nat \<Rightarrow> u16 list \<times> nat" where
  "index_insert nodes i oc = (case oc of (order, cnt) \<Rightarrow>
     case index_shift nodes (node_id (nodes ! i)) order cnt of
       (order', position) \<Rightarrow> (order'[position := of_nat i], cnt + 1))"

definition mu_address_space_rebuild_index ::
    "nat \<Rightarrow> mu_address_space \<Rightarrow> mu_address_space_index \<Rightarrow> mu_address_space_index" where
  "mu_address_space_rebuild_index addr space index =
    (let index = index\<lparr>built_for := Some addr, built_count := node_count space, ix_count := 0, ix_indexed := False\<rparr> in
     if MU_MAX_ADDRESS_SPACE_NODES < node_count space \<or> 0xFFFF < node_count space then index
     else case fold (index_insert (the (as_nodes space))) [0..<node_count space] (ix_order index, 0) of
       (order, cnt) \<Rightarrow> index\<lparr>ix_indexed := True, ix_order := order, ix_count := cnt\<rparr>)"

section \<open>Look-up\<close>

definition mu_address_space_find_node_linear :: "mu_address_space \<Rightarrow> mu_nodeid \<Rightarrow> mu_node option" where
  "mu_address_space_find_node_linear space nid =
     find (\<lambda>n. mu_nodeid_equal (node_id n) nid) (take (node_count space) (the (as_nodes space)))"

text \<open>The binary search over positions \<open>left..<right\<close>; \<open>at\<close> gives the node at a
  position.\<close>

function binary_search :: "(nat \<Rightarrow> mu_node) \<Rightarrow> mu_nodeid \<Rightarrow> nat \<Rightarrow> nat \<Rightarrow> mu_node option" where
  "binary_search at nid left right =
     (if left < right then
        let mid = left + (right - left) div 2;
            comparison = mu_nodeid_compare_direct (node_id (at mid)) nid in
        if comparison < 0 then binary_search at nid (mid + 1) right
        else if 0 < comparison then binary_search at nid left mid
        else Some (at mid)
      else None)"
  by pat_completeness auto

termination
  by (relation "measure (\<lambda>(at, nid, left, right). right - left)") auto

definition mu_address_space_find_node_indexed ::
    "mu_address_space \<Rightarrow> mu_address_space_index \<Rightarrow> mu_nodeid \<Rightarrow> mu_node option" where
  "mu_address_space_find_node_indexed space index nid =
     binary_search (\<lambda>mid. the (as_nodes space) ! unat (ix_order index ! mid)) nid 0 (ix_count index)"

definition mu_address_space_find_node_binary_direct :: "mu_address_space \<Rightarrow> mu_nodeid \<Rightarrow> mu_node option" where
  "mu_address_space_find_node_binary_direct space nid =
     binary_search (\<lambda>mid. the (as_nodes space) ! mid) nid 0 (node_count space)"

text \<open>\<open>base\<close> is the address of the built-in base address space.\<close>

definition mu_address_space_find_node ::
    "nat \<Rightarrow> nat \<Rightarrow> mu_address_space \<Rightarrow> mu_address_space_index option \<Rightarrow> mu_nodeid
     \<Rightarrow> mu_node option \<times> mu_address_space_index option" where
  "mu_address_space_find_node base addr space index nid =
    (if as_nodes space = None then (None, index)
     else case index of
         None \<Rightarrow> (if addr = base then mu_address_space_find_node_binary_direct space nid
                  else mu_address_space_find_node_linear space nid, None)
       | Some ix \<Rightarrow>
           let ix = (if built_for ix \<noteq> Some addr \<or> built_count ix \<noteq> node_count space
                     then mu_address_space_rebuild_index addr space ix else ix) in
           (if \<not> ix_indexed ix then mu_address_space_find_node_linear space nid
            else mu_address_space_find_node_indexed space ix nid, Some ix))"

section \<open>Validation\<close>

fun has_duplicate :: "mu_node list \<Rightarrow> bool" where
  "has_duplicate [] = False"
| "has_duplicate (n # ns) =
     (list_ex (\<lambda>m. mu_nodeid_equal (node_id n) (node_id m)) ns \<or> has_duplicate ns)"

definition mu_address_space_validate :: "nat \<Rightarrow> nat \<Rightarrow> mu_address_space \<Rightarrow> statuscode" where
  "mu_address_space_validate base addr space =
    (if as_nodes space = None \<and> 0 < node_count space then MU_STATUS_BAD_INTERNALERROR
     else let ns = take (node_count space) (case as_nodes space of None \<Rightarrow> [] | Some ns \<Rightarrow> ns) in
     if has_duplicate ns then MU_STATUS_BAD_INTERNALERROR
     else if list_ex (\<lambda>n. (0 < reference_count n \<and> node_references n = None) \<or>
             (\<exists>r \<in> set (take (reference_count n) (case node_references n of None \<Rightarrow> [] | Some rs \<Rightarrow> rs)).
                fst (mu_address_space_find_node base addr space None (target_id r)) = None)) ns
     then MU_STATUS_BAD_INTERNALERROR
     else MU_STATUS_GOOD)"

section \<open>Value sources\<close>

definition MU_MAX_STRING_VALUE_LENGTH :: int where "MU_MAX_STRING_VALUE_LENGTH = 64"

definition mu_value_source_read :: "read_callbacks \<Rightarrow> mu_value_source \<Rightarrow> mu_nodeid \<Rightarrow> statuscode + mu_variant" where
  "mu_value_source_read callbacks source nid =
    (case source of
       StaticValue v \<Rightarrow>
         (case v of
            VArray _ _ _ \<Rightarrow> Inr v
          | VScalar (V_Boolean _) \<Rightarrow> Inr v
          | VScalar (V_Int32 _) \<Rightarrow> Inr v
          | VScalar (V_UInt32 _) \<Rightarrow> Inr v
          | VScalar (V_Float _) \<Rightarrow> Inr v
          | VScalar (V_String s) \<Rightarrow>
              if MU_MAX_STRING_VALUE_LENGTH < sint (str_length s) then Inl MU_STATUS_BAD_ENCODINGLIMITSEXCEEDED
              else Inr v
          | _ \<Rightarrow> Inl MU_STATUS_BAD_NOTREADABLE)
     | CallbackValue None \<Rightarrow> Inl MU_STATUS_BAD_INTERNALERROR
     | CallbackValue (Some cb) \<Rightarrow> callbacks cb nid)"

section \<open>Keys\<close>

text \<open>The abstract key of an identifier: the comparison of identifiers is the
  lexicographic order of keys.\<close>

definition id_key :: "mu_identifier \<Rightarrow> int \<times> nat \<times> nat list" where
  "id_key i = (case i of
      NumericId a \<Rightarrow> (int (unat a), 0, [])
    | StringId s \<Rightarrow> (sint (str_length s),
        if sint (str_length s) \<le> 0 then (0, [])
        else case str_data s of None \<Rightarrow> (0, []) | Some d \<Rightarrow> (1, map unat (take (nat (sint (str_length s))) d)))
    | _ \<Rightarrow> (0, 0, []))"

definition nid_key :: "mu_nodeid \<Rightarrow> nat \<times> nat \<times> int \<times> nat \<times> nat list" where
  "nid_key n = (unat (namespace_index n), identifier_type (nid_identifier n), id_key (nid_identifier n))"

definition wf_nodeid :: "mu_nodeid \<Rightarrow> bool" where
  "wf_nodeid n = (case nid_identifier n of
      StringId s \<Rightarrow> (case str_data s of None \<Rightarrow> True | Some d \<Rightarrow> sint (str_length s) \<le> int (length d))
    | _ \<Rightarrow> True)"

definition supported_nodeid :: "mu_nodeid \<Rightarrow> bool" where
  "supported_nodeid n \<longleftrightarrow> identifier_type (nid_identifier n) \<le> 1 \<and> wf_nodeid n"

definition entry_key :: "mu_node list \<Rightarrow> u16 \<Rightarrow> nat \<times> nat \<times> int \<times> nat \<times> nat list" where
  "entry_key nodes k = nid_key (node_id (nodes ! unat k))"

text \<open>The first \<open>c\<close> entries are the indices below \<open>c\<close>, in ascending key order.\<close>

definition index_sorted :: "mu_node list \<Rightarrow> u16 list \<Rightarrow> nat \<Rightarrow> bool" where
  "index_sorted nodes order c \<longleftrightarrow> mset (map unat (take c order)) = mset [0..<c] \<and>
     sorted (map (entry_key nodes) (take c order))"

definition space_nodes :: "mu_address_space \<Rightarrow> mu_node list" where
  "space_nodes space = take (node_count space) (case as_nodes space of None \<Rightarrow> [] | Some ns \<Rightarrow> ns)"

definition space_wf :: "mu_address_space \<Rightarrow> bool" where
  "space_wf space = (case as_nodes space of None \<Rightarrow> False
     | Some ns \<Rightarrow> node_count space \<le> length ns \<and> list_all (\<lambda>n. wf_nodeid (node_id n)) ns)"

definition index_covers :: "mu_address_space \<Rightarrow> mu_address_space_index \<Rightarrow> bool" where
  "index_covers space ix \<longleftrightarrow> ix_count ix = node_count space \<and> ix_count ix \<le> length (ix_order ix) \<and>
     index_sorted (the (as_nodes space)) (ix_order ix) (ix_count ix)"

definition index_ok :: "nat \<Rightarrow> mu_address_space \<Rightarrow> mu_address_space_index \<Rightarrow> bool" where
  "index_ok addr space ix \<longleftrightarrow> length (ix_order ix) = MU_MAX_ADDRESS_SPACE_NODES \<and>
     (built_for ix = Some addr \<and> built_count ix = node_count space \<and> ix_indexed ix \<longrightarrow> index_covers space ix)"

definition sample_node :: "u32 \<Rightarrow> mu_node" where
  "sample_node i = \<lparr>node_id = \<lparr>namespace_index = 1, nid_identifier = NumericId i\<rparr>, node_class = MU_NODECLASS_OBJECT,
     browse_name = null_string, display_name = null_string, node_references = None, reference_count = 0, node_value = None\<rparr>"

definition sample_space :: mu_address_space where
  "sample_space = \<lparr>as_nodes = Some [sample_node 7, sample_node 3, sample_node 5], node_count = 3\<rparr>"

definition fresh_index :: mu_address_space_index where
  "fresh_index = \<lparr>ix_order = replicate 64 0, ix_count = 0, ix_indexed = False, built_for = None, built_count = 0\<rparr>"

text \<open>Every reference of the node names a node of the table.\<close>

definition references_resolve :: "mu_node list \<Rightarrow> mu_node \<Rightarrow> bool" where
  "references_resolve ns n \<longleftrightarrow> (0 < reference_count n \<longrightarrow> node_references n \<noteq> None) \<and>
     (\<forall>r \<in> set (take (reference_count n) (case node_references n of None \<Rightarrow> [] | Some rs \<Rightarrow> rs)).
        \<exists>m \<in> set ns. mu_nodeid_equal (node_id m) (target_id r))"

text \<open>Opaque and GUID identifiers never compare equal in \<^verbatim>\<open>mu_nodeid_equal\<close>, but the
  order used by the index does not tell two of them apart: through an index a look-up
  of any GUID gives some GUID node of that namespace.\<close>

definition guid_space :: mu_address_space where
  "guid_space = \<lparr>as_nodes = Some [(sample_node 3)\<lparr>node_id := \<lparr>namespace_index = 1, nid_identifier = GuidId\<rparr>\<rparr>], node_count = 1\<rparr>"

section \<open>The order of node identifiers\<close>

lemma memcmp_sign:
  "length xs = length ys \<Longrightarrow>
   (memcmp xs ys < 0 \<longleftrightarrow> map unat xs < map unat ys) \<and> (memcmp xs ys = 0 \<longleftrightarrow> map unat xs = map unat ys)"
  by (induction xs ys rule: list_induct2) (auto simp: word_less_nat_alt)

lemma compare_identifier_key:
  assumes "wf_nodeid a" "wf_nodeid b" "identifier_type (nid_identifier a) = identifier_type (nid_identifier b)"
  shows "(compare_identifier (nid_identifier a) (nid_identifier b) < 0 \<longleftrightarrow>
            id_key (nid_identifier a) < id_key (nid_identifier b)) \<and>
         (compare_identifier (nid_identifier a) (nid_identifier b) = 0 \<longleftrightarrow>
            id_key (nid_identifier a) = id_key (nid_identifier b))"
proof (cases "nid_identifier a"; cases "nid_identifier b")
  fix x y assume xy: "nid_identifier a = StringId x" "nid_identifier b = StringId y"
  show ?thesis
  proof (cases "sint (str_length x) = sint (str_length y) \<and> 0 < sint (str_length x)")
    case True
    have len: "length (take (nat (sint (str_length x))) d) = length (take (nat (sint (str_length x))) e)"
      if "str_data x = Some d" "str_data y = Some e" for d e
      using assms(1,2) that True by (simp add: wf_nodeid_def xy)
    show ?thesis
      using True memcmp_sign [OF len] by (auto simp: xy id_key_def split: option.splits)
  qed (auto simp: xy id_key_def split: option.splits)
qed (use assms(3) in \<open>auto simp: id_key_def word_less_def word_uint_eq_iff\<close>)

lemma compare_key:
  assumes "wf_nodeid a" "wf_nodeid b"
  shows "mu_nodeid_compare_direct a b < 0 \<longleftrightarrow> nid_key a < nid_key b"
    "mu_nodeid_compare_direct a b = 0 \<longleftrightarrow> nid_key a = nid_key b"
  using compare_identifier_key [OF assms]
  by (auto simp: mu_nodeid_compare_direct_def nid_key_def word_less_nat_alt word_unat_eq_iff)

lemma compare_le_key:
  assumes "wf_nodeid a" "wf_nodeid b"
  shows "mu_nodeid_compare_direct a b \<le> 0 \<longleftrightarrow> nid_key a \<le> nid_key b"
  using compare_key [OF assms] by (auto simp: le_less)

lemma equal_key:
  assumes "wf_nodeid a" "wf_nodeid b"
  shows "mu_nodeid_equal a b \<longleftrightarrow> nid_key a = nid_key b \<and> identifier_type (nid_identifier a) \<le> 1"
proof (cases "namespace_index a = namespace_index b \<and> identifier_type (nid_identifier a) = identifier_type (nid_identifier b)")
  case True
  have "equal_identifier (nid_identifier a) (nid_identifier b) \<longleftrightarrow>
      compare_identifier (nid_identifier a) (nid_identifier b) = 0 \<and> identifier_type (nid_identifier a) \<le> 1"
    using True by (cases "nid_identifier a"; cases "nid_identifier b")
      (auto split: option.splits if_splits intro: signed_word_eqI)
  then show ?thesis
    using True compare_identifier_key [OF assms] by (simp add: mu_nodeid_equal_def nid_key_def)
qed (auto simp: mu_nodeid_equal_def nid_key_def word_unat_eq_iff)

section \<open>Building the index\<close>

lemma index_shift_result:
  assumes "index_shift nodes cur order p = (order', q)" "p < length order"
  shows "q \<le> p \<and> length order' = length order \<and>
    (\<forall>j < length order. order' ! j = (if q < j \<and> j \<le> p then order ! (j - 1) else order ! j)) \<and>
    (\<forall>j. q \<le> j \<and> j < p \<longrightarrow> 0 < mu_nodeid_compare_direct (node_id (nodes ! unat (order ! j))) cur) \<and>
    (0 < q \<longrightarrow> mu_nodeid_compare_direct (node_id (nodes ! unat (order ! (q - 1)))) cur \<le> 0)"
  using assms
proof (induction p arbitrary: order)
  case (Suc p)
  show ?case
  proof (cases "mu_nodeid_compare_direct (node_id (nodes ! unat (order ! p))) cur \<le> 0")
    case True
    then show ?thesis using Suc.prems by auto
  next
    case False
    let ?o = "order[Suc p := order ! p]"
    have run: "index_shift nodes cur ?o p = (order', q)" using Suc.prems(1) False by simp
    have "p < length ?o" using Suc.prems(2) by simp
    note IH = Suc.IH [OF run this]
    have nth: "?o ! j = (if j = Suc p then order ! p else order ! j)" if "j < length order" for j
      using that by simp
    have q: "q \<le> p" using IH by blast
    show ?thesis
    proof (intro conjI allI impI)
      fix j assume j: "j < length order"
      show "order' ! j = (if q < j \<and> j \<le> Suc p then order ! (j - 1) else order ! j)"
        using IH j nth q by (cases "j = Suc p") auto
    next
      fix j assume "q \<le> j \<and> j < Suc p"
      then show "0 < mu_nodeid_compare_direct (node_id (nodes ! unat (order ! j))) cur"
        using IH False nth [of j] Suc.prems(2) by (cases "j = p") auto
    next
      assume "0 < q"
      then show "mu_nodeid_compare_direct (node_id (nodes ! unat (order ! (q - 1)))) cur \<le> 0"
        using IH q Suc.prems(2) by auto
    qed (use IH q in auto)
  qed
qed auto

text \<open>One insertion puts the new entry between the entries that do not compare
  greater and those that do.\<close>

lemma index_insert_split:
  assumes run: "index_insert nodes i (order, c) = (order', c')" and c: "c < length order"
  shows "\<exists>q \<le> c. c' = c + 1 \<and> length order' = length order \<and>
    take c' order' = take q order @ [of_nat i] @ drop q (take c order) \<and>
    (\<forall>j. q \<le> j \<and> j < c \<longrightarrow> 0 < mu_nodeid_compare_direct (node_id (nodes ! unat (order ! j))) (node_id (nodes ! i))) \<and>
    (0 < q \<longrightarrow> mu_nodeid_compare_direct (node_id (nodes ! unat (order ! (q - 1)))) (node_id (nodes ! i)) \<le> 0)"
proof -
  obtain o1 q where sh: "index_shift nodes (node_id (nodes ! i)) order c = (o1, q)" by fastforce
  then have res: "order' = o1[q := of_nat i]" "c' = c + 1" using run by (simp_all add: index_insert_def)
  note S = index_shift_result [OF sh c]
  have "take c' order' = take q order @ [of_nat i] @ drop q (take c order)"
  proof (rule nth_equalityI)
    show "length (take c' order') = length (take q order @ [of_nat i] @ drop q (take c order))"
      using S res c by simp
    fix j assume "j < length (take c' order')"
    then have j: "j < length order" "j \<le> c" using S res c by simp_all
    then show "take c' order' ! j = (take q order @ [of_nat i] @ drop q (take c order)) ! j"
      using S res c by (cases "j < q"; cases "j = q") (auto simp: nth_append nth_Cons' min_def)
  qed
  then show ?thesis using S res by (intro exI [of _ q]) auto
qed

lemma sorted_insert_between:
  assumes "sorted ys" "q \<le> length ys" "0 < q \<Longrightarrow> ys ! (q - 1) \<le> k" "\<And>j. q \<le> j \<Longrightarrow> j < length ys \<Longrightarrow> k \<le> ys ! j"
  shows "sorted (take q ys @ [k] @ drop q ys)"
proof -
  have low: "y \<le> k" if "y \<in> set (take q ys)" for y
  proof -
    from that obtain j where j: "j < q" "j < length ys" "y = ys ! j" by (auto simp: in_set_conv_nth)
    then have "ys ! j \<le> ys ! (q - 1)" using assms(1,2) by (intro sorted_nth_mono) auto
    then show ?thesis using j assms(3) by auto
  qed
  have high: "k \<le> y" if "y \<in> set (drop q ys)" for y
    using that assms(2,4) by (fastforce simp: in_set_conv_nth)
  have "sorted (take q ys)" "sorted (drop q ys)" using assms(1) by (simp_all add: sorted_wrt_take sorted_wrt_drop)
  then show ?thesis using low high by (auto simp: sorted_append intro: order_trans)
qed

lemma index_insert_sorted:
  assumes inv: "index_sorted nodes order c" and run: "index_insert nodes c (order, c) = (order', c')"
    and c: "c < length order" "c < length nodes" "c < 2 ^ 16"
    and wf: "\<And>n. n \<in> set nodes \<Longrightarrow> wf_nodeid (node_id n)"
  shows "index_sorted nodes order' c' \<and> c' = c + 1 \<and> length order' = length order"
proof -
  from index_insert_split [OF run c(1)] obtain q where q: "q \<le> c" "c' = c + 1" "length order' = length order"
    and split: "take c' order' = take q order @ [of_nat c] @ drop q (take c order)"
    and hi: "\<And>j. q \<le> j \<Longrightarrow> j < c \<Longrightarrow> 0 < mu_nodeid_compare_direct (node_id (nodes ! unat (order ! j))) (node_id (nodes ! c))"
    and lo: "0 < q \<Longrightarrow> mu_nodeid_compare_direct (node_id (nodes ! unat (order ! (q - 1)))) (node_id (nodes ! c)) \<le> 0"
    by blast
  have u: "unat (of_nat c :: u16) = c" using c(3) by (intro unat_of_nat_small) simp
  have mem: "unat (order ! j) < length nodes" if "j < c" for j
  proof -
    have "unat (order ! j) \<in> set (map unat (take c order))"
      using that c(1) nth_mem [of j "take c order"] by auto
    also have "set (map unat (take c order)) = {0..<c}"
      using inv unfolding index_sorted_def by (metis set_mset_mset set_upt)
    finally show ?thesis using c(2) by simp
  qed
  let ?k = "nid_key (node_id (nodes ! c))"
  have wfj: "wf_nodeid (node_id (nodes ! unat (order ! j)))" if "j < c" for j using mem [OF that] wf by simp
  have wfc: "wf_nodeid (node_id (nodes ! c))" using c(2) wf by simp
  have "?k \<le> entry_key nodes (order ! j)" if "q \<le> j" "j < c" for j
    using hi [OF that] compare_le_key [OF wfj [OF that(2)] wfc] by (auto simp: entry_key_def)
  moreover have "entry_key nodes (order ! (q - 1)) \<le> ?k" if "0 < q"
    using lo [OF that] compare_le_key [OF wfj [of "q - 1"] wfc] that q(1) by (auto simp: entry_key_def)
  moreover have "sorted (map (entry_key nodes) (take c order))" using inv by (simp add: index_sorted_def)
  ultimately have "sorted (take q (map (entry_key nodes) (take c order)) @ [?k] @ drop q (map (entry_key nodes) (take c order)))"
    using q(1) c(1) by (intro sorted_insert_between) auto
  moreover have "map (entry_key nodes) (take c' order') =
      take q (map (entry_key nodes) (take c order)) @ [?k] @ drop q (map (entry_key nodes) (take c order))"
    unfolding split using q(1) by (simp add: take_map drop_map entry_key_def u min_def)
  moreover have "mset (map unat (take c' order')) = add_mset c (mset (map unat (take c order)))"
  proof -
    have "mset (map unat (take q order)) + mset (map unat (drop q (take c order))) = mset (map unat (take c order))"
      using q(1) by (metis append_take_drop_id map_append min.absorb1 mset_append take_take)
    then show ?thesis unfolding split by (simp add: u)
  qed
  ultimately show ?thesis using inv q by (simp add: index_sorted_def)
qed

lemma index_build_sorted:
  assumes "n \<le> length order" "n \<le> length nodes" "n \<le> 2 ^ 16"
    and wf: "\<And>m. m \<in> set nodes \<Longrightarrow> wf_nodeid (node_id m)"
  shows "\<exists>order'. fold (index_insert nodes) [0..<n] (order, 0) = (order', n) \<and>
    index_sorted nodes order' n \<and> length order' = length order"
  using assms(1,2,3)
proof (induction n)
  case 0
  then show ?case by (simp add: index_sorted_def)
next
  case (Suc n)
  then obtain o1 where o1: "fold (index_insert nodes) [0..<n] (order, 0) = (o1, n)"
    "index_sorted nodes o1 n" "length o1 = length order" by auto
  obtain o2 c2 where run: "index_insert nodes n (o1, n) = (o2, c2)" by fastforce
  have "index_sorted nodes o2 (Suc n)" "c2 = Suc n" "length o2 = length o1"
    using index_insert_sorted [OF o1(2) run _ _ _ wf] Suc.prems o1(3) by auto
  then show ?case using o1 run by simp
qed

section \<open>Look-up\<close>

lemma find_SomeD: "find P xs = Some x \<Longrightarrow> x \<in> set xs \<and> P x"
  by (induction xs) (auto split: if_splits)

declare binary_search.simps [simp del]

lemma binary_search_step:
  fixes l r :: nat
  defines "m \<equiv> l + (r - l) div 2"
  assumes "l < r" "wf_nodeid (node_id (at m))" "wf_nodeid q"
  shows "binary_search at q l r =
    (if nid_key (node_id (at m)) < nid_key q then binary_search at q (m + 1) r
     else if nid_key q < nid_key (node_id (at m)) then binary_search at q l m else Some (at m))"
proof -
  have "mu_nodeid_compare_direct (node_id (at m)) q > 0 \<longleftrightarrow> nid_key q < nid_key (node_id (at m))"
    using compare_le_key [OF assms(3,4)] by (simp flip: not_le)
  then show ?thesis
    using assms(2) compare_key(1) [OF assms(3,4)]
    by (subst binary_search.simps) (simp add: Let_def m_def)
qed

lemma binary_search_some:
  assumes "binary_search at q l r = Some n" "\<And>i. l \<le> i \<Longrightarrow> i < r \<Longrightarrow> wf_nodeid (node_id (at i))" "wf_nodeid q"
  shows "\<exists>i. l \<le> i \<and> i < r \<and> n = at i \<and> nid_key (node_id n) = nid_key q"
  using assms
proof (induction "r - l" arbitrary: l r rule: less_induct)
  case less
  show ?case
  proof (cases "l < r")
    case True
    obtain m where m: "m = l + (r - l) div 2" "l \<le> m" "m < r" using True by simp
    note step = binary_search_step [where at = at, OF True, folded m(1), OF less.prems(2) [OF m(2,3)] less.prems(3)]
    consider "nid_key (node_id (at m)) < nid_key q" | "nid_key q < nid_key (node_id (at m))"
      | "nid_key (node_id (at m)) = nid_key q" by (rule linorder_cases)
    then show ?thesis
    proof cases
      case 1
      then have hit: "binary_search at q (m + 1) r = Some n" using step less.prems(1) by simp
      obtain i where "m + 1 \<le> i \<and> i < r \<and> n = at i \<and> nid_key (node_id n) = nid_key q"
        by (rule exE, rule less.hyps [OF _ hit]) (use m(2,3) in \<open>auto intro: less.prems(2,3)\<close>)
      then show ?thesis using m(2) by (intro exI [of _ i]) auto
    next
      case 2
      then have hit: "binary_search at q l m = Some n" using step less.prems(1) less_not_sym [OF 2] by simp
      obtain i where "l \<le> i \<and> i < m \<and> n = at i \<and> nid_key (node_id n) = nid_key q"
        by (rule exE, rule less.hyps [OF _ hit]) (use m(2,3) in \<open>auto intro: less.prems(2,3)\<close>)
      then show ?thesis using m(3) by (intro exI [of _ i]) auto
    next
      case 3
      then show ?thesis using step less.prems(1) m(2,3) by auto
    qed
  qed (use less.prems(1) in \<open>simp add: binary_search.simps\<close>)
qed

lemma binary_search_none:
  assumes "binary_search at q l r = None" "\<And>i. l \<le> i \<Longrightarrow> i < r \<Longrightarrow> wf_nodeid (node_id (at i))" "wf_nodeid q"
    and "\<And>i j. l \<le> i \<Longrightarrow> i \<le> j \<Longrightarrow> j < r \<Longrightarrow> nid_key (node_id (at i)) \<le> nid_key (node_id (at j))"
    and "l \<le> i" "i < r"
  shows "nid_key (node_id (at i)) \<noteq> nid_key q"
  using assms
proof (induction "r - l" arbitrary: l r rule: less_induct)
  case less
  have lr: "l < r" using less.prems(5,6) by simp
  obtain m where m: "m = l + (r - l) div 2" "l \<le> m" "m < r" using lr by simp
  note step = binary_search_step [where at = at, OF lr, folded m(1), OF less.prems(2) [OF m(2,3)] less.prems(3)]
  consider (low) "nid_key (node_id (at m)) < nid_key q" "binary_search at q (m + 1) r = None"
    | (high) "nid_key q < nid_key (node_id (at m))" "binary_search at q l m = None"
    using step less.prems(1) by (auto split: if_splits)
  then show ?case
  proof cases
    case low
    show ?thesis
    proof (cases "i \<le> m")
      case True
      show ?thesis using less.prems(4) [OF less.prems(5) True m(3)] low(1) by auto
    next
      case False
      show ?thesis by (rule less.hyps [OF _ low(2)]) (use False less.prems(6) m(2,3) in \<open>auto intro: less.prems(2,3,4)\<close>)
    qed
  next
    case high
    show ?thesis
    proof (cases "m \<le> i")
      case True
      show ?thesis using less.prems(4) [OF m(2) True less.prems(6)] high(1) by auto
    next
      case False
      show ?thesis by (rule less.hyps [OF _ high(2)]) (use False less.prems(5) m(2,3) in \<open>auto intro: less.prems(2,3,4)\<close>)
    qed
  qed
qed

text \<open>What every look-up routine promises on the queries it supports: a result is a
  node of the space whose identifier equals the query, and no result means there
  is none.\<close>

locale node_lookup =
  fixes nodes :: "mu_node list" and lookup :: "mu_nodeid \<Rightarrow> mu_node option" and supports :: "mu_nodeid \<Rightarrow> bool"
  assumes found: "supports q \<Longrightarrow> lookup q = Some n \<Longrightarrow> n \<in> set nodes \<and> mu_nodeid_equal (node_id n) q"
    and missing: "supports q \<Longrightarrow> lookup q = None \<Longrightarrow> n \<in> set nodes \<Longrightarrow> \<not> mu_nodeid_equal (node_id n) q"
begin

lemma resolves_iff: "supports q \<Longrightarrow> (\<exists>n. lookup q = Some n) \<longleftrightarrow> (\<exists>n \<in> set nodes. mu_nodeid_equal (node_id n) q)"
  using found missing by (cases "lookup q") blast+

text \<open>On nodes without duplicate identifiers the result is determined, so any two
  implementations agree.\<close>

lemma determined:
  assumes "\<And>n m. n \<in> set nodes \<Longrightarrow> m \<in> set nodes \<Longrightarrow> mu_nodeid_equal (node_id n) q \<Longrightarrow>
      mu_nodeid_equal (node_id m) q \<Longrightarrow> n = m"
    and "supports q"
  shows "lookup q = find (\<lambda>n. mu_nodeid_equal (node_id n) q) nodes"
proof (cases "lookup q")
  case None
  then show ?thesis using missing [OF assms(2) None] by (simp add: find_None_iff2)
next
  case (Some n)
  obtain m where m: "find (\<lambda>n. mu_nodeid_equal (node_id n) q) nodes = Some m"
    using found [OF assms(2) Some] by (cases "find (\<lambda>n. mu_nodeid_equal (node_id n) q) nodes") (auto simp: find_None_iff)
  then have "m \<in> set nodes" "mu_nodeid_equal (node_id m) q" by (auto simp: find_Some_iff)
  then show ?thesis using assms(1) found [OF assms(2) Some] Some m by fastforce
qed

end

lemma space_wfE:
  assumes "space_wf space"
  obtains ns where "as_nodes space = Some ns" "node_count space \<le> length ns" "\<And>n. n \<in> set ns \<Longrightarrow> wf_nodeid (node_id n)"
    "space_nodes space = take (node_count space) ns"
  using assms by (auto simp: space_wf_def space_nodes_def list_all_iff split: option.splits)

lemma in_space_nodes: "space_wf space \<Longrightarrow> n \<in> set (space_nodes space) \<Longrightarrow> wf_nodeid (node_id n)"
  by (elim space_wfE) (auto dest: in_set_takeD)

lemma supported_equal:
  "wf_nodeid a \<Longrightarrow> supported_nodeid q \<Longrightarrow> mu_nodeid_equal a q \<longleftrightarrow> nid_key a = nid_key q"
  by (auto simp: equal_key supported_nodeid_def nid_key_def)

lemma index_covers_positions:
  assumes "index_covers space ix" "space_wf space"
  shows "set (map (\<lambda>i. the (as_nodes space) ! unat (ix_order ix ! i)) [0..<ix_count ix]) = set (space_nodes space)"
    "i < ix_count ix \<Longrightarrow> unat (ix_order ix ! i) < ix_count ix"
    "i \<le> j \<Longrightarrow> j < ix_count ix \<Longrightarrow> entry_key (the (as_nodes space)) (ix_order ix ! i) \<le> entry_key (the (as_nodes space)) (ix_order ix ! j)"
proof -
  obtain ns where ns: "as_nodes space = Some ns" "node_count space \<le> length ns" "space_nodes space = take (node_count space) ns"
    using assms(2) by (rule space_wfE)
  let ?c = "ix_count ix" and ?us = "map unat (take (ix_count ix) (ix_order ix))"
  have ix: "?c = node_count space" "?c \<le> length (ix_order ix)" "mset ?us = mset [0..<?c]"
    "sorted (map (entry_key ns) (take ?c (ix_order ix)))"
    using assms(1) ns(1) unfolding index_covers_def index_sorted_def by (metis option.sel)+
  have us: "set ?us = {0..<?c}" using ix(3) by (metis set_mset_mset set_upt)
  have "map (\<lambda>i. ns ! unat (ix_order ix ! i)) [0..<?c] = map ((!) ns) ?us"
    using ix(2) by (auto intro: nth_equalityI)
  moreover have "set (map ((!) ns) ?us) = set (take ?c ns)"
    unfolding set_map [of "(!) ns"] us using ns(2) ix(1) by (simp add: nth_image)
  ultimately show "set (map (\<lambda>i. the (as_nodes space) ! unat (ix_order ix ! i)) [0..<?c]) = set (space_nodes space)"
    using ns ix(1) by simp
  show "unat (ix_order ix ! i) < ?c" if "i < ?c"
  proof -
    have "?us ! i \<in> set ?us" using that ix(2) by (intro nth_mem) simp
    then show ?thesis using us that ix(2) by simp
  qed
  show "entry_key (the (as_nodes space)) (ix_order ix ! i) \<le> entry_key (the (as_nodes space)) (ix_order ix ! j)"
    if "i \<le> j" "j < ?c"
    using sorted_nth_mono [OF ix(4) that(1)] that ix(2) ns(1) by simp
qed

interpretation linear: node_lookup "space_nodes space" "mu_address_space_find_node_linear space" "\<lambda>q. space_wf space"
  for space
  by unfold_locales
    (auto simp: mu_address_space_find_node_linear_def find_None_iff space_nodes_def space_wf_def
      split: option.splits dest: find_SomeD)

interpretation indexed: node_lookup "space_nodes space" "mu_address_space_find_node_indexed space ix"
    "\<lambda>q. space_wf space \<and> index_covers space ix \<and> supported_nodeid q" for space ix
proof unfold_locales
  let ?at = "\<lambda>mid. the (as_nodes space) ! unat (ix_order ix ! mid)"
  have wf: "wf_nodeid (node_id (?at i))" and mem: "?at i \<in> set (space_nodes space)"
    if "space_wf space" "index_covers space ix" "i < ix_count ix" for i
  proof -
    show "?at i \<in> set (space_nodes space)"
      using index_covers_positions(1) [OF that(2,1)] that(3) by auto
    then show "wf_nodeid (node_id (?at i))" by (rule in_space_nodes [OF that(1)])
  qed
  show "n \<in> set (space_nodes space) \<and> mu_nodeid_equal (node_id n) q"
    if ok: "space_wf space \<and> index_covers space ix \<and> supported_nodeid q"
      and hit: "mu_address_space_find_node_indexed space ix q = Some n" for q n
  proof -
    from ok have q: "wf_nodeid q" by (simp add: supported_nodeid_def)
    from binary_search_some [OF hit [unfolded mu_address_space_find_node_indexed_def] _ q] wf ok
    obtain i where i: "i < ix_count ix" "n = ?at i" "nid_key (node_id n) = nid_key q" by blast
    then show ?thesis using mem [of i] wf [of i] ok supported_equal by simp
  qed
  show "\<not> mu_nodeid_equal (node_id n) q"
    if ok: "space_wf space \<and> index_covers space ix \<and> supported_nodeid q"
      and miss: "mu_address_space_find_node_indexed space ix q = None" and n: "n \<in> set (space_nodes space)" for q n
  proof -
    from ok have q: "wf_nodeid q" by (simp add: supported_nodeid_def)
    have "n \<in> set (map ?at [0..<ix_count ix])" using n index_covers_positions(1) [of space ix] ok by blast
    then obtain i where i: "i < ix_count ix" "n = ?at i" by auto
    have "nid_key (node_id (?at i)) \<noteq> nid_key q"
      by (rule binary_search_none [OF miss [unfolded mu_address_space_find_node_indexed_def] _ q _ _ i(1)])
        (use wf ok index_covers_positions(3) [of space ix] in \<open>simp_all add: entry_key_def\<close>)
    then show ?thesis using supported_equal [OF wf [OF _ _ i(1)]] ok i(2) by simp
  qed
qed

interpretation direct: node_lookup "space_nodes space" "mu_address_space_find_node_binary_direct space"
    "\<lambda>q. space_wf space \<and> sorted (map (\<lambda>n. nid_key (node_id n)) (space_nodes space)) \<and> supported_nodeid q" for space
proof unfold_locales
  let ?at = "\<lambda>mid. the (as_nodes space) ! mid"
  have at: "i < length (space_nodes space) \<and> ?at i = space_nodes space ! i" if "space_wf space" "i < node_count space" for i
    using that by (elim space_wfE) auto
  have len: "length (space_nodes space) = node_count space" if "space_wf space"
    using that by (elim space_wfE) auto
  have wf: "wf_nodeid (node_id (?at i))" if "space_wf space" "i < node_count space" for i
    using in_space_nodes [OF that(1)] at [OF that] by (metis nth_mem)
  show "n \<in> set (space_nodes space) \<and> mu_nodeid_equal (node_id n) q"
    if ok: "space_wf space \<and> sorted (map (\<lambda>n. nid_key (node_id n)) (space_nodes space)) \<and> supported_nodeid q"
      and hit: "mu_address_space_find_node_binary_direct space q = Some n" for q n
  proof -
    from ok have q: "wf_nodeid q" by (simp add: supported_nodeid_def)
    from binary_search_some [OF hit [unfolded mu_address_space_find_node_binary_direct_def] _ q] wf ok
    obtain i where i: "i < node_count space" "n = ?at i" "nid_key (node_id n) = nid_key q" by blast
    then show ?thesis using at [of i] wf [of i] ok supported_equal by (metis nth_mem)
  qed
  show "\<not> mu_nodeid_equal (node_id n) q"
    if ok: "space_wf space \<and> sorted (map (\<lambda>n. nid_key (node_id n)) (space_nodes space)) \<and> supported_nodeid q"
      and miss: "mu_address_space_find_node_binary_direct space q = None" and n: "n \<in> set (space_nodes space)" for q n
  proof -
    from ok have q: "wf_nodeid q" by (simp add: supported_nodeid_def)
    obtain i where i: "i < node_count space" "n = space_nodes space ! i"
      using n len ok by (metis in_set_conv_nth)
    have mono: "nid_key (node_id (?at i)) \<le> nid_key (node_id (?at j))" if "i \<le> j" "j < node_count space" for i j
      using sorted_nth_mono [of "map (\<lambda>n. nid_key (node_id n)) (space_nodes space)" i j] that ok at [of i] at [of j]
      by simp
    have "nid_key (node_id (?at i)) \<noteq> nid_key q"
      by (rule binary_search_none [OF miss [unfolded mu_address_space_find_node_binary_direct_def] _ q _ _ i(1)])
        (use wf ok mono in simp_all)
    then show ?thesis using supported_equal [OF wf [OF _ i(1)]] ok i at [of i] by simp
  qed
qed

lemma rebuild_index_ok:
  assumes "space_wf space" "length (ix_order ix) = MU_MAX_ADDRESS_SPACE_NODES"
  shows "index_ok addr space (mu_address_space_rebuild_index addr space ix) \<and>
    built_for (mu_address_space_rebuild_index addr space ix) = Some addr \<and>
    built_count (mu_address_space_rebuild_index addr space ix) = node_count space"
proof (cases "MU_MAX_ADDRESS_SPACE_NODES < node_count space \<or> 0xFFFF < node_count space")
  case True
  then show ?thesis using assms(2) by (simp add: mu_address_space_rebuild_index_def index_ok_def Let_def)
next
  case False
  obtain ns where ns: "as_nodes space = Some ns" "node_count space \<le> length ns" "\<And>n. n \<in> set ns \<Longrightarrow> wf_nodeid (node_id n)"
    using assms(1) by (rule space_wfE) blast
  obtain order' where "fold (index_insert ns) [0..<node_count space] (ix_order ix, 0) = (order', node_count space)"
      "index_sorted ns order' (node_count space)" "length order' = length (ix_order ix)"
    using index_build_sorted [of "node_count space" "ix_order ix" ns] ns False assms(2) by auto
  then show ?thesis using False assms(2) ns(1)
    by (simp add: mu_address_space_rebuild_index_def index_ok_def index_covers_def Let_def)
qed

lemma no_duplicate_unique:
  assumes "\<not> has_duplicate ns" "\<And>n. n \<in> set ns \<Longrightarrow> wf_nodeid (node_id n)"
    and "n \<in> set ns" "m \<in> set ns" "mu_nodeid_equal (node_id n) (node_id m)"
  shows "n = m"
  using assms
proof (induction ns)
  case (Cons a ns)
  have "mu_nodeid_equal (node_id x) (node_id y) \<longleftrightarrow> mu_nodeid_equal (node_id y) (node_id x)"
    if "x \<in> set (a # ns)" "y \<in> set (a # ns)" for x y
    using equal_key Cons.prems(2) that by (auto simp: nid_key_def)
  then show ?case using Cons by (auto simp: list_ex_iff)
qed simp

lemma equal_same_query:
  assumes "wf_nodeid a" "wf_nodeid b" "wf_nodeid q" "mu_nodeid_equal a q" "mu_nodeid_equal b q"
  shows "mu_nodeid_equal a b"
  using assms equal_key by auto

lemma unique_hit:
  assumes "space_wf space" "\<not> has_duplicate (space_nodes space)" "wf_nodeid q"
    "n \<in> set (space_nodes space)" "m \<in> set (space_nodes space)"
    "mu_nodeid_equal (node_id n) q" "mu_nodeid_equal (node_id m) q"
  shows "n = m"
  using assms(2) _ assms(4,5)
  by (rule no_duplicate_unique)
    (use assms in_space_nodes equal_same_query in blast)+

lemma validate_no_duplicates:
  "mu_address_space_validate base addr space = MU_STATUS_GOOD \<Longrightarrow> \<not> has_duplicate (space_nodes space)"
  by (auto simp: mu_address_space_validate_def space_nodes_def Let_def split: if_splits)

text \<open>On a validated address space the look-up through the sorted index gives
  exactly the node that the linear search over the table gives, for every numeric
  and string identifier, whether the index is fresh, stale or too small to hold the
  table; and the index it leaves is again one of which this holds.\<close>

theorem find_node_indexed_equiv:
  assumes "mu_address_space_validate base addr space = MU_STATUS_GOOD" "space_wf space"
    and "index_ok addr space ix" "supported_nodeid q"
  shows "\<exists>ix'. mu_address_space_find_node base addr space (Some ix) q =
      (mu_address_space_find_node_linear space q, Some ix') \<and> index_ok addr space ix'"
proof -
  let ?ix = "if built_for ix \<noteq> Some addr \<or> built_count ix \<noteq> node_count space
    then mu_address_space_rebuild_index addr space ix else ix"
  have ok: "index_ok addr space ?ix" "built_for ?ix = Some addr" "built_count ?ix = node_count space"
    using rebuild_index_ok [OF assms(2), of ix addr] assms(3) by (auto simp: index_ok_def)
  have q: "wf_nodeid q" using assms(4) by (simp add: supported_nodeid_def)
  note unique = unique_hit [OF assms(2) validate_no_duplicates [OF assms(1)] q]
  have "mu_address_space_find_node_indexed space ?ix q = mu_address_space_find_node_linear space q" if "ix_indexed ?ix"
    using indexed.determined [of space q ?ix] linear.determined [of space q] unique assms(2,4) ok that
    by (simp add: index_ok_def)
  moreover obtain ns where "as_nodes space = Some ns" using assms(2) by (rule space_wfE)
  ultimately show ?thesis using ok(1) by (auto simp: mu_address_space_find_node_def Let_def)
qed

theorem find_node_indexed_equiv_witness:
  "\<exists>ix'. mu_address_space_find_node 0 1 sample_space (Some fresh_index) \<lparr>namespace_index = 1, nid_identifier = NumericId 5\<rparr> =
      (Some (sample_node 5), Some ix') \<and> index_ok 1 sample_space ix'"
proof -
  let ?q = "\<lparr>namespace_index = 1, nid_identifier = NumericId 5\<rparr> :: mu_nodeid"
  have "mu_address_space_validate 0 1 sample_space = MU_STATUS_GOOD" by code_simp
  moreover have "space_wf sample_space" by code_simp
  moreover have "index_ok 1 sample_space fresh_index" by code_simp
  moreover have "supported_nodeid ?q" by code_simp
  moreover have "mu_address_space_find_node_linear sample_space ?q = Some (sample_node 5)" by code_simp
  ultimately show ?thesis using find_node_indexed_equiv [of 0 1 sample_space fresh_index ?q] by simp
qed

text \<open>The built-in table is searched without an index.  On a table in ascending
  identifier order without duplicates that direct binary search gives the result of
  the linear search.\<close>

theorem find_node_direct_equiv:
  assumes "space_wf space" "sorted (map (\<lambda>n. nid_key (node_id n)) (space_nodes space))"
    and "\<not> has_duplicate (space_nodes space)" "supported_nodeid q"
  shows "mu_address_space_find_node base base space None q = (mu_address_space_find_node_linear space q, None)"
proof -
  have q: "wf_nodeid q" using assms(4) by (simp add: supported_nodeid_def)
  note unique = unique_hit [OF assms(1,3) q]
  have "mu_address_space_find_node_binary_direct space q = mu_address_space_find_node_linear space q"
    using direct.determined [of space q] linear.determined [of space q] unique assms(1,2,4) by simp
  moreover obtain ns where "as_nodes space = Some ns" using assms(1) by (rule space_wfE)
  ultimately show ?thesis by (simp add: mu_address_space_find_node_def)
qed

theorem find_node_direct_equiv_witness:
  "mu_address_space_find_node 4 4 \<lparr>as_nodes = Some [sample_node 3, sample_node 5], node_count = 2\<rparr> None
     \<lparr>namespace_index = 1, nid_identifier = NumericId 5\<rparr> = (Some (sample_node 5), None)"
proof -
  let ?q = "\<lparr>namespace_index = 1, nid_identifier = NumericId 5\<rparr> :: mu_nodeid"
  let ?s = "\<lparr>as_nodes = Some [sample_node 3, sample_node 5], node_count = 2\<rparr> :: mu_address_space"
  have "space_wf ?s" by code_simp
  moreover have "sorted (map (\<lambda>n. nid_key (node_id n)) (space_nodes ?s))" by code_simp
  moreover have "\<not> has_duplicate (space_nodes ?s)" by code_simp
  moreover have "supported_nodeid ?q" by code_simp
  moreover have "mu_address_space_find_node_linear ?s ?q = Some (sample_node 5)" by code_simp
  ultimately show ?thesis using find_node_direct_equiv [of ?s ?q 4] by simp
qed

lemma has_duplicate_iff:
  "has_duplicate ns \<longleftrightarrow> \<not> sorted_wrt (\<lambda>n m. \<not> mu_nodeid_equal (node_id n) (node_id m)) ns"
  by (induction ns) (auto simp: list_ex_iff)

text \<open>C10: validation accepts a table exactly when no two of its nodes have the same
  identifier and every reference of every node names a node of the table.\<close>

theorem address_space_validate_iff:
  assumes "space_wf space" "addr \<noteq> base"
  shows "mu_address_space_validate base addr space = MU_STATUS_GOOD \<longleftrightarrow>
    (\<forall>i j. i < j \<and> j < node_count space \<longrightarrow>
        \<not> mu_nodeid_equal (node_id (space_nodes space ! i)) (node_id (space_nodes space ! j))) \<and>
    (\<forall>n \<in> set (space_nodes space). references_resolve (space_nodes space) n)"
proof -
  obtain ns where ns: "as_nodes space = Some ns" "node_count space \<le> length ns" "space_nodes space = take (node_count space) ns"
    using assms(1) by (rule space_wfE) blast
  have hit: "fst (mu_address_space_find_node base addr space None t) = None \<longleftrightarrow>
      \<not> (\<exists>m \<in> set (space_nodes space). mu_nodeid_equal (node_id m) t)" for t
    using linear.resolves_iff [of space t] assms ns(1)
    by (cases "mu_address_space_find_node_linear space t") (simp_all add: mu_address_space_find_node_def)
  have dup: "has_duplicate (space_nodes space) \<longleftrightarrow> \<not> (\<forall>i j. i < j \<and> j < node_count space \<longrightarrow>
        \<not> mu_nodeid_equal (node_id (space_nodes space ! i)) (node_id (space_nodes space ! j)))"
    using ns(2,3) by (auto simp: has_duplicate_iff sorted_wrt_iff_nth_less)
  have bad: "(0 < reference_count n \<and> node_references n = None) \<or>
      (\<exists>r \<in> set (take (reference_count n) (case node_references n of None \<Rightarrow> [] | Some rs \<Rightarrow> rs)).
         fst (mu_address_space_find_node base addr space None (target_id r)) = None) \<longleftrightarrow>
      \<not> references_resolve (space_nodes space) n" for n
    unfolding hit references_resolve_def by (simp only: de_Morgan_conj not_imp Set.ball_simps not_not)
  show ?thesis
    unfolding mu_address_space_validate_def bad using ns(1)
    by (simp add: Let_def list_ex_iff ns(3) [symmetric] dup)
qed

theorem address_space_validate_iff_witness:
  "mu_address_space_validate 0 1 sample_space = MU_STATUS_GOOD \<and>
   \<not> mu_nodeid_equal (node_id (sample_node 7)) (node_id (sample_node 5))"
proof -
  have "space_wf sample_space" "mu_address_space_validate 0 1 sample_space = MU_STATUS_GOOD" by code_simp+
  moreover have "space_nodes sample_space ! 0 = sample_node 7" "space_nodes sample_space ! 2 = sample_node 5"
    "node_count sample_space = 3"
    by (simp_all add: space_nodes_def sample_space_def)
  moreover have "\<not> mu_nodeid_equal (node_id (space_nodes sample_space ! 0)) (node_id (space_nodes sample_space ! 2))"
    using iffD1 [OF address_space_validate_iff [of sample_space 1 0], THEN conjunct1, rule_format, of 0 2] calculation by simp
  ultimately show ?thesis by simp
qed

lemma indexed_guid_confused:
  "\<not> Option.is_none (fst (mu_address_space_find_node 0 1 guid_space (Some fresh_index)
      \<lparr>namespace_index = 1, nid_identifier = GuidId\<rparr>))"
  "\<not> mu_nodeid_equal \<lparr>namespace_index = 1, nid_identifier = GuidId\<rparr> \<lparr>namespace_index = 1, nid_identifier = GuidId\<rparr>"
  by (simp add: mu_address_space_find_node_def mu_address_space_rebuild_index_def Let_def guid_space_def fresh_index_def
      index_insert_def MU_MAX_ADDRESS_SPACE_NODES_def mu_address_space_find_node_indexed_def sample_node_def,
      subst binary_search.simps, simp add: mu_nodeid_compare_direct_def)
     (simp add: mu_nodeid_equal_def)

end
