(* ===== verification/Security_Policy.thy ===== *)
theory Security_Policy
  imports Address_Space
begin

text \<open>
  The security policy table of \<^verbatim>\<open>src/security/security_policy.c\<close> and the trust
  list of \<^verbatim>\<open>src/security/trustlist.c\<close>, for a build with security enabled.  The
  lemmas show that the policy identifiers and their URIs are in one-to-one
  correspondence and that only exactly listed certificates are trusted.
\<close>

section \<open>Policies and modes\<close>

datatype mu_security_policy_id =
    MU_SECURITY_POLICY_INVALID_ID
  | MU_SECURITY_POLICY_NONE_ID
  | MU_SECURITY_POLICY_BASIC256SHA256_ID
  | MU_SECURITY_POLICY_AES128_SHA256_RSAOAEP_ID
  | MU_SECURITY_POLICY_AES256_SHA256_RSAPSS_ID

text \<open>The mode is an \<^verbatim>\<open>enum\<close> that the code fills from the wire without a check, so
  every 32-bit value can occur.\<close>

type_synonym mu_message_security_mode = u32

abbreviation MU_MESSAGE_SECURITY_MODE_NONE :: mu_message_security_mode where "MU_MESSAGE_SECURITY_MODE_NONE \<equiv> 1"
abbreviation MU_MESSAGE_SECURITY_MODE_SIGN :: mu_message_security_mode where "MU_MESSAGE_SECURITY_MODE_SIGN \<equiv> 2"
abbreviation MU_MESSAGE_SECURITY_MODE_SIGN_AND_ENCRYPT :: mu_message_security_mode where
  "MU_MESSAGE_SECURITY_MODE_SIGN_AND_ENCRYPT \<equiv> 3"

definition ascii :: "string \<Rightarrow> byte list" where
  "ascii s = map of_char s"

record mu_security_policy_params =
  pp_id :: mu_security_policy_id
  pp_uri :: "byte list"
  pp_sig_key_len :: nat
  pp_enc_key_len :: nat
  pp_block_size :: nat
  pp_sig_len :: nat
  pp_nonce_len :: nat
  pp_allows_username :: bool

definition POLICY_TABLE :: "mu_security_policy_params list" where
  "POLICY_TABLE = [
     \<lparr>pp_id = MU_SECURITY_POLICY_NONE_ID, pp_uri = ascii ''http://opcfoundation.org/UA/SecurityPolicy#None'',
      pp_sig_key_len = 0, pp_enc_key_len = 0, pp_block_size = 0, pp_sig_len = 0, pp_nonce_len = 0, pp_allows_username = False\<rparr>,
     \<lparr>pp_id = MU_SECURITY_POLICY_BASIC256SHA256_ID, pp_uri = ascii ''http://opcfoundation.org/UA/SecurityPolicy#Basic256Sha256'',
      pp_sig_key_len = 32, pp_enc_key_len = 32, pp_block_size = 16, pp_sig_len = 32, pp_nonce_len = 32, pp_allows_username = True\<rparr>,
     \<lparr>pp_id = MU_SECURITY_POLICY_AES128_SHA256_RSAOAEP_ID, pp_uri = ascii ''http://opcfoundation.org/UA/SecurityPolicy#Aes128_Sha256_RsaOaep'',
      pp_sig_key_len = 32, pp_enc_key_len = 16, pp_block_size = 16, pp_sig_len = 32, pp_nonce_len = 32, pp_allows_username = True\<rparr>,
     \<lparr>pp_id = MU_SECURITY_POLICY_AES256_SHA256_RSAPSS_ID, pp_uri = ascii ''http://opcfoundation.org/UA/SecurityPolicy#Aes256_Sha256_RsaPss'',
      pp_sig_key_len = 32, pp_enc_key_len = 32, pp_block_size = 16, pp_sig_len = 32, pp_nonce_len = 32, pp_allows_username = True\<rparr>]"

definition policy_row :: "mu_security_policy_id \<Rightarrow> mu_security_policy_params option" where
  "policy_row i = find (\<lambda>row. pp_id row = i) POLICY_TABLE"

definition uri_equals :: "byte list \<Rightarrow> nat \<Rightarrow> byte list \<Rightarrow> bool" where
  "uri_equals uri len expected \<longleftrightarrow> len = length expected \<and> memcmp (take len uri) expected = 0"

definition mu_security_policy_from_uri :: "byte list option \<Rightarrow> nat \<Rightarrow> mu_security_policy_id" where
  "mu_security_policy_from_uri uri len =
    (if uri = None \<or> len = 0 then MU_SECURITY_POLICY_NONE_ID
     else case find (\<lambda>row. uri_equals (the uri) len (pp_uri row)) POLICY_TABLE of
         Some row \<Rightarrow> pp_id row
       | None \<Rightarrow> MU_SECURITY_POLICY_INVALID_ID)"

definition mu_security_policy_uri :: "mu_security_policy_id \<Rightarrow> byte list option" where
  "mu_security_policy_uri i = map_option pp_uri (policy_row i)"

definition mu_security_policy_signature_key_length :: "mu_security_policy_id \<Rightarrow> nat" where
  "mu_security_policy_signature_key_length p = (case policy_row p of Some row \<Rightarrow> pp_sig_key_len row | None \<Rightarrow> 0)"

definition mu_security_policy_allows_username_password_tokens :: "mu_security_policy_id \<Rightarrow> bool" where
  "mu_security_policy_allows_username_password_tokens p =
     (case policy_row p of Some row \<Rightarrow> pp_allows_username row | None \<Rightarrow> False)"

definition mu_security_policy_encryption_key_length :: "mu_security_policy_id \<Rightarrow> nat" where
  "mu_security_policy_encryption_key_length p = (case policy_row p of Some row \<Rightarrow> pp_enc_key_len row | None \<Rightarrow> 0)"

definition mu_security_policy_encryption_block_size :: "mu_security_policy_id \<Rightarrow> nat" where
  "mu_security_policy_encryption_block_size p = (case policy_row p of Some row \<Rightarrow> pp_block_size row | None \<Rightarrow> 0)"

definition mu_security_policy_signature_length :: "mu_security_policy_id \<Rightarrow> nat" where
  "mu_security_policy_signature_length p = (case policy_row p of Some row \<Rightarrow> pp_sig_len row | None \<Rightarrow> 0)"

definition mu_security_policy_nonce_length :: "mu_security_policy_id \<Rightarrow> nat" where
  "mu_security_policy_nonce_length p = (case policy_row p of Some row \<Rightarrow> pp_nonce_len row | None \<Rightarrow> 0)"

fun mu_security_policy_asym_signature_uri :: "mu_security_policy_id \<Rightarrow> byte list option" where
  "mu_security_policy_asym_signature_uri MU_SECURITY_POLICY_BASIC256SHA256_ID =
     Some (ascii ''http://www.w3.org/2001/04/xmldsig-more#rsa-sha256'')"
| "mu_security_policy_asym_signature_uri MU_SECURITY_POLICY_AES128_SHA256_RSAOAEP_ID =
     Some (ascii ''http://www.w3.org/2001/04/xmldsig-more#rsa-sha256'')"
| "mu_security_policy_asym_signature_uri MU_SECURITY_POLICY_AES256_SHA256_RSAPSS_ID =
     Some (ascii ''http://opcfoundation.org/UA/security/rsa-pss-sha2-256'')"
| "mu_security_policy_asym_signature_uri _ = None"

definition mu_security_policy_uses_pss :: "mu_security_policy_id \<Rightarrow> bool" where
  "mu_security_policy_uses_pss p \<longleftrightarrow> p = MU_SECURITY_POLICY_AES256_SHA256_RSAPSS_ID"

section \<open>Trust list\<close>

text \<open>The parallel arrays \<^verbatim>\<open>certificates\<close> and \<^verbatim>\<open>lengths\<close> are a list of pairs.\<close>

type_synonym mu_trust_list = "(byte list \<times> nat) list"

definition mu_trust_list_match :: "mu_trust_list option \<Rightarrow> byte list option \<Rightarrow> nat \<Rightarrow> statuscode" where
  "mu_trust_list_match trust_list cert_data cert_length =
    (if trust_list = None \<or> trust_list = Some [] then MU_STATUS_BAD_SECURITYCHECKSFAILED
     else if cert_data = None \<or> cert_length = 0 then MU_STATUS_BAD_SECURITYCHECKSFAILED
     else if list_ex (\<lambda>(cert, len). len = cert_length \<and>
                memcmp (take cert_length cert) (take cert_length (the cert_data)) = 0) (the trust_list)
     then MU_STATUS_GOOD
     else MU_STATUS_BAD_SECURITYCHECKSFAILED)"

section \<open>Lemmas\<close>

lemma memcmp_zero_iff: "length xs = length ys \<Longrightarrow> memcmp xs ys = 0 \<longleftrightarrow> xs = ys"
  using memcmp_sign [of xs ys] by (auto simp: word_unat_eq_iff list_eq_iff_nth_eq)

lemma policy_lengths [simp]:
  "mu_security_policy_signature_key_length MU_SECURITY_POLICY_BASIC256SHA256_ID = 32"
  "mu_security_policy_signature_key_length MU_SECURITY_POLICY_AES128_SHA256_RSAOAEP_ID = 32"
  "mu_security_policy_signature_key_length MU_SECURITY_POLICY_AES256_SHA256_RSAPSS_ID = 32"
  "mu_security_policy_encryption_key_length MU_SECURITY_POLICY_BASIC256SHA256_ID = 32"
  "mu_security_policy_encryption_key_length MU_SECURITY_POLICY_AES128_SHA256_RSAOAEP_ID = 16"
  "mu_security_policy_encryption_key_length MU_SECURITY_POLICY_AES256_SHA256_RSAPSS_ID = 32"
  "mu_security_policy_encryption_block_size MU_SECURITY_POLICY_BASIC256SHA256_ID = 16"
  "mu_security_policy_encryption_block_size MU_SECURITY_POLICY_AES128_SHA256_RSAOAEP_ID = 16"
  "mu_security_policy_encryption_block_size MU_SECURITY_POLICY_AES256_SHA256_RSAPSS_ID = 16"
  by (simp_all add: mu_security_policy_signature_key_length_def mu_security_policy_encryption_key_length_def
      mu_security_policy_encryption_block_size_def policy_row_def POLICY_TABLE_def)

text \<open>The key material of a policy fits the arrays that receive it.\<close>

lemma policy_lengths_bounded:
  "mu_security_policy_signature_key_length p \<le> 32"
  "mu_security_policy_encryption_key_length p \<le> 32"
  "mu_security_policy_encryption_block_size p \<le> 16"
  by (simp_all add: mu_security_policy_signature_key_length_def mu_security_policy_encryption_key_length_def
      mu_security_policy_encryption_block_size_def policy_row_def POLICY_TABLE_def)

lemma find_uri: "find (\<lambda>row. uri_equals u (length u) (pp_uri row)) POLICY_TABLE = find (\<lambda>row. pp_uri row = u) POLICY_TABLE"
proof -
  have "uri_equals u (length u) e \<longleftrightarrow> e = u" for e
    using memcmp_zero_iff [of u e] by (auto simp: uri_equals_def)
  then show ?thesis by simp
qed

lemma find_distinct:
  "distinct (map f xs) \<Longrightarrow> find (\<lambda>x. f x = k) xs = Some x \<longleftrightarrow> x \<in> set xs \<and> f x = k"
  by (induction xs) (auto simp: image_iff)

lemma policy_table_keys:
  "distinct (map pp_uri POLICY_TABLE)" "distinct (map pp_id POLICY_TABLE)"
  "\<forall>row \<in> set POLICY_TABLE. pp_id row \<noteq> MU_SECURITY_POLICY_INVALID_ID"
  by (simp_all add: POLICY_TABLE_def ascii_def)

text \<open>Policies and URIs correspond one to one: the URI of every real policy is
  classified as that policy, and whatever non-empty URI is classified as a real policy
  is the URI of that policy, so an unknown URI is never taken for a known policy.\<close>

lemma policy_uri_roundtrip:
  assumes "u \<noteq> []" "p \<noteq> MU_SECURITY_POLICY_INVALID_ID"
  shows "mu_security_policy_from_uri (Some u) (length u) = p \<longleftrightarrow> mu_security_policy_uri p = Some u"
proof -
  have "mu_security_policy_from_uri (Some u) (length u) = p \<longleftrightarrow> (\<exists>row. find (\<lambda>row. pp_uri row = u) POLICY_TABLE = Some row \<and> pp_id row = p)"
    using assms by (auto simp: mu_security_policy_from_uri_def find_uri split: option.splits)
  also have "\<dots> \<longleftrightarrow> (\<exists>row. find (\<lambda>row. pp_id row = p) POLICY_TABLE = Some row \<and> pp_uri row = u)"
    using find_distinct [OF policy_table_keys(1), of u] find_distinct [OF policy_table_keys(2), of p] by auto
  finally show ?thesis by (auto simp: mu_security_policy_uri_def policy_row_def)
qed

lemma trust_list_match_iff:
  assumes "\<forall>(c, n) \<in> set trusted. n \<le> length c" "n \<le> length cert"
  shows "mu_trust_list_match (Some trusted) (Some cert) n = MU_STATUS_GOOD \<longleftrightarrow>
    n \<noteq> 0 \<and> (\<exists>(c, m) \<in> set trusted. m = n \<and> take n c = take n cert)"
proof -
  have "memcmp (take n c) (take n cert) = 0 \<longleftrightarrow> take n c = take n cert" if "(c, n) \<in> set trusted" for c
    using assms that by (intro memcmp_zero_iff) auto
  then have "(\<exists>x \<in> set trusted. case x of (c, m) \<Rightarrow> m = n \<and> memcmp (take n c) (take n cert) = 0) \<longleftrightarrow>
      (\<exists>(c, m) \<in> set trusted. m = n \<and> take n c = take n cert)"
    by (intro bex_cong) auto
  then show ?thesis by (auto simp: mu_trust_list_match_def list_ex_iff)
qed

end
