(* ===== verification/Sym_Chunk.thy ===== *)
theory Sym_Chunk
  imports Security_Policy Chunk_Framing
begin

text \<open>
  Key derivation (\<^verbatim>\<open>src/security/key_derivation.c\<close>) and the protection of MSG and CLO
  chunks (\<^verbatim>\<open>src/security/sym_chunk.c\<close>).

  The cryptographic primitives are the callbacks of \<^verbatim>\<open>mu_crypto_adapter_t\<close>, here a
  record of functions that every definition takes as its argument.  A callback that the
  code tests against \<^verbatim>\<open>NULL\<close> is an option; one that it calls without a test is a total
  field.  A callback that fills a caller's buffer gets the capacity as its last argument.
  The documented behaviour that the round trip relies on (a MAC has 32 bytes,
  CBC keeps the length and decryption inverts encryption) is the predicate
  \<open>crypto_laws\<close>.
\<close>

section \<open>The crypto adapter\<close>

record mu_crypto_adapter =
  hmac_sha256 :: "byte list \<Rightarrow> byte list \<Rightarrow> statuscode + byte list"
  aes256_cbc_encrypt :: "byte list \<Rightarrow> byte list \<Rightarrow> byte list \<Rightarrow> statuscode + byte list"
  aes256_cbc_decrypt :: "byte list \<Rightarrow> byte list \<Rightarrow> byte list \<Rightarrow> statuscode + byte list"
  aes128_cbc_encrypt :: "(byte list \<Rightarrow> byte list \<Rightarrow> byte list \<Rightarrow> statuscode + byte list) option"
  aes128_cbc_decrypt :: "(byte list \<Rightarrow> byte list \<Rightarrow> byte list \<Rightarrow> statuscode + byte list) option"
  cipher_ctx_init :: "(byte list \<Rightarrow> statuscode + byte list) option"
  aes256_cbc_encrypt_ctx :: "(byte list \<Rightarrow> byte list \<Rightarrow> byte list \<Rightarrow> statuscode + byte list) option"
  aes256_cbc_decrypt_ctx :: "(byte list \<Rightarrow> byte list \<Rightarrow> byte list \<Rightarrow> statuscode + byte list) option"
  rsa_sha256_sign :: "(byte list \<Rightarrow> nat \<Rightarrow> statuscode + byte list) option"
  rsa_sha256_verify :: "(byte list \<Rightarrow> byte list \<Rightarrow> byte list \<Rightarrow> statuscode) option"
  rsa_oaep_decrypt :: "(byte list \<Rightarrow> nat \<Rightarrow> statuscode + byte list) option"
  rsa_oaep_encrypt :: "byte list \<Rightarrow> byte list \<Rightarrow> nat \<Rightarrow> statuscode + byte list"
  rsa_pss_sha256_sign :: "(byte list \<Rightarrow> nat \<Rightarrow> statuscode + byte list) option"
  rsa_pss_sha256_verify :: "(byte list \<Rightarrow> byte list \<Rightarrow> byte list \<Rightarrow> statuscode) option"
  rsa_oaep_sha256_decrypt :: "byte list \<Rightarrow> nat \<Rightarrow> statuscode + byte list"
  rsa_oaep_sha256_encrypt :: "byte list \<Rightarrow> byte list \<Rightarrow> nat \<Rightarrow> statuscode + byte list"
  get_own_certificate :: "(statuscode + byte list) option"
  get_certificate_key_bits :: "(byte list \<Rightarrow> statuscode + nat) option"
  get_certificate_thumbprint :: "(byte list \<Rightarrow> statuscode + byte list) option"
  verify_certificate_validity :: "(byte list \<Rightarrow> statuscode) option"

section \<open>Key derivation\<close>

definition MU_KDF_MAX_SEED :: nat where "MU_KDF_MAX_SEED = 64"
definition MU_SHA256_LENGTH :: nat where "MU_SHA256_LENGTH = 32"

text \<open>\<^verbatim>\<open>mu_secure_memeq\<close> folds the differences of all bytes, without an early exit.\<close>

definition mu_secure_memeq :: "byte list \<Rightarrow> byte list \<Rightarrow> nat \<Rightarrow> bool" where
  "mu_secure_memeq a b n \<longleftrightarrow> fold (\<lambda>i d. d OR (a ! i XOR b ! i)) [0..<n] 0 = 0"

function p_sha256_loop ::
    "(byte list \<Rightarrow> byte list \<Rightarrow> statuscode + byte list) \<Rightarrow> byte list \<Rightarrow> byte list \<Rightarrow> nat
     \<Rightarrow> byte list \<Rightarrow> nat \<Rightarrow> byte list \<Rightarrow> statuscode + byte list" where
  "p_sha256_loop hmac secret seed output_length a produced out =
    (if produced < output_length then
       case hmac secret (a @ seed) of
         Inl s \<Rightarrow> Inl s
       | Inr block \<Rightarrow>
           let n = min (output_length - produced) MU_SHA256_LENGTH in
           case hmac secret a of
             Inl s \<Rightarrow> Inl s
           | Inr a' \<Rightarrow> p_sha256_loop hmac secret seed output_length a' (produced + n) (out @ take n block)
     else Inr out)"
  by pat_completeness auto

termination
  by (relation "measure (\<lambda>(hmac, secret, seed, output_length, a, produced, out). output_length - produced)")
     (auto simp: MU_SHA256_LENGTH_def)

definition mu_p_sha256 :: "mu_crypto_adapter \<Rightarrow> byte list \<Rightarrow> byte list \<Rightarrow> nat \<Rightarrow> statuscode + byte list" where
  "mu_p_sha256 crypto secret seed output_length =
    (if MU_KDF_MAX_SEED < length seed then Inl MU_STATUS_BAD_INTERNALERROR
     else case hmac_sha256 crypto secret seed of
         Inl s \<Rightarrow> Inl s
       | Inr a \<Rightarrow> p_sha256_loop (hmac_sha256 crypto) secret seed output_length a 0 [])"

section \<open>Channel keys\<close>

record mu_sym_keys =
  sk_policy :: mu_security_policy_id
  signing_key :: "byte list"
  encrypting_key :: "byte list"
  sk_iv :: "byte list"
  cipher_ctx :: "byte list"
  sk_crypto :: "mu_crypto_adapter option"
  cipher_ctx_valid :: bool

definition zero_keys :: mu_sym_keys where
  "zero_keys = \<lparr>sk_policy = MU_SECURITY_POLICY_INVALID_ID, signing_key = replicate 32 0, encrypting_key = replicate 32 0,
     sk_iv = replicate 16 0, cipher_ctx = [], sk_crypto = None, cipher_ctx_valid = False\<rparr>"

definition mu_sym_keys_derive ::
    "mu_crypto_adapter \<Rightarrow> mu_security_policy_id \<Rightarrow> byte list \<Rightarrow> byte list \<Rightarrow> statuscode \<times> mu_sym_keys" where
  "mu_sym_keys_derive crypto policy secret seed =
    (let keys = zero_keys\<lparr>sk_policy := policy\<rparr>;
         sig_key_len = mu_security_policy_signature_key_length policy;
         enc_key_len = mu_security_policy_encryption_key_length policy;
         iv_len = mu_security_policy_encryption_block_size policy;
         derived_len = sig_key_len + enc_key_len + iv_len in
     if 128 < derived_len then (MU_STATUS_BAD_INTERNALERROR, keys)
     else case mu_p_sha256 crypto secret seed derived_len of
         Inl s \<Rightarrow> (s, keys)
       | Inr material \<Rightarrow>
           (MU_STATUS_GOOD,
            keys\<lparr>signing_key := overwrite (signing_key keys) 0 (take sig_key_len material),
                 encrypting_key := overwrite (encrypting_key keys) 0 (take enc_key_len (drop sig_key_len material)),
                 sk_iv := overwrite (sk_iv keys) 0 (take iv_len (drop (sig_key_len + enc_key_len) material))\<rparr>))"

definition mu_sym_keys_release_cipher :: "mu_sym_keys \<Rightarrow> mu_sym_keys" where
  "mu_sym_keys_release_cipher keys = keys\<lparr>cipher_ctx_valid := False, sk_crypto := None\<rparr>"

definition mu_sym_keys_prepare_cipher :: "mu_crypto_adapter \<Rightarrow> mu_sym_keys \<Rightarrow> mu_sym_keys" where
  "mu_sym_keys_prepare_cipher crypto keys =
    (let keys = (mu_sym_keys_release_cipher keys)\<lparr>sk_crypto := Some crypto\<rparr> in
     if sk_policy keys = MU_SECURITY_POLICY_AES128_SHA256_RSAOAEP_ID then keys\<lparr>cipher_ctx_valid := False\<rparr>
     else case cipher_ctx_init crypto of
         None \<Rightarrow> keys
       | Some ctx_init \<Rightarrow>
           (case ctx_init (encrypting_key keys) of
              Inl _ \<Rightarrow> keys\<lparr>cipher_ctx_valid := False\<rparr>
            | Inr ctx \<Rightarrow> keys\<lparr>cipher_ctx := ctx, cipher_ctx_valid := True\<rparr>))"

section \<open>Wrapping and unwrapping a chunk\<close>

definition MU_SYM_HEADER_SIZE :: nat where "MU_SYM_HEADER_SIZE = 16"
definition MU_SYM_SIG_LEN :: nat where "MU_SYM_SIG_LEN = 32"
definition MU_SYM_BLOCK :: nat where "MU_SYM_BLOCK = 16"

definition sym_write_header :: "byte list \<Rightarrow> byte list \<Rightarrow> u32 \<Rightarrow> u32 \<Rightarrow> byte list" where
  "sym_write_header out msg_type scid token =
     overwrite (overwrite out 0 (msg_type @ [chunk_F])) 8 (mu_binary_le_put_u32 scid @ mu_binary_le_put_u32 token)"

text \<open>The choice between the three encryption callbacks.\<close>

definition sym_encrypt :: "mu_crypto_adapter \<Rightarrow> mu_sym_keys \<Rightarrow> byte list \<Rightarrow> statuscode + byte list" where
  "sym_encrypt crypto keys plain =
    (if sk_policy keys = MU_SECURITY_POLICY_AES128_SHA256_RSAOAEP_ID then
       (case aes128_cbc_encrypt crypto of
          Some enc \<Rightarrow> enc (take 16 (encrypting_key keys)) (sk_iv keys) plain
        | None \<Rightarrow> Inl MU_STATUS_BAD_INTERNALERROR)
     else if cipher_ctx_valid keys \<and> aes256_cbc_encrypt_ctx crypto \<noteq> None then
       the (aes256_cbc_encrypt_ctx crypto) (cipher_ctx keys) (sk_iv keys) plain
     else aes256_cbc_encrypt crypto (encrypting_key keys) (sk_iv keys) plain)"

definition sym_decrypt :: "mu_crypto_adapter \<Rightarrow> mu_sym_keys \<Rightarrow> byte list \<Rightarrow> statuscode + byte list" where
  "sym_decrypt crypto keys cipher =
    (if sk_policy keys = MU_SECURITY_POLICY_AES128_SHA256_RSAOAEP_ID then
       (case aes128_cbc_decrypt crypto of
          Some dec \<Rightarrow> dec (take 16 (encrypting_key keys)) (sk_iv keys) cipher
        | None \<Rightarrow> Inl MU_STATUS_BAD_INTERNALERROR)
     else if cipher_ctx_valid keys \<and> aes256_cbc_decrypt_ctx crypto \<noteq> None then
       the (aes256_cbc_decrypt_ctx crypto) (cipher_ctx keys) (sk_iv keys) cipher
     else aes256_cbc_decrypt crypto (encrypting_key keys) (sk_iv keys) cipher)"

definition mu_sym_chunk_wrap ::
    "mu_crypto_adapter \<Rightarrow> mu_message_security_mode \<Rightarrow> mu_sym_keys \<Rightarrow> byte list \<Rightarrow> u32 \<Rightarrow> u32 \<Rightarrow> u32 \<Rightarrow> u32
     \<Rightarrow> byte list \<Rightarrow> byte list \<Rightarrow> nat \<Rightarrow> (statuscode + nat) \<times> byte list" where
  "mu_sym_chunk_wrap crypto mode keys msg_type scid token seq req body out out_cap =
    (if mode \<noteq> MU_MESSAGE_SECURITY_MODE_SIGN \<and> mode \<noteq> MU_MESSAGE_SECURITY_MODE_SIGN_AND_ENCRYPT
     then (Inl MU_STATUS_BAD_SECURITYMODEREJECTED, out)
     else
     let out = sym_write_header out msg_type scid token;
         seqbody_len = 8 + length body in
     if mode = MU_MESSAGE_SECURITY_MODE_SIGN then
       let total = MU_SYM_HEADER_SIZE + seqbody_len + MU_SYM_SIG_LEN in
       if out_cap < total then (Inl MU_STATUS_BAD_RESPONSETOOLARGE, out)
       else
       let out = overwrite out 4 (mu_binary_le_put_u32 (of_nat total));
           out = overwrite out MU_SYM_HEADER_SIZE (mu_binary_le_put_u32 seq @ mu_binary_le_put_u32 req @ body);
           signed_len = MU_SYM_HEADER_SIZE + seqbody_len in
       (case hmac_sha256 crypto (signing_key keys) (take signed_len out) of
          Inl s \<Rightarrow> (Inl s, out)
        | Inr mac \<Rightarrow> (Inr total, overwrite out signed_len mac))
     else
       let base = seqbody_len + 1 + MU_SYM_SIG_LEN;
           pad_count = (MU_SYM_BLOCK - base mod MU_SYM_BLOCK) mod MU_SYM_BLOCK;
           enc_len = base + pad_count;
           presig_len = seqbody_len + 1 + pad_count;
           total = MU_SYM_HEADER_SIZE + enc_len in
       if out_cap < total then (Inl MU_STATUS_BAD_RESPONSETOOLARGE, out)
       else
       let out = overwrite out 4 (mu_binary_le_put_u32 (of_nat total));
           out = overwrite out MU_SYM_HEADER_SIZE (mu_binary_le_put_u32 seq @ mu_binary_le_put_u32 req @ body);
           out = overwrite out (MU_SYM_HEADER_SIZE + seqbody_len) (replicate (1 + pad_count) (of_nat pad_count));
           signed_len = MU_SYM_HEADER_SIZE + presig_len in
       (case hmac_sha256 crypto (signing_key keys) (take signed_len out) of
          Inl s \<Rightarrow> (Inl s, out)
        | Inr mac \<Rightarrow>
            let out = overwrite out signed_len mac in
            (case sym_encrypt crypto keys (take enc_len (drop MU_SYM_HEADER_SIZE out)) of
               Inl s \<Rightarrow> (Inl s, out)
             | Inr cipher \<Rightarrow> (Inr total, overwrite out MU_SYM_HEADER_SIZE cipher))))"

record mu_sym_chunk_info =
  sc_mode :: mu_message_security_mode
  sc_secure_channel_id :: u32
  sc_token_id :: u32
  sc_sequence_number :: u32
  sc_request_id :: u32
  sc_message_type :: "byte list"

text \<open>The part behind decryption: MAC check, padding check and the sequence header.\<close>

definition sym_verify ::
    "mu_crypto_adapter \<Rightarrow> mu_message_security_mode \<Rightarrow> mu_sym_keys \<Rightarrow> byte list \<Rightarrow> nat
     \<Rightarrow> statuscode + (mu_sym_chunk_info \<times> byte list)" where
  "sym_verify crypto mode keys chunk msg_size =
    (if msg_size < MU_SYM_HEADER_SIZE + 8 + MU_SYM_SIG_LEN then Inl MU_STATUS_BAD_DECODINGERROR
     else
     let signed_len = msg_size - MU_SYM_SIG_LEN in
     case hmac_sha256 crypto (signing_key keys) (take signed_len chunk) of
       Inl s \<Rightarrow> Inl s
     | Inr mac \<Rightarrow>
         if \<not> mu_secure_memeq mac (drop signed_len chunk) MU_SYM_SIG_LEN then Inl MU_STATUS_BAD_SECURITYCHECKSFAILED
         else
         let pad_count = (if mode = MU_MESSAGE_SECURITY_MODE_SIGN_AND_ENCRYPT then unat (chunk ! (signed_len - 1)) else 0) in
         if mode = MU_MESSAGE_SECURITY_MODE_SIGN_AND_ENCRYPT \<and> signed_len < MU_SYM_HEADER_SIZE + 8 + 1 + pad_count
         then Inl MU_STATUS_BAD_SECURITYCHECKSFAILED
         else if mode = MU_MESSAGE_SECURITY_MODE_SIGN_AND_ENCRYPT \<and>
                 list_ex (\<lambda>i. unat (chunk ! (signed_len - 1 - i)) \<noteq> pad_count) [1..<pad_count + 1]
         then Inl MU_STATUS_BAD_SECURITYCHECKSFAILED
         else
         let pad_count = (if mode = MU_MESSAGE_SECURITY_MODE_SIGN_AND_ENCRYPT then pad_count + 1 else 0);
             seqbody_len = signed_len - MU_SYM_HEADER_SIZE - pad_count in
         Inr (\<lparr>sc_mode = mode, sc_secure_channel_id = mu_binary_le_get_u32 (drop 8 chunk),
               sc_token_id = mu_binary_le_get_u32 (drop 12 chunk),
               sc_sequence_number = mu_binary_le_get_u32 (drop MU_SYM_HEADER_SIZE chunk),
               sc_request_id = mu_binary_le_get_u32 (drop (MU_SYM_HEADER_SIZE + 4) chunk),
               sc_message_type = take 3 chunk\<rparr>,
              take (seqbody_len - 8) (drop (MU_SYM_HEADER_SIZE + 8) chunk)))"

definition mu_sym_chunk_unwrap ::
    "mu_crypto_adapter \<Rightarrow> mu_message_security_mode \<Rightarrow> mu_sym_keys \<Rightarrow> byte list \<Rightarrow> nat
     \<Rightarrow> (statuscode + (mu_sym_chunk_info \<times> byte list)) \<times> byte list" where
  "mu_sym_chunk_unwrap crypto mode keys chunk chunk_len =
    (if chunk_len < MU_SYM_HEADER_SIZE then (Inl MU_STATUS_BAD_DECODINGERROR, chunk)
     else
     let msg_size = unat (mu_binary_le_get_u32 (drop 4 chunk)) in
     if chunk_len < msg_size \<or> msg_size < MU_SYM_HEADER_SIZE then (Inl MU_STATUS_BAD_DECODINGERROR, chunk)
     else if mode = MU_MESSAGE_SECURITY_MODE_SIGN_AND_ENCRYPT then
       let cipher_len = msg_size - MU_SYM_HEADER_SIZE in
       if cipher_len = 0 \<or> cipher_len mod MU_SYM_BLOCK \<noteq> 0 then (Inl MU_STATUS_BAD_DECODINGERROR, chunk)
       else (case sym_decrypt crypto keys (take cipher_len (drop MU_SYM_HEADER_SIZE chunk)) of
           Inl s \<Rightarrow> (Inl s, chunk)
         | Inr plain \<Rightarrow>
             let chunk = overwrite chunk MU_SYM_HEADER_SIZE plain in
             (sym_verify crypto mode keys chunk msg_size, chunk))
     else if mode \<noteq> MU_MESSAGE_SECURITY_MODE_SIGN then (Inl MU_STATUS_BAD_SECURITYMODEREJECTED, chunk)
     else (sym_verify crypto mode keys chunk msg_size, chunk))"

section \<open>Laws of the primitives and reference definitions\<close>

definition cbc_pair :: "(byte list \<Rightarrow> byte list \<Rightarrow> byte list \<Rightarrow> statuscode + byte list)
    \<Rightarrow> (byte list \<Rightarrow> byte list \<Rightarrow> byte list \<Rightarrow> statuscode + byte list) \<Rightarrow> bool" where
  "cbc_pair enc dec \<longleftrightarrow> (\<forall>k iv p. 16 dvd length p \<longrightarrow>
     (\<exists>q. enc k iv p = Inr q \<and> length q = length p \<and> dec k iv q = Inr p))"

definition optional_cbc_pair :: "(byte list \<Rightarrow> byte list \<Rightarrow> byte list \<Rightarrow> statuscode + byte list) option
    \<Rightarrow> (byte list \<Rightarrow> byte list \<Rightarrow> byte list \<Rightarrow> statuscode + byte list) option \<Rightarrow> bool" where
  "optional_cbc_pair enc dec = (case (enc, dec) of (None, None) \<Rightarrow> True | (Some e, Some d) \<Rightarrow> cbc_pair e d | _ \<Rightarrow> False)"

definition hmac_law :: "mu_crypto_adapter \<Rightarrow> bool" where
  "hmac_law c \<longleftrightarrow> (\<forall>k d. \<exists>m. hmac_sha256 c k d = Inr m \<and> length m = 32)"

definition crypto_laws :: "mu_crypto_adapter \<Rightarrow> bool" where
  "crypto_laws c \<longleftrightarrow> hmac_law c \<and> cbc_pair (aes256_cbc_encrypt c) (aes256_cbc_decrypt c) \<and>
     optional_cbc_pair (aes128_cbc_encrypt c) (aes128_cbc_decrypt c) \<and>
     optional_cbc_pair (aes256_cbc_encrypt_ctx c) (aes256_cbc_decrypt_ctx c)"

text \<open>The expansion of RFC 5246 over an HMAC: \<open>A(0) = seed\<close>, \<open>A(i+1) = HMAC(secret, A(i))\<close>
  and the blocks \<open>HMAC(secret, A(i+1) + seed)\<close>.\<close>

fun rfc_A :: "(byte list \<Rightarrow> byte list \<Rightarrow> byte list) \<Rightarrow> byte list \<Rightarrow> byte list \<Rightarrow> nat \<Rightarrow> byte list" where
  "rfc_A H secret seed 0 = seed"
| "rfc_A H secret seed (Suc i) = H secret (rfc_A H secret seed i)"

definition rfc_blocks :: "(byte list \<Rightarrow> byte list \<Rightarrow> byte list) \<Rightarrow> byte list \<Rightarrow> byte list \<Rightarrow> nat \<Rightarrow> nat \<Rightarrow> byte list" where
  "rfc_blocks H secret seed i n = concat (map (\<lambda>j. H secret (rfc_A H secret seed (Suc j) @ seed)) [i..<i + n])"

definition toy_hmac :: "byte list \<Rightarrow> byte list \<Rightarrow> byte list" where
  "toy_hmac k d = replicate 32 (sum_list k + sum_list d)"

definition toy_cbc :: "byte list \<Rightarrow> byte list \<Rightarrow> byte list \<Rightarrow> statuscode + byte list" where
  "toy_cbc k iv p = Inr (map (\<lambda>b. b XOR sum_list k XOR sum_list iv) p)"

definition toy_signature :: "byte list \<Rightarrow> byte list" where
  "toy_signature d = replicate 256 (sum_list d)"

definition toy_crypto :: mu_crypto_adapter where
  "toy_crypto = \<lparr>hmac_sha256 = (\<lambda>k d. Inr (toy_hmac k d)), aes256_cbc_encrypt = toy_cbc, aes256_cbc_decrypt = toy_cbc,
     aes128_cbc_encrypt = Some toy_cbc, aes128_cbc_decrypt = Some toy_cbc, cipher_ctx_init = None,
     aes256_cbc_encrypt_ctx = None, aes256_cbc_decrypt_ctx = None,
     rsa_sha256_sign = Some (\<lambda>d n. Inr (toy_signature d)),
     rsa_sha256_verify = Some (\<lambda>c d s. if s = toy_signature d then MU_STATUS_GOOD else MU_STATUS_BAD_SECURITYCHECKSFAILED),
     rsa_oaep_decrypt = Some (\<lambda>q n. Inr (take 214 q)), rsa_oaep_encrypt = (\<lambda>c p n. Inr (p @ replicate 42 0)),
     rsa_pss_sha256_sign = None, rsa_pss_sha256_verify = None,
     rsa_oaep_sha256_decrypt = (\<lambda>q n. Inr (take 190 q)), rsa_oaep_sha256_encrypt = (\<lambda>c p n. Inr (p @ replicate 66 0)),
     get_own_certificate = Some (Inr [0x30, 0x82]), get_certificate_key_bits = Some (\<lambda>c. Inr 2048),
     get_certificate_thumbprint = Some (\<lambda>c. Inr (replicate 20 (sum_list c))),
     verify_certificate_validity = Some (\<lambda>c. MU_STATUS_GOOD)\<rparr>"

text \<open>The sixteen bytes of the clear-text header.\<close>

definition sym_header :: "byte list \<Rightarrow> nat \<Rightarrow> u32 \<Rightarrow> u32 \<Rightarrow> byte list" where
  "sym_header mt n scid token =
     mt @ [chunk_F] @ mu_binary_le_put_u32 (of_nat n) @ mu_binary_le_put_u32 scid @ mu_binary_le_put_u32 token"

text \<open>The padding of a chunk: none when only signed.\<close>

definition sym_padding :: "mu_message_security_mode \<Rightarrow> nat \<Rightarrow> byte list" where
  "sym_padding mode p = (if mode = MU_MESSAGE_SECURITY_MODE_SIGN_AND_ENCRYPT then replicate (1 + p) (of_nat p) else [])"



section \<open>Key derivation is P-SHA256\<close>

declare p_sha256_loop.simps [simp del]

lemma rfc_blocks_Suc:
  "rfc_blocks H secret seed i (Suc n) = H secret (rfc_A H secret seed (Suc i) @ seed) @ rfc_blocks H secret seed (Suc i) n"
  by (simp add: rfc_blocks_def upt_conv_Cons del: upt_Suc)

lemma p_sha256_loop_blocks:
  assumes "\<And>k d. hmac k d = Inr (H k d)" "\<And>k d. length (H k d) = 32" "produced \<le> n"
  shows "p_sha256_loop hmac secret seed n (rfc_A H secret seed (Suc i)) produced out =
    Inr (out @ take (n - produced) (rfc_blocks H secret seed i ((n - produced + 31) div 32)))"
  using assms(3)
proof (induction "n - produced" arbitrary: i produced out rule: less_induct)
  case less
  show ?case
  proof (cases "produced < n")
    case True
    let ?k = "min (n - produced) 32"
    have blocks: "(n - produced + 31) div 32 = Suc ((n - (produced + ?k) + 31) div 32)"
    proof -
      have "(d + 31) div 32 = Suc ((d - min d 32 + 31) div 32)" if "0 < d" for d :: nat
      proof (cases "d \<le> 32")
        case True
        then have "(d + 31) div 32 = 1" using that by (intro div_nat_eqI) auto
        then show ?thesis using True by simp
      next
        case False
        then obtain e where "d = e + 32" by (metis add.commute le_Suc_ex nat_le_linear)
        then show ?thesis using div_add_self2 [of 32 "e + 31"] by simp
      qed
      from this [of "n - produced"] show ?thesis using True by (simp only: diff_diff_left zero_less_diff)
    qed
    have IH: "p_sha256_loop hmac secret seed n (rfc_A H secret seed (Suc (Suc i))) (produced + ?k)
          (out @ take ?k (H secret (rfc_A H secret seed (Suc i) @ seed))) =
        Inr ((out @ take ?k (H secret (rfc_A H secret seed (Suc i) @ seed))) @
          take (n - (produced + ?k)) (rfc_blocks H secret seed (Suc i) ((n - (produced + ?k) + 31) div 32)))"
      using True by (intro less.hyps) auto
    have "take (n - produced) (H secret (rfc_A H secret seed (Suc i) @ seed) @ xs) =
        take ?k (H secret (rfc_A H secret seed (Suc i) @ seed)) @ take (n - (produced + ?k)) xs" for xs
      using assms(2) by (auto simp: min_def)
    note split = this
    have "p_sha256_loop hmac secret seed n (rfc_A H secret seed (Suc i)) produced out =
        p_sha256_loop hmac secret seed n (rfc_A H secret seed (Suc (Suc i))) (produced + ?k)
          (out @ take ?k (H secret (rfc_A H secret seed (Suc i) @ seed)))"
      using True by (subst p_sha256_loop.simps) (simp add: assms(1) MU_SHA256_LENGTH_def Let_def)
    then show ?thesis unfolding IH blocks rfc_blocks_Suc split by simp
  qed (use less.prems in \<open>simp add: p_sha256_loop.simps\<close>)
qed

text \<open>C19: the key expansion is the P-SHA256 of RFC 5246: over any HMAC with 32-byte
  results it terminates and gives exactly the requested number of bytes of
  \<open>HMAC(secret, A(1)+seed) | HMAC(secret, A(2)+seed) | ...\<close>.\<close>

theorem p_sha256_is_rfc5246:
  assumes "\<And>k d. hmac_sha256 c k d = Inr (H k d)" "\<And>k d. length (H k d) = 32" "length seed \<le> 64"
  shows "mu_p_sha256 c secret seed n = Inr (take n (rfc_blocks H secret seed 0 ((n + 31) div 32)))"
  using p_sha256_loop_blocks [of "hmac_sha256 c" H 0 n secret seed 0 "[]"] assms
  by (simp add: mu_p_sha256_def MU_KDF_MAX_SEED_def)

theorem p_sha256_is_rfc5246_witness:
  "mu_p_sha256 toy_crypto [1, 2] [3, 4] 48 = Inr (take 48 (rfc_blocks toy_hmac [1, 2] [3, 4] 0 2))"
  using p_sha256_is_rfc5246 [of toy_crypto toy_hmac "[3, 4]" "[1, 2]" 48]
  by (simp add: toy_crypto_def toy_hmac_def)

section \<open>Protected chunks\<close>

lemma xor_self_iff: "(x :: byte) XOR y = 0 \<longleftrightarrow> x = y"
  by (auto simp: bit_eq_iff bit_xor_iff)

lemma memeq_iff:
  "n \<le> length a \<Longrightarrow> n \<le> length b \<Longrightarrow> mu_secure_memeq a b n \<longleftrightarrow> take n a = take n b"
proof -
  assume n: "n \<le> length a" "n \<le> length b"
  have "fold (\<lambda>i d. d OR (a ! i XOR b ! i)) [0..<k] 0 = 0 \<longleftrightarrow> (\<forall>i < k. a ! i = b ! i)" for k
    by (induction k) (auto simp: or_eq_0_iff bit.xor_cancel_left less_Suc_eq xor_self_iff)
  then show ?thesis using n by (auto simp: mu_secure_memeq_def list_eq_iff_nth_eq)
qed

lemma overwrite_append_right:
  "overwrite (H @ xs) (length H + i) bs = H @ overwrite xs i bs"
  by (simp add: overwrite_def ac_simps)

lemma overwrite_0: "overwrite xs 0 bs = bs @ drop (length bs) xs"
  by (simp add: overwrite_def)

lemma length_sym_header [simp]: "length mt = 3 \<Longrightarrow> length (sym_header mt n scid token) = 16"
  by (simp add: sym_header_def)

lemma written_header:
  assumes "length mt = 3" "16 \<le> length out"
  shows "overwrite (sym_write_header out mt scid token) 4 (mu_binary_le_put_u32 (of_nat n)) =
    sym_header mt n scid token @ drop 16 out"
  using assms by (simp add: sym_write_header_def sym_header_def overwrite_def)

lemma sym_verify_accepts:
  assumes "length mt = 3" "p < 256" "hmac_sha256 c (signing_key keys) S = Inr m" "length m = 32"
    and S: "S = sym_header mt n scid token @ mu_binary_le_put_u32 seq @ mu_binary_le_put_u32 req @ body @ sym_padding mode p"
    and ch: "ch = S @ m @ rest"
  shows "sym_verify c mode keys ch (length S + 32) =
    Inr (\<lparr>sc_mode = mode, sc_secure_channel_id = scid, sc_token_id = token, sc_sequence_number = seq,
          sc_request_id = req, sc_message_type = mt\<rparr>, body)"
proof -
  have get: "mu_binary_le_get_u32 (drop 8 ch) = scid" "mu_binary_le_get_u32 (drop 12 ch) = token"
    "mu_binary_le_get_u32 (drop 16 ch) = seq" "mu_binary_le_get_u32 (drop 20 ch) = req"
    "take 3 ch = mt" "take (length body) (drop 24 ch) = body"
    using assms(1) by (simp_all add: S ch sym_header_def)
  have split: "take (length S) ch = S" "drop (length S) ch = m @ rest" by (simp_all add: ch)
  have mac: "mu_secure_memeq m (m @ rest) 32" using assms(4) by (simp add: memeq_iff)
  show ?thesis
  proof (cases "mode = MU_MESSAGE_SECURITY_MODE_SIGN_AND_ENCRYPT")
    case True
    let ?P = "sym_header mt n scid token @ mu_binary_le_put_u32 seq @ mu_binary_le_put_u32 req @ body"
    have len: "length S = 25 + length body + p" using True assms(1) by (simp add: S sym_padding_def)
    have ch': "ch = ?P @ replicate (1 + p) (of_nat p) @ m @ rest" using True by (simp add: ch S sym_padding_def)
    have lenP: "length ?P = 24 + length body" using assms(1) by simp
    have pad: "ch ! (24 + length body + j) = of_nat p" if "j \<le> p" for j
      using nth_append_length_plus [of ?P "replicate (1 + p) (of_nat p) @ m @ rest" j] that
      unfolding lenP ch' [symmetric] by (simp add: nth_append del: replicate_Suc)
    have p: "unat (of_nat p :: byte) = p" using assms(2) by (intro unat_of_nat_small) simp
    have nth: "unat (ch ! (length S - 1 - i)) = p" if "i \<le> p" for i
    proof -
      have "length S - 1 - i = 24 + length body + (p - i)" using that len by simp
      then show ?thesis using pad [of "p - i"] p by simp
    qed
    have ex: "\<not> list_ex (\<lambda>i. unat (ch ! (length S - 1 - i)) \<noteq> p) [1..<p + 1]"
      using nth by (auto simp: list_ex_iff)
    have body: "length S - 16 - (p + 1) - 8 = length body" using len by simp
    have ge: "\<not> length S + 32 < 16 + 8 + 32" "\<not> length S < 16 + 8 + 1 + p" using len by simp_all
    have "unat (ch ! (length S - 1)) = p" using nth [of 0] by simp
    then show ?thesis
      unfolding sym_verify_def MU_SYM_HEADER_SIZE_def MU_SYM_SIG_LEN_def Let_def add_diff_cancel_right'
        split sum.case assms(3) if_not_P [OF ge(1)]
      using True ex ge(2) mac get body by simp
  next
    case False
    then have len: "length S = 24 + length body" using assms(1) by (simp add: S sym_padding_def)
    have body: "length S - 16 - 0 - 8 = length body" using len by simp
    have ge: "\<not> length S + 32 < 16 + 8 + 32" using len by simp
    show ?thesis
      unfolding sym_verify_def MU_SYM_HEADER_SIZE_def MU_SYM_SIG_LEN_def Let_def add_diff_cancel_right'
        split sum.case assms(3) if_not_P [OF ge]
      using False mac get body by simp
  qed
qed

lemma hmac_lawE:
  assumes "hmac_law c" obtains m where "hmac_sha256 c k d = Inr m" "length m = 32"
  using assms by (auto simp: hmac_law_def)

lemma cbc_pairD:
  "cbc_pair enc dec \<Longrightarrow> 16 dvd length p \<Longrightarrow> \<exists>q. enc k iv p = Inr q \<and> length q = length p \<and> dec k iv q = Inr p"
  by (simp add: cbc_pair_def)

lemma sym_decrypt_encrypt:
  assumes "crypto_laws c" "16 dvd length p"
    and "sk_policy keys = MU_SECURITY_POLICY_AES128_SHA256_RSAOAEP_ID \<Longrightarrow> aes128_cbc_encrypt c \<noteq> None"
  obtains q where "sym_encrypt c keys p = Inr q" "length q = length p" "sym_decrypt c keys q = Inr p"
proof -
  have laws: "cbc_pair (aes256_cbc_encrypt c) (aes256_cbc_decrypt c)"
      "optional_cbc_pair (aes128_cbc_encrypt c) (aes128_cbc_decrypt c)"
      "optional_cbc_pair (aes256_cbc_encrypt_ctx c) (aes256_cbc_decrypt_ctx c)"
    using assms(1) by (auto simp: crypto_laws_def)
  consider (oaep) "sk_policy keys = MU_SECURITY_POLICY_AES128_SHA256_RSAOAEP_ID"
    | (ctx) "sk_policy keys \<noteq> MU_SECURITY_POLICY_AES128_SHA256_RSAOAEP_ID" "cipher_ctx_valid keys" "aes256_cbc_encrypt_ctx c \<noteq> None"
    | (key) "sk_policy keys \<noteq> MU_SECURITY_POLICY_AES128_SHA256_RSAOAEP_ID"
        "\<not> (cipher_ctx_valid keys \<and> aes256_cbc_encrypt_ctx c \<noteq> None)" by blast
  then show thesis
  proof cases
    case oaep
    then obtain e d where "aes128_cbc_encrypt c = Some e" "aes128_cbc_decrypt c = Some d" "cbc_pair e d"
      using laws(2) assms(3) by (auto simp: optional_cbc_pair_def split: option.splits)
    with oaep cbc_pairD [OF this(3) assms(2), of "take 16 (encrypting_key keys)" "sk_iv keys"] that show thesis
      by (auto simp: sym_encrypt_def sym_decrypt_def)
  next
    case ctx
    then obtain e d where "aes256_cbc_encrypt_ctx c = Some e" "aes256_cbc_decrypt_ctx c = Some d" "cbc_pair e d"
      using laws(3) by (auto simp: optional_cbc_pair_def split: option.splits)
    with ctx cbc_pairD [OF this(3) assms(2), of "cipher_ctx keys" "sk_iv keys"] that show thesis
      by (auto simp: sym_encrypt_def sym_decrypt_def)
  next
    case key
    then have "\<not> (cipher_ctx_valid keys \<and> aes256_cbc_decrypt_ctx c \<noteq> None)"
      using laws(3) by (auto simp: optional_cbc_pair_def split: option.splits)
    with key cbc_pairD [OF laws(1) assms(2), of "encrypting_key keys" "sk_iv keys"] that show thesis
      by (auto simp: sym_encrypt_def sym_decrypt_def)
  qed
qed

lemma overwrite_at:
  "k = length H \<Longrightarrow> overwrite (H @ xs) k bs = H @ bs @ drop (length bs) xs"
  by (simp add: overwrite_def)

lemma wrap_sign_bytes:
  assumes "length mt = 3" "56 + length body \<le> cap" "cap \<le> length out"
    and S: "S = sym_header mt (56 + length body) scid token @ mu_binary_le_put_u32 seq @ mu_binary_le_put_u32 req @ body"
    and "hmac_sha256 c (signing_key keys) S = Inr m" "length m = 32"
  shows "mu_sym_chunk_wrap c MU_MESSAGE_SECURITY_MODE_SIGN keys mt scid token seq req body out cap =
    (Inr (56 + length body), S @ m @ drop (56 + length body) out)"
proof -
  let ?h = "sym_header mt (56 + length body) scid token"
  let ?p = "mu_binary_le_put_u32 seq @ mu_binary_le_put_u32 req @ body"
  have h: "length ?h = 16" using assms(1) by simp
  have hdr: "overwrite (sym_write_header out mt scid token) 4 (mu_binary_le_put_u32 (of_nat (56 + length body))) = ?h @ drop 16 out"
    using assms by (intro written_header) auto
  have body: "overwrite (?h @ drop 16 out) 16 ?p = S @ drop (24 + length body) out"
    unfolding overwrite_at [OF h [symmetric]] S by (simp add: ac_simps)
  have lenS: "length S = 24 + length body" using h by (simp add: S)
  have mac: "overwrite (S @ drop (24 + length body) out) (24 + length body) m = S @ m @ drop (56 + length body) out"
    unfolding overwrite_at [OF lenS [symmetric]] using assms(6) by (simp add: ac_simps)
  have "16 + (8 + length body) + 32 = 56 + length body" "16 + (8 + length body) = 24 + length body" by simp_all
  then show ?thesis
    using assms(2,5) hdr body lenS mac
    by (simp add: mu_sym_chunk_wrap_def MU_SYM_HEADER_SIZE_def MU_SYM_SIG_LEN_def Let_def)
qed

lemma wrap_encrypt_bytes:
  assumes "length mt = 3"
    and n: "pad = (16 - (41 + length body) mod 16) mod 16" "n = 57 + length body + pad" "n \<le> cap" "cap \<le> length out"
    and S: "S = sym_header mt n scid token @ P" and P: "P = mu_binary_le_put_u32 seq @ mu_binary_le_put_u32 req @ body @ replicate (1 + pad) (of_nat pad)"
    and "hmac_sha256 c (signing_key keys) S = Inr m" "length m = 32"
    and "sym_encrypt c keys (P @ m) = Inr q" "length q = length (P @ m)"
  shows "mu_sym_chunk_wrap c MU_MESSAGE_SECURITY_MODE_SIGN_AND_ENCRYPT keys mt scid token seq req body out cap =
    (Inr n, sym_header mt n scid token @ q @ drop n out)"
proof -
  let ?h = "sym_header mt n scid token"
  let ?b = "mu_binary_le_put_u32 seq @ mu_binary_le_put_u32 req @ body"
  let ?r = "replicate (1 + pad) (of_nat pad) :: byte list"
  have h: "length ?h = 16" using assms(1) by simp
  have lenP: "length P = 9 + length body + pad" by (simp add: P)
  have hdr: "overwrite (sym_write_header out mt scid token) 4 (mu_binary_le_put_u32 (of_nat n)) = ?h @ drop 16 out"
    using assms(1) n(2-4) by (intro written_header) simp_all
  have body: "overwrite (?h @ drop 16 out) 16 ?b = (?h @ ?b) @ drop (24 + length body) out"
    unfolding overwrite_at [OF h [symmetric]] by (simp add: ac_simps)
  have lenb: "24 + length body = length (?h @ ?b)" using h by simp
  have pad: "overwrite ((?h @ ?b) @ drop (24 + length body) out) (24 + length body) ?r = S @ drop (25 + length body + pad) out"
    unfolding overwrite_at [OF lenb] by (simp add: S P ac_simps)
  have lenS: "25 + length body + pad = length S" using h by (simp add: S lenP)
  have mac: "overwrite (S @ drop (25 + length body + pad) out) (25 + length body + pad) m = S @ m @ drop n out"
    unfolding overwrite_at [OF lenS] using assms(9) by (simp add: n(2) ac_simps)
  have plain: "take (41 + length body + pad) (drop 16 (S @ m @ drop n out)) = P @ m"
    using h lenP assms(9) by (simp add: S)
  have enc: "overwrite (S @ m @ drop n out) 16 q = ?h @ q @ drop n out"
    unfolding S append.assoc overwrite_at [OF h [symmetric]] using assms(11) by simp
  have tk: "take (25 + length body + pad) (S @ drop (25 + length body + pad) out) = S" using lenS by simp
  have sums: "16 + (8 + length body) = 24 + length body" "8 + length body + 1 + 32 = 41 + length body"
     "16 + (41 + length body + pad) = n" "16 + (8 + length body + 1 + pad) = 25 + length body + pad" "\<not> cap < n" using n by simp_all
  show ?thesis
    unfolding mu_sym_chunk_wrap_def MU_SYM_HEADER_SIZE_def MU_SYM_SIG_LEN_def MU_SYM_BLOCK_def Let_def
      sums(2) n(1) [symmetric] sums(3,4) hdr body sums(1) pad tk assms(8) sum.case mac plain assms(10) enc
    using sums(5) by simp
qed

lemma unwrap_sign:
  assumes "56 + length body = n" "n < 2 ^ 32" "length mt = 3" "ch = sym_header mt n scid token @ xs"
  shows "mu_sym_chunk_unwrap c MU_MESSAGE_SECURITY_MODE_SIGN keys ch n = (sym_verify c MU_MESSAGE_SECURITY_MODE_SIGN keys ch n, ch)"
proof -
  have "mu_binary_le_get_u32 (drop 4 ch) = of_nat n" using assms(3) by (simp add: assms(4) sym_header_def)
  then show ?thesis using assms(1,2) by (simp add: mu_sym_chunk_unwrap_def MU_SYM_HEADER_SIZE_def Let_def unat_of_nat_small)
qed

lemma unwrap_encrypt:
  assumes "16 < n" "n < 2 ^ 32" "length mt = 3" "16 dvd n - 16" "length q = n - 16" "sym_decrypt c keys q = Inr p" "length p = length q"
  shows "mu_sym_chunk_unwrap c MU_MESSAGE_SECURITY_MODE_SIGN_AND_ENCRYPT keys (sym_header mt n scid token @ q @ xs) n =
    (sym_verify c MU_MESSAGE_SECURITY_MODE_SIGN_AND_ENCRYPT keys (sym_header mt n scid token @ p @ xs) n, sym_header mt n scid token @ p @ xs)"
proof -
  let ?ch = "sym_header mt n scid token @ q @ xs"
  have h: "16 = length (sym_header mt n scid token)" using assms(3) by simp
  have size: "unat (mu_binary_le_get_u32 (drop 4 ?ch)) = n"
    using assms(2,3) by (simp add: sym_header_def unat_of_nat_small)
  have cipher: "take (n - 16) (drop 16 ?ch) = q" using assms(3,5) by simp
  have plain: "overwrite ?ch 16 p = sym_header mt n scid token @ p @ xs"
    unfolding overwrite_at [OF h] using assms(7) by simp
  show ?thesis
    unfolding mu_sym_chunk_unwrap_def MU_SYM_HEADER_SIZE_def MU_SYM_BLOCK_def Let_def size cipher assms(6) sum.case plain
    using assms(1,4) by (simp add: dvd_eq_mod_eq_0)
qed

lemma pad_to_block: "(b + (16 - b mod 16) mod 16) mod 16 = (0 :: nat)"
proof -
  have "(b + (16 - b mod 16) mod 16) mod 16 = (b mod 16 + (16 - b mod 16)) mod 16"
    by (simp only: mod_add_left_eq mod_add_right_eq)
  also have "b mod 16 + (16 - b mod 16) = 16" using mod_less_divisor [of 16 b] by linarith
  finally show ?thesis by simp
qed

text \<open>C6: whatever the server protects, a peer with the same keys recovers: unwrapping a
  wrapped chunk gives back the body, the sequence number, the request, token and channel
  ids and the message type, in both protected modes and for every policy.\<close>

theorem sym_chunk_roundtrip:
  assumes "crypto_laws c" "mode \<in> {MU_MESSAGE_SECURITY_MODE_SIGN, MU_MESSAGE_SECURITY_MODE_SIGN_AND_ENCRYPT}"
    and "sk_policy keys = MU_SECURITY_POLICY_AES128_SHA256_RSAOAEP_ID \<longrightarrow> aes128_cbc_encrypt c \<noteq> None"
    and "length mt = 3" "length body + 72 \<le> cap" "cap \<le> length out" "cap < 2 ^ 32"
  shows "\<exists>n ch ch'. mu_sym_chunk_wrap c mode keys mt scid token seq req body out cap = (Inr n, ch) \<and> n \<le> cap \<and>
    mu_sym_chunk_unwrap c mode keys ch n =
      (Inr (\<lparr>sc_mode = mode, sc_secure_channel_id = scid, sc_token_id = token, sc_sequence_number = seq,
             sc_request_id = req, sc_message_type = mt\<rparr>, body), ch')"
proof (cases "mode = MU_MESSAGE_SECURITY_MODE_SIGN")
  case True
  define n where "n = 56 + length body"
  define S where "S = sym_header mt n scid token @ mu_binary_le_put_u32 seq @ mu_binary_le_put_u32 req @ body"
  obtain m where m: "hmac_sha256 c (signing_key keys) S = Inr m" "length m = 32"
    using assms(1) by (auto simp: crypto_laws_def elim: hmac_lawE)
  have lenS: "length S + 32 = n" using assms(4) by (simp add: S_def n_def)
  have wrap: "mu_sym_chunk_wrap c mode keys mt scid token seq req body out cap = (Inr n, S @ m @ drop n out)"
    unfolding True n_def using assms(4-6) m by (intro wrap_sign_bytes) (simp_all add: S_def n_def)
  have "sym_verify c mode keys (S @ m @ drop n out) (length S + 32) =
      Inr (\<lparr>sc_mode = mode, sc_secure_channel_id = scid, sc_token_id = token, sc_sequence_number = seq,
             sc_request_id = req, sc_message_type = mt\<rparr>, body)"
    using assms(4) m True by (intro sym_verify_accepts [where p = 0]) (simp_all add: S_def sym_padding_def)
  moreover have "mu_sym_chunk_unwrap c mode keys (S @ m @ drop n out) n = (sym_verify c mode keys (S @ m @ drop n out) n, S @ m @ drop n out)"
    unfolding True using assms(4-7) by (intro unwrap_sign [where body = body and mt = mt]) (auto simp: S_def n_def)
  ultimately show ?thesis using wrap assms(5) lenS by (simp add: n_def)
next
  case False
  then have mode: "mode = MU_MESSAGE_SECURITY_MODE_SIGN_AND_ENCRYPT" using assms(2) by simp
  define pad where "pad = (16 - (41 + length body) mod 16) mod (16 :: nat)"
  define n where "n = 57 + length body + pad"
  define P where "P = mu_binary_le_put_u32 seq @ mu_binary_le_put_u32 req @ body @ replicate (1 + pad) (of_nat pad)"
  define S where "S = sym_header mt n scid token @ P"
  have pad: "pad < 16" by (simp add: pad_def)
  have "n - 16 = 41 + length body + pad" by (simp add: n_def)
  then have dvd: "16 dvd n - 16" using pad_to_block [of "41 + length body"] unfolding pad_def by (simp only: dvd_eq_mod_eq_0)
  obtain m where m: "hmac_sha256 c (signing_key keys) S = Inr m" "length m = 32"
    using assms(1) by (auto simp: crypto_laws_def elim: hmac_lawE)
  have lenP: "length (P @ m) = n - 16" "16 < n" "n \<le> cap" "length S + 32 = n" using m(2) pad assms(4,5) by (simp_all add: P_def S_def n_def)
  obtain q where q: "sym_encrypt c keys (P @ m) = Inr q" "length q = length (P @ m)" "sym_decrypt c keys q = Inr (P @ m)"
    using sym_decrypt_encrypt [OF assms(1)] dvd lenP(1) assms(3) by metis
  have wrap: "mu_sym_chunk_wrap c mode keys mt scid token seq req body out cap = (Inr n, sym_header mt n scid token @ q @ drop n out)"
    unfolding mode using wrap_encrypt_bytes [OF assms(4) pad_def n_def lenP(3) assms(6) S_def P_def m q(1,2)] .
  have "sym_verify c mode keys (S @ m @ drop n out) (length S + 32) =
      Inr (\<lparr>sc_mode = mode, sc_secure_channel_id = scid, sc_token_id = token, sc_sequence_number = seq,
             sc_request_id = req, sc_message_type = mt\<rparr>, body)"
    using assms(4) m mode pad by (intro sym_verify_accepts [where p = pad]) (simp_all add: S_def P_def sym_padding_def)
  moreover have "mu_sym_chunk_unwrap c mode keys (sym_header mt n scid token @ q @ drop n out) n =
      (sym_verify c mode keys (S @ m @ drop n out) n, S @ m @ drop n out)"
    unfolding mode S_def using unwrap_encrypt [OF lenP(2) _ assms(4) dvd _ q(3)] q(2) lenP(1,3) assms(7) by simp
  ultimately show ?thesis using wrap lenP by simp
qed

lemma xor_xor_cancel: "(b XOR k XOR i) XOR k XOR i = (b :: byte)"
  by (rule bit_eqI) (auto simp: bit_xor_iff)

lemma toy_crypto_laws: "crypto_laws toy_crypto"
proof -
  have "cbc_pair toy_cbc toy_cbc" by (simp add: cbc_pair_def toy_cbc_def xor_xor_cancel o_def)
  then show ?thesis
    by (simp add: crypto_laws_def hmac_law_def toy_crypto_def optional_cbc_pair_def toy_hmac_def)
qed

theorem sym_chunk_roundtrip_witness:
  "\<exists>n ch ch'. mu_sym_chunk_wrap toy_crypto MU_MESSAGE_SECURITY_MODE_SIGN_AND_ENCRYPT zero_keys MSG 1 2 3 4 [5, 6] (replicate 100 0) 100 = (Inr n, ch) \<and>
     n \<le> 100 \<and> mu_sym_chunk_unwrap toy_crypto MU_MESSAGE_SECURITY_MODE_SIGN_AND_ENCRYPT zero_keys ch n =
      (Inr (\<lparr>sc_mode = MU_MESSAGE_SECURITY_MODE_SIGN_AND_ENCRYPT, sc_secure_channel_id = 1, sc_token_id = 2, sc_sequence_number = 3,
             sc_request_id = 4, sc_message_type = MSG\<rparr>, [5, 6]), ch')"
  by (rule sym_chunk_roundtrip) (simp_all add: toy_crypto_laws zero_keys_def MSG_def)

lemma sym_verify_sound:
  assumes "sym_verify c mode keys ch n = Inr (info, body)" "hmac_law c" "n \<le> length ch"
  shows "\<exists>mac. hmac_sha256 c (signing_key keys) (take (n - 32) ch) = Inr mac \<and> take 32 (drop (n - 32) ch) = mac \<and>
    body = take (length body) (drop 24 ch) \<and> 56 + length body \<le> n \<and> sc_message_type info = take 3 ch \<and>
    sc_secure_channel_id info = mu_binary_le_get_u32 (drop 8 ch) \<and> sc_token_id info = mu_binary_le_get_u32 (drop 12 ch) \<and>
    sc_sequence_number info = mu_binary_le_get_u32 (drop 16 ch) \<and> sc_request_id info = mu_binary_le_get_u32 (drop 20 ch)"
proof -
  obtain mac where mac: "hmac_sha256 c (signing_key keys) (take (n - 32) ch) = Inr mac" "length mac = 32"
    using assms(2) by (auto elim: hmac_lawE)
  have n: "56 \<le> n" using assms(1) by (auto simp: sym_verify_def MU_SYM_HEADER_SIZE_def MU_SYM_SIG_LEN_def split: if_splits)
  have "mu_secure_memeq mac (drop (n - 32) ch) 32 \<longleftrightarrow> take 32 (drop (n - 32) ch) = mac"
    using mac(2) n assms(3) by (subst memeq_iff) auto
  then show ?thesis
    using assms(1) mac n assms(3)
    by (auto simp: sym_verify_def MU_SYM_HEADER_SIZE_def MU_SYM_SIG_LEN_def Let_def split: if_splits)
qed

text \<open>C3: an accepted chunk is authentic: its last 32 bytes are the MAC, under the
  channel's signing key, of everything before them (of the decrypted text when the chunk is
  encrypted), and the body and all the identifiers that are handed on lie inside the
  authenticated part.\<close>

theorem sym_unwrap_authentic:
  assumes "mu_sym_chunk_unwrap c mode keys ch len = (Inr (info, body), ch')" "hmac_law c" "len \<le> length ch"
    and "\<forall>x y. sym_decrypt c keys x = Inr y \<longrightarrow> length y = length x"
  shows "\<exists>n mac. n \<le> len \<and> hmac_sha256 c (signing_key keys) (take (n - 32) ch') = Inr mac \<and> take 32 (drop (n - 32) ch') = mac \<and>
    body = take (length body) (drop 24 ch') \<and> 24 + length body \<le> n - 32 \<and> take 16 ch' = take 16 ch \<and>
    sc_secure_channel_id info = mu_binary_le_get_u32 (drop 8 ch') \<and> sc_token_id info = mu_binary_le_get_u32 (drop 12 ch') \<and>
    sc_sequence_number info = mu_binary_le_get_u32 (drop 16 ch') \<and> sc_request_id info = mu_binary_le_get_u32 (drop 20 ch')"
proof -
  let ?n = "unat (mu_binary_le_get_u32 (drop 4 ch))"
  have n: "?n \<le> len" "16 \<le> ?n" and v: "sym_verify c mode keys ch' ?n = Inr (info, body)"
    using assms(1) by (auto simp: mu_sym_chunk_unwrap_def MU_SYM_HEADER_SIZE_def Let_def split: if_splits sum.splits)
  have "length ch' = length ch \<and> take 16 ch' = take 16 ch"
  proof (cases "mode = MU_MESSAGE_SECURITY_MODE_SIGN_AND_ENCRYPT")
    case True
    then obtain plain where p: "sym_decrypt c keys (take (?n - 16) (drop 16 ch)) = Inr plain" "ch' = overwrite ch 16 plain"
      using assms(1) by (auto simp: mu_sym_chunk_unwrap_def MU_SYM_HEADER_SIZE_def Let_def split: if_splits sum.splits)
    then have "16 + length plain \<le> length ch" using assms(3,4) n by fastforce
    then show ?thesis using p(2) by (simp add: take_overwrite)
  next
    case False
    then show ?thesis using assms(1) by (auto simp: mu_sym_chunk_unwrap_def Let_def split: if_splits)
  qed
  then show ?thesis using sym_verify_sound [OF v assms(2)] n assms(3) by fastforce
qed

theorem sym_unwrap_authentic_witness:
  "\<exists>ch info n mac. mu_sym_chunk_unwrap toy_crypto MU_MESSAGE_SECURITY_MODE_SIGN zero_keys ch 58 = (Inr (info, [5, 6]), ch) \<and>
     hmac_sha256 toy_crypto (signing_key zero_keys) (take (n - 32) ch) = Inr mac \<and> take 32 (drop (n - 32) ch) = mac"
proof -
  let ?S = "sym_header MSG 58 1 2 @ mu_binary_le_put_u32 3 @ mu_binary_le_put_u32 4 @ [5, 6]"
  let ?m = "toy_hmac (signing_key zero_keys) ?S"
  let ?i = "\<lparr>sc_mode = MU_MESSAGE_SECURITY_MODE_SIGN, sc_secure_channel_id = 1, sc_token_id = 2, sc_sequence_number = 3,
             sc_request_id = 4, sc_message_type = MSG\<rparr>"
  have len: "length ?S + 32 = 58" by (simp add: MSG_def)
  have v: "sym_verify toy_crypto MU_MESSAGE_SECURITY_MODE_SIGN zero_keys (?S @ ?m) (length ?S + 32) = Inr (?i, [5, 6])"
    by (rule sym_verify_accepts [where p = 0 and rest = "[]"])
      (simp_all add: MSG_def toy_crypto_def toy_hmac_def sym_padding_def)
  have u: "mu_sym_chunk_unwrap toy_crypto MU_MESSAGE_SECURITY_MODE_SIGN zero_keys (?S @ ?m) 58 = (Inr (?i, [5, 6]), ?S @ ?m)"
    using unwrap_sign [of "[5, 6]" 58 MSG "?S @ ?m" 1 2] v unfolding len by (simp add: MSG_def)
  have law: "hmac_law toy_crypto" using toy_crypto_laws by (simp add: crypto_laws_def)
  have dec: "\<forall>x y. sym_decrypt toy_crypto zero_keys x = Inr y \<longrightarrow> length y = length x"
    by (auto simp: sym_decrypt_def toy_crypto_def toy_cbc_def zero_keys_def)
  have "58 \<le> length (?S @ ?m)" using len by (simp add: toy_hmac_def)
  from sym_unwrap_authentic [OF u law this dec] u show ?thesis by blast
qed

end
