(* ===== verification/Asym_Chunk.thy ===== *)
theory Asym_Chunk
  imports Sym_Chunk
begin

text \<open>
  Certificates and asymmetric signatures (\<^verbatim>\<open>src/security/certificate.c\<close>) and the protection
  of OPN chunks (\<^verbatim>\<open>src/security/asym_chunk.c\<close>).  The RSA primitives are callbacks of the
  crypto adapter; what the round trip needs of the adapters of the two peers is the
  predicate \<open>asym_peers\<close>.  The lemmas show that a peer recovers what was wrapped when
  the padding of a block fits its one-byte size field, what it recovers when it does not,
  and that an accepted chunk carries a valid signature of the certificate's holder and is
  addressed to this server.
\<close>

section \<open>Certificates\<close>

definition MU_THUMBPRINT_LENGTH :: nat where "MU_THUMBPRINT_LENGTH = 20"
definition MU_B256S256_MIN_ASYMMETRIC_KEY_BITS :: nat where "MU_B256S256_MIN_ASYMMETRIC_KEY_BITS = 2048"
definition MU_B256S256_MAX_ASYMMETRIC_KEY_BITS :: nat where "MU_B256S256_MAX_ASYMMETRIC_KEY_BITS = 4096"

definition mu_certificate_thumbprint :: "mu_crypto_adapter \<Rightarrow> byte list \<Rightarrow> statuscode + byte list" where
  "mu_certificate_thumbprint crypto certificate =
    (case get_certificate_thumbprint crypto of
       None \<Rightarrow> Inl MU_STATUS_BAD_INTERNALERROR
     | Some thumbprint \<Rightarrow>
         if length certificate = 0 then Inl MU_STATUS_BAD_INTERNALERROR else thumbprint certificate)"

definition is_secured_policy :: "mu_security_policy_id \<Rightarrow> bool" where
  "is_secured_policy policy \<longleftrightarrow> policy = MU_SECURITY_POLICY_BASIC256SHA256_ID \<or>
     policy = MU_SECURITY_POLICY_AES128_SHA256_RSAOAEP_ID \<or> policy = MU_SECURITY_POLICY_AES256_SHA256_RSAPSS_ID"

definition mu_certificate_validate ::
    "mu_crypto_adapter \<Rightarrow> mu_security_policy_id \<Rightarrow> byte list option \<Rightarrow> statuscode" where
  "mu_certificate_validate crypto policy certificate =
    (if policy = MU_SECURITY_POLICY_NONE_ID then MU_STATUS_GOOD
     else if \<not> is_secured_policy policy then MU_STATUS_BAD_SECURITYPOLICYREJECTED
     else case get_certificate_key_bits crypto of
       None \<Rightarrow> MU_STATUS_BAD_INTERNALERROR
     | Some key_bits \<Rightarrow>
         (case certificate of
            None \<Rightarrow> MU_STATUS_BAD_CERTIFICATEINVALID
          | Some cert \<Rightarrow>
              if length cert = 0 then MU_STATUS_BAD_CERTIFICATEINVALID
              else case key_bits cert of
                Inl _ \<Rightarrow> MU_STATUS_BAD_CERTIFICATEINVALID
              | Inr bits \<Rightarrow>
                  if bits < MU_B256S256_MIN_ASYMMETRIC_KEY_BITS \<or> MU_B256S256_MAX_ASYMMETRIC_KEY_BITS < bits
                  then MU_STATUS_BAD_SECURITYCHECKSFAILED
                  else case verify_certificate_validity crypto of
                    None \<Rightarrow> MU_STATUS_BAD_CERTIFICATEINVALID
                  | Some valid \<Rightarrow> valid cert))"

definition mu_asym_signature_sign ::
    "mu_crypto_adapter \<Rightarrow> mu_security_policy_id \<Rightarrow> byte list \<Rightarrow> nat \<Rightarrow> statuscode + byte list" where
  "mu_asym_signature_sign crypto policy data capacity =
    (case (if mu_security_policy_uses_pss policy then rsa_pss_sha256_sign crypto else rsa_sha256_sign crypto) of
       None \<Rightarrow> Inl MU_STATUS_BAD_SECURITYCHECKSFAILED
     | Some sign \<Rightarrow> sign data capacity)"

definition mu_asym_signature_verify ::
    "mu_crypto_adapter \<Rightarrow> mu_security_policy_id \<Rightarrow> byte list \<Rightarrow> byte list \<Rightarrow> byte list \<Rightarrow> statuscode" where
  "mu_asym_signature_verify crypto policy certificate data signature =
    (case (if mu_security_policy_uses_pss policy then rsa_pss_sha256_verify crypto else rsa_sha256_verify crypto) of
       None \<Rightarrow> MU_STATUS_BAD_SECURITYCHECKSFAILED
     | Some verify \<Rightarrow> verify certificate data signature)"

section \<open>Wrapping an OPN chunk\<close>

definition MU_OAEP_SHA1_OVERHEAD :: nat where "MU_OAEP_SHA1_OVERHEAD = 42"
definition MU_ASYM_SCRATCH :: nat where "MU_ASYM_SCRATCH = 512"
definition MU_ASYM_SIGNED_INPUT_MAX :: nat where "MU_ASYM_SIGNED_INPUT_MAX = 4096"
definition MU_ASYM_MAX_PLAINTEXT :: nat where "MU_ASYM_MAX_PLAINTEXT = 2048"

text \<open>Here and below the code calls callbacks without a test for \<^verbatim>\<open>NULL\<close> that it tests
  elsewhere; \<^const>\<open>the\<close> marks these calls.\<close>

definition key_bytes :: "mu_crypto_adapter \<Rightarrow> byte list \<Rightarrow> statuscode + nat" where
  "key_bytes crypto cert =
    (case the (get_certificate_key_bits crypto) cert of
       Inl _ \<Rightarrow> Inl MU_STATUS_BAD_CERTIFICATEINVALID
     | Inr bits \<Rightarrow>
         if bits = 0 \<or> bits div 8 \<le> MU_OAEP_SHA1_OVERHEAD then Inl MU_STATUS_BAD_CERTIFICATEINVALID
         else Inr (bits div 8))"

definition opt_bytestring :: "byte list option \<Rightarrow> mu_string" where
  "opt_bytestring b = (case b of None \<Rightarrow> null_string | Some bs \<Rightarrow> mk_string bs)"

text \<open>The first four bytes are stored without a bounds check.\<close>

definition write_header ::
    "mu_security_policy_id \<Rightarrow> u32 \<Rightarrow> byte list option \<Rightarrow> byte list option \<Rightarrow> wr" where
  "write_header policy scid sender_cert receiver_thumbprint w =
    (case mu_security_policy_uri policy of
       None \<Rightarrow> (MU_STATUS_BAD_SECURITYPOLICYREJECTED, w)
     | Some uri \<Rightarrow>
         wthen (mu_binary_write_uint32 0)
        (wthen (mu_binary_write_uint32 scid)
        (wthen (mu_binary_write_string (mk_string uri))
        (wthen (mu_binary_write_bytestring (opt_bytestring sender_cert))
               (mu_binary_write_bytestring (opt_bytestring receiver_thumbprint)))))
         (w\<lparr>wr_buffer := map_option (\<lambda>b. overwrite b 0 (OPN @ [chunk_F])) (wr_buffer w), wr_position := 4\<rparr>))"

definition wrap_none ::
    "u32 \<Rightarrow> u32 \<Rightarrow> u32 \<Rightarrow> byte list \<Rightarrow> byte list \<Rightarrow> nat \<Rightarrow> (statuscode + nat) \<times> byte list" where
  "wrap_none scid seq rid body out out_cap =
    (case wthen (write_header MU_SECURITY_POLICY_NONE_ID scid None None)
          (wthen (mu_binary_write_uint32 seq) (mu_binary_write_uint32 rid))
          (mu_binary_writer_init (Some out) out_cap) of
       (s, w) \<Rightarrow>
         if s \<noteq> MU_STATUS_GOOD then (Inl s, the (wr_buffer w))
         else if out_cap < wr_position w + length body then (Inl MU_STATUS_BAD_RESPONSETOOLARGE, the (wr_buffer w))
         else let total = wr_position w + length body;
                  out = overwrite (the (wr_buffer w)) (wr_position w) body in
              (Inr total, overwrite out 4 (mu_binary_le_put_u32 (of_nat total))))"

text \<open>The encryption loop; the caller clears the whole span when a block fails, so only
  the status of a failure is kept.\<close>

primrec encrypt_blocks ::
    "(byte list \<Rightarrow> nat \<Rightarrow> statuscode + byte list) \<Rightarrow> nat \<Rightarrow> nat \<Rightarrow> nat \<Rightarrow> byte list \<Rightarrow> statuscode + byte list" where
  "encrypt_blocks enc plain_block cipher_block 0 plain = Inr []"
| "encrypt_blocks enc plain_block cipher_block (Suc blocks) plain =
    (case enc (take plain_block plain) cipher_block of
       Inl s \<Rightarrow> Inl s
     | Inr c \<Rightarrow>
         if length c \<noteq> cipher_block then Inl MU_STATUS_BAD_INTERNALERROR
         else case encrypt_blocks enc plain_block cipher_block blocks (drop plain_block plain) of
             Inl s \<Rightarrow> Inl s
           | Inr cs \<Rightarrow> Inr (c @ cs))"

definition oaep_overhead :: "mu_security_policy_id \<Rightarrow> nat" where
  "oaep_overhead policy = (if policy = MU_SECURITY_POLICY_AES256_SHA256_RSAPSS_ID then 66 else MU_OAEP_SHA1_OVERHEAD)"

definition wrap_sign :: "mu_crypto_adapter \<Rightarrow> mu_security_policy_id \<Rightarrow> byte list \<Rightarrow> nat \<Rightarrow> statuscode + byte list" where
  "wrap_sign crypto policy =
    (if policy = MU_SECURITY_POLICY_AES256_SHA256_RSAPSS_ID then the (rsa_pss_sha256_sign crypto)
     else the (rsa_sha256_sign crypto))"

definition wrap_encrypt ::
    "mu_crypto_adapter \<Rightarrow> mu_security_policy_id \<Rightarrow> byte list \<Rightarrow> byte list \<Rightarrow> nat \<Rightarrow> statuscode + byte list" where
  "wrap_encrypt crypto policy =
    (if policy = MU_SECURITY_POLICY_AES256_SHA256_RSAPSS_ID then rsa_oaep_sha256_encrypt crypto
     else rsa_oaep_encrypt crypto)"

text \<open>The part after the header: padding, signature and encryption.  The signed region is
  staged in the output behind the header, which already carries the final message size.\<close>

definition wrap_secured ::
    "mu_crypto_adapter \<Rightarrow> mu_security_policy_id \<Rightarrow> u32 \<Rightarrow> u32 \<Rightarrow> byte list \<Rightarrow> byte list \<Rightarrow> nat \<Rightarrow> nat
     \<Rightarrow> nat \<Rightarrow> byte list \<Rightarrow> nat \<Rightarrow> (statuscode + nat) \<times> byte list" where
  "wrap_secured crypto policy seq rid receiver_cert body sig_len cipher_block hdr_len out out_cap =
    (let plain_block = cipher_block - oaep_overhead policy;
         seqbody_len = 8 + length body;
         base = seqbody_len + 1 + sig_len;
         pad_count = (plain_block - base mod plain_block) mod plain_block;
         enc_len = base + pad_count;
         presig_len = seqbody_len + 1 + pad_count;
         cipher_len = enc_len div plain_block * cipher_block;
         total = hdr_len + cipher_len in
     if MU_ASYM_MAX_PLAINTEXT < enc_len then (Inl MU_STATUS_BAD_REQUESTTOOLARGE, out)
     else if MU_ASYM_SIGNED_INPUT_MAX < hdr_len + presig_len then (Inl MU_STATUS_BAD_REQUESTTOOLARGE, out)
     else if out_cap < total then (Inl MU_STATUS_BAD_RESPONSETOOLARGE, out)
     else
     let out = overwrite out 4 (mu_binary_le_put_u32 (of_nat total));
         presig = mu_binary_le_put_u32 seq @ mu_binary_le_put_u32 rid @ body @
                  replicate (1 + pad_count) (of_nat pad_count) in
     if MU_ASYM_SCRATCH < sig_len then (Inl MU_STATUS_BAD_INTERNALERROR, out)
     else
     let out = overwrite out hdr_len presig;
         cleared = overwrite out hdr_len (replicate presig_len 0) in
     case wrap_sign crypto policy (take (hdr_len + presig_len) out) MU_ASYM_SCRATCH of
       Inl s \<Rightarrow> (Inl s, cleared)
     | Inr sig \<Rightarrow>
         if length sig \<noteq> sig_len then (Inl MU_STATUS_BAD_INTERNALERROR, cleared)
         else case encrypt_blocks (wrap_encrypt crypto policy receiver_cert) plain_block cipher_block
                     (enc_len div plain_block) (presig @ sig) of
             Inl s \<Rightarrow> (Inl s, overwrite cleared hdr_len (replicate cipher_len 0))
           | Inr cipher \<Rightarrow> (Inr total, overwrite cleared hdr_len cipher))"

definition mu_asym_chunk_wrap ::
    "mu_crypto_adapter \<Rightarrow> mu_security_policy_id \<Rightarrow> u32 \<Rightarrow> u32 \<Rightarrow> u32 \<Rightarrow> byte list option \<Rightarrow> byte list
     \<Rightarrow> byte list \<Rightarrow> nat \<Rightarrow> (statuscode + nat) \<times> byte list" where
  "mu_asym_chunk_wrap crypto policy scid seq rid receiver_cert body out out_cap =
    (if policy = MU_SECURITY_POLICY_NONE_ID then wrap_none scid seq rid body out out_cap
     else if \<not> is_secured_policy policy then (Inl MU_STATUS_BAD_SECURITYPOLICYREJECTED, out)
     else case receiver_cert of
       None \<Rightarrow> (Inl MU_STATUS_BAD_INTERNALERROR, out)
     | Some rcert \<Rightarrow>
         if length rcert = 0 then (Inl MU_STATUS_BAD_INTERNALERROR, out)
         else case the (get_own_certificate crypto) of
           Inl s \<Rightarrow> (Inl s, out)
         | Inr scert \<Rightarrow>
         (case key_bytes crypto scert of
           Inl s \<Rightarrow> (Inl s, out)
         | Inr sig_len \<Rightarrow>
         (case key_bytes crypto rcert of
           Inl s \<Rightarrow> (Inl s, out)
         | Inr recv_key_bytes \<Rightarrow>
         (case mu_certificate_thumbprint crypto rcert of
           Inl s \<Rightarrow> (Inl s, out)
         | Inr thumb \<Rightarrow>
         (case write_header policy scid (Some scert) (Some thumb) (mu_binary_writer_init (Some out) out_cap) of
           (s, w) \<Rightarrow>
             if s \<noteq> MU_STATUS_GOOD then (Inl s, the (wr_buffer w))
             else wrap_secured crypto policy seq rid rcert body sig_len recv_key_bytes (wr_position w)
                    (the (wr_buffer w)) out_cap)))))"

section \<open>Unwrapping an OPN chunk\<close>

record mu_asym_chunk_info =
  ai_policy :: mu_security_policy_id
  ai_secure_channel_id :: u32
  ai_sequence_number :: u32
  ai_request_id :: u32
  ai_sender_cert :: "byte list option"

record asym_header =
  ah_channel_id :: u32
  ah_policy_uri :: mu_string
  ah_sender_cert :: mu_string
  ah_receiver_thumb :: mu_string

definition read_asym_header :: "asym_header rd" where
  "read_asym_header =
     rbind mu_binary_read_uint32 (\<lambda>channel.
     rbind mu_binary_read_string (\<lambda>uri.
     rbind mu_binary_read_bytestring (\<lambda>cert.
     rbind mu_binary_read_bytestring (\<lambda>thumb.
       rreturn \<lparr>ah_channel_id = channel, ah_policy_uri = uri, ah_sender_cert = cert, ah_receiver_thumb = thumb\<rparr>))))"

definition string_bytes :: "mu_string \<Rightarrow> byte list option" where
  "string_bytes s = (if 0 < sint (str_length s) then str_data s else None)"

primrec decrypt_blocks ::
    "(byte list \<Rightarrow> nat \<Rightarrow> statuscode + byte list) \<Rightarrow> nat \<Rightarrow> nat \<Rightarrow> byte list \<Rightarrow> byte list \<Rightarrow> statuscode + byte list" where
  "decrypt_blocks dec key_len 0 cipher plain = Inr plain"
| "decrypt_blocks dec key_len (Suc blocks) cipher plain =
    (case dec (take key_len cipher) (MU_ASYM_MAX_PLAINTEXT - length plain) of
       Inl _ \<Rightarrow> Inl MU_STATUS_BAD_SECURITYCHECKSFAILED
     | Inr p \<Rightarrow> decrypt_blocks dec key_len blocks (drop key_len cipher) (plain @ p))"

definition unwrap_decrypt :: "mu_crypto_adapter \<Rightarrow> mu_security_policy_id \<Rightarrow> byte list \<Rightarrow> nat \<Rightarrow> statuscode + byte list" where
  "unwrap_decrypt crypto policy =
    (if policy = MU_SECURITY_POLICY_AES256_SHA256_RSAPSS_ID then rsa_oaep_sha256_decrypt crypto
     else the (rsa_oaep_decrypt crypto))"

definition unwrap_verify :: "mu_crypto_adapter \<Rightarrow> mu_security_policy_id \<Rightarrow> byte list \<Rightarrow> byte list \<Rightarrow> byte list \<Rightarrow> statuscode" where
  "unwrap_verify crypto policy =
    (if policy = MU_SECURITY_POLICY_AES256_SHA256_RSAPSS_ID then the (rsa_pss_sha256_verify crypto)
     else the (rsa_sha256_verify crypto))"

text \<open>Checking the signature and the padding of the decrypted blocks.\<close>

definition unwrap_plain ::
    "mu_crypto_adapter \<Rightarrow> mu_asym_chunk_info \<Rightarrow> byte list \<Rightarrow> byte list \<Rightarrow> nat \<Rightarrow> byte list \<Rightarrow> nat
     \<Rightarrow> statuscode + (mu_asym_chunk_info \<times> byte list)" where
  "unwrap_plain crypto info sender_cert header sig_len plain out_cap =
    (if length plain < sig_len + 1 + 8 then Inl MU_STATUS_BAD_SECURITYCHECKSFAILED
     else
     let signed_len = length plain - sig_len;
         signature = drop signed_len plain in
     if MU_ASYM_SIGNED_INPUT_MAX < length header + signed_len then Inl MU_STATUS_BAD_SECURITYCHECKSFAILED
     else if unwrap_verify crypto (ai_policy info) sender_cert (header @ take signed_len plain) signature \<noteq> MU_STATUS_GOOD
     then Inl MU_STATUS_BAD_SECURITYCHECKSFAILED
     else
     let pad_count = unat (plain ! (signed_len - 1)) in
     if signed_len < pad_count + 1 + 8 then Inl MU_STATUS_BAD_SECURITYCHECKSFAILED
     else if list_ex (\<lambda>i. unat (plain ! (signed_len - 1 - i)) \<noteq> pad_count) [1..<pad_count + 1]
     then Inl MU_STATUS_BAD_SECURITYCHECKSFAILED
     else
     let seqbody_len = signed_len - 1 - pad_count; body_len = seqbody_len - 8 in
     if out_cap < body_len then Inl MU_STATUS_BAD_RESPONSETOOLARGE
     else Inr (info\<lparr>ai_sequence_number := mu_binary_le_get_u32 plain,
                    ai_request_id := mu_binary_le_get_u32 (drop 4 plain)\<rparr>,
               take body_len (drop 8 plain)))"

definition unwrap_secured ::
    "mu_crypto_adapter \<Rightarrow> mu_asym_chunk_info \<Rightarrow> mu_string \<Rightarrow> byte list \<Rightarrow> byte list \<Rightarrow> nat
     \<Rightarrow> statuscode + (mu_asym_chunk_info \<times> byte list)" where
  "unwrap_secured crypto info receiver_thumb header cipher out_cap =
    (let vs = mu_certificate_validate crypto (ai_policy info) (ai_sender_cert info) in
     if vs \<noteq> MU_STATUS_GOOD then Inl vs
     else case the (get_own_certificate crypto) of
       Inl s \<Rightarrow> Inl s
     | Inr own_cert \<Rightarrow>
     (case mu_certificate_thumbprint crypto own_cert of
       Inl s \<Rightarrow> Inl s
     | Inr own_thumb \<Rightarrow>
         if str_length receiver_thumb \<noteq> of_nat MU_THUMBPRINT_LENGTH \<or>
            \<not> mu_secure_memeq (the (str_data receiver_thumb)) own_thumb MU_THUMBPRINT_LENGTH
         then Inl MU_STATUS_BAD_SECURITYCHECKSFAILED
         else case key_bytes crypto own_cert of
           Inl s \<Rightarrow> Inl s
         | Inr own_key_bytes \<Rightarrow>
         (case key_bytes crypto (the (ai_sender_cert info)) of
           Inl s \<Rightarrow> Inl s
         | Inr sig_len \<Rightarrow>
             if length cipher = 0 \<or> length cipher mod own_key_bytes \<noteq> 0 then Inl MU_STATUS_BAD_DECODINGERROR
             else case decrypt_blocks (unwrap_decrypt crypto (ai_policy info)) own_key_bytes
                         (length cipher div own_key_bytes) cipher [] of
               Inl s \<Rightarrow> Inl s
             | Inr plain \<Rightarrow> unwrap_plain crypto info (the (ai_sender_cert info)) header sig_len plain out_cap)))"

definition mu_asym_chunk_unwrap ::
    "mu_crypto_adapter \<Rightarrow> byte list \<Rightarrow> nat \<Rightarrow> nat \<Rightarrow> statuscode + (mu_asym_chunk_info \<times> byte list)" where
  "mu_asym_chunk_unwrap crypto chunk chunk_len out_cap =
    (if chunk_len < 12 \<or> take 3 chunk \<noteq> OPN then Inl MU_STATUS_BAD_DECODINGERROR
     else
     let msg_size = unat (mu_binary_le_get_u32 (drop 4 chunk)) in
     if chunk_len < msg_size then Inl MU_STATUS_BAD_DECODINGERROR
     else case read_asym_header ((mu_binary_reader_init (Some chunk) msg_size)\<lparr>rd_position := 8\<rparr>) of
       (Inl s, _) \<Rightarrow> Inl s
     | (Inr h, r) \<Rightarrow>
         let hdr_len = rd_position r;
             policy = mu_security_policy_from_uri (str_data (ah_policy_uri h))
                        (if 0 < sint (str_length (ah_policy_uri h)) then nat (sint (str_length (ah_policy_uri h))) else 0);
             info = \<lparr>ai_policy = policy, ai_secure_channel_id = ah_channel_id h, ai_sequence_number = 0,
                     ai_request_id = 0, ai_sender_cert = string_bytes (ah_sender_cert h)\<rparr> in
         if policy = MU_SECURITY_POLICY_NONE_ID then
           if msg_size < hdr_len + 8 then Inl MU_STATUS_BAD_DECODINGERROR
           else if out_cap < msg_size - hdr_len - 8 then Inl MU_STATUS_BAD_RESPONSETOOLARGE
           else Inr (info\<lparr>ai_sequence_number := mu_binary_le_get_u32 (drop hdr_len chunk),
                          ai_request_id := mu_binary_le_get_u32 (drop (hdr_len + 4) chunk)\<rparr>,
                     take (msg_size - hdr_len - 8) (drop (hdr_len + 8) chunk))
         else if \<not> is_secured_policy policy then Inl MU_STATUS_BAD_SECURITYPOLICYREJECTED
         else unwrap_secured crypto info (ah_receiver_thumb h) (take hdr_len chunk)
                (take (msg_size - hdr_len) (drop hdr_len chunk)) out_cap)"

text \<open>The wrapping side owns the certificate \<open>scert\<close> with a key of \<open>sk\<close> bytes, the
  unwrapping side \<open>rcert\<close> with one of \<open>rk\<close> bytes.  Key sizes, thumbprints and validity
  are what both adapters read off the certificates; a signature verifies under the
  signer's certificate; decryption inverts encryption of one block.\<close>

definition asym_certificates :: "mu_crypto_adapter \<Rightarrow> byte list \<Rightarrow> nat \<Rightarrow> byte list \<Rightarrow> nat \<Rightarrow> byte list \<Rightarrow> bool" where
  "asym_certificates c scert sk rcert rk thumb \<longleftrightarrow>
     map_option (\<lambda>f. (f scert, f rcert)) (get_certificate_key_bits c) = Some (Inr (8 * sk), Inr (8 * rk)) \<and>
     map_option (\<lambda>f. f rcert) (get_certificate_thumbprint c) = Some (Inr thumb) \<and>
     map_option (\<lambda>f. f scert) (verify_certificate_validity c) = Some MU_STATUS_GOOD"

definition asym_peers ::
    "mu_security_policy_id \<Rightarrow> mu_crypto_adapter \<Rightarrow> mu_crypto_adapter \<Rightarrow> byte list \<Rightarrow> nat \<Rightarrow> byte list \<Rightarrow> nat
     \<Rightarrow> byte list \<Rightarrow> bool" where
  "asym_peers policy cs cr scert sk rcert rk thumb \<longleftrightarrow>
     get_own_certificate cs = Some (Inr scert) \<and> get_own_certificate cr = Some (Inr rcert) \<and>
     asym_certificates cs scert sk rcert rk thumb \<and> asym_certificates cr scert sk rcert rk thumb \<and>
     scert \<noteq> [] \<and> length scert \<le> 4096 \<and> rcert \<noteq> [] \<and> length thumb = 20 \<and>
     256 \<le> sk \<and> sk \<le> 512 \<and> 256 \<le> rk \<and> rk \<le> 512 \<and>
     (\<forall>d. \<exists>s. wrap_sign cs policy d MU_ASYM_SCRATCH = Inr s \<and> length s = sk \<and>
            unwrap_verify cr policy scert d s = MU_STATUS_GOOD) \<and>
     (\<forall>p. length p = rk - oaep_overhead policy \<longrightarrow>
            (\<exists>q. wrap_encrypt cs policy rcert p rk = Inr q \<and> length q = rk \<and>
                 (\<forall>n \<ge> length p. unwrap_decrypt cr policy q n = Inr p)))"

text \<open>The clear-text header of an OPN chunk.\<close>

definition asym_header_rest :: "byte list \<Rightarrow> u32 \<Rightarrow> byte list \<Rightarrow> byte list \<Rightarrow> byte list" where
  "asym_header_rest uri scid scert thumb =
     mu_binary_le_put_u32 scid @ enc_string (mk_string uri) @ enc_string (mk_string scert) @ enc_string (mk_string thumb)"

definition asym_header_bytes :: "byte list \<Rightarrow> nat \<Rightarrow> u32 \<Rightarrow> byte list \<Rightarrow> byte list \<Rightarrow> byte list" where
  "asym_header_bytes uri n scid scert thumb =
     OPN @ [chunk_F] @ mu_binary_le_put_u32 (of_nat n) @ asym_header_rest uri scid scert thumb"

definition asym_presig :: "u32 \<Rightarrow> u32 \<Rightarrow> byte list \<Rightarrow> nat \<Rightarrow> byte list" where
  "asym_presig seq rid body pad =
     mu_binary_le_put_u32 seq @ mu_binary_le_put_u32 rid @ body @ replicate (1 + pad) (of_nat pad)"

definition asym_pad :: "mu_security_policy_id \<Rightarrow> nat \<Rightarrow> nat \<Rightarrow> nat \<Rightarrow> nat" where
  "asym_pad policy rk sk n =
    (let block = rk - oaep_overhead policy; base = 8 + n + 1 + sk in (block - base mod block) mod block)"

text \<open>A pair of peers with 4096-bit keys.\<close>

definition toy_crypto_4096 :: mu_crypto_adapter where
  "toy_crypto_4096 = toy_crypto\<lparr>
     rsa_sha256_sign := Some (\<lambda>d n. Inr (replicate 512 (sum_list d))),
     rsa_sha256_verify := Some (\<lambda>c d s. if s = replicate 512 (sum_list d) then MU_STATUS_GOOD else MU_STATUS_BAD_SECURITYCHECKSFAILED),
     rsa_oaep_decrypt := Some (\<lambda>q n. Inr (take 470 q)), get_certificate_key_bits := Some (\<lambda>c. Inr 4096)\<rparr>"

section \<open>What the peers' adapters promise\<close>

section \<open>The blocks\<close>

lemma blocks_roundtrip:
  assumes "\<And>p. length p = pb \<Longrightarrow> \<exists>q. enc p cb = Inr q \<and> length q = cb \<and> (\<forall>n \<ge> pb. dec q n = Inr p)"
    and "length plain = n * pb" "length acc + n * pb \<le> MU_ASYM_MAX_PLAINTEXT"
  shows "\<exists>cs. encrypt_blocks enc pb cb n plain = Inr cs \<and> length cs = n * cb \<and>
    decrypt_blocks dec cb n cs acc = Inr (acc @ plain)"
  using assms(2,3)
proof (induction n arbitrary: plain acc)
  case (Suc n)
  have len: "length (take pb plain) = pb" "length (drop pb plain) = n * pb" using Suc.prems(1) by simp_all
  obtain q where q: "enc (take pb plain) cb = Inr q" "length q = cb" "\<forall>m \<ge> pb. dec q m = Inr (take pb plain)"
    using assms(1) [OF len(1)] by blast
  obtain cs where cs: "encrypt_blocks enc pb cb n (drop pb plain) = Inr cs" "length cs = n * cb"
      "decrypt_blocks dec cb n cs (acc @ take pb plain) = Inr ((acc @ take pb plain) @ drop pb plain)"
    using Suc.IH [OF len(2), of "acc @ take pb plain"] Suc.prems(2) len(1) by auto
  have "pb \<le> MU_ASYM_MAX_PLAINTEXT - length acc" using Suc.prems(2) by simp
  then show ?case using q cs by simp
qed simp

section \<open>Padding and signature\<close>

lemma length_asym_presig [simp]: "length (asym_presig seq rid body pad) = 9 + length body + pad"
  by (simp add: asym_presig_def)

lemma unwrap_plain_presig:
  assumes plain: "plain = asym_presig seq rid body pad @ sig" and "length sig = sig_len"
    and "length header + (9 + length body + pad) \<le> MU_ASYM_SIGNED_INPUT_MAX"
    and "unwrap_verify c (ai_policy info) scert (header @ asym_presig seq rid body pad) sig = MU_STATUS_GOOD"
    and cap: "length body + (pad - pad mod 256) \<le> cap"
  shows "unwrap_plain c info scert header sig_len plain cap =
    Inr (info\<lparr>ai_sequence_number := seq, ai_request_id := rid\<rparr>,
         body @ replicate (pad - pad mod 256) (of_nat pad))"
proof -
  let ?n = "9 + length body + pad"
  let ?m = "pad mod 256"
  have len: "length plain = ?n + sig_len" using assms(2) by (simp add: plain)
  have n: "length plain - sig_len = ?n" using len by simp
  have tk: "take ?n plain = asym_presig seq rid body pad" "drop ?n plain = sig" by (simp_all add: plain)
  have m: "unat (of_nat pad :: byte) = ?m" by (simp add: unsigned_of_nat take_bit_eq_mod)
  have nth: "plain ! (8 + length body + j) = of_nat pad" if "j \<le> pad" for j
  proof -
    let ?P = "mu_binary_le_put_u32 seq @ mu_binary_le_put_u32 rid @ body"
    have P: "length ?P = 8 + length body" by simp
    have "plain = ?P @ replicate (1 + pad) (of_nat pad) @ sig" by (simp add: plain asym_presig_def)
    then show ?thesis
      using nth_append_length_plus [of ?P "replicate (1 + pad) (of_nat pad) @ sig" j] that
      unfolding P by (simp add: nth_append del: replicate_Suc)
  qed
  have mp: "?m \<le> pad" by simp
  have last: "unat (plain ! (?n - 1 - i)) = ?m" if "i \<le> pad" for i
  proof -
    have "?n - 1 - i = 8 + length body + (pad - i)" using that by simp
    then show ?thesis using nth [of "pad - i"] m by simp
  qed
  have ex: "\<not> list_ex (\<lambda>i. unat (plain ! (?n - 1 - i)) \<noteq> ?m) [1..<?m + 1]"
    unfolding list_ex_iff
  proof
    assume "\<exists>i \<in> set [1..<?m + 1]. unat (plain ! (?n - 1 - i)) \<noteq> ?m"
    then obtain i where i: "i \<in> set [1..<?m + 1]" "unat (plain ! (?n - 1 - i)) \<noteq> ?m" by blast
    then have "i \<le> ?m" by auto
    then show False using i(2) last mp by (meson le_trans)
  qed
  have last0: "unat (plain ! (?n - 1)) = ?m" using last [of 0] by simp
  have bl: "?n - 1 - ?m - 8 = length body + (pad - ?m)" using mp by simp
  have rep: "replicate (1 + pad) v = replicate (pad - ?m) v @ replicate (1 + ?m) v" for v :: byte
    using mp by (simp add: replicate_add [symmetric] del: replicate_Suc)
  have body: "take (length body + (pad - ?m)) (drop 8 plain) = body @ replicate (pad - ?m) (of_nat pad)"
    unfolding plain asym_presig_def rep by simp
  have get: "mu_binary_le_get_u32 plain = seq" "mu_binary_le_get_u32 (drop 4 plain) = rid"
    by (simp_all add: plain asym_presig_def)
  have ge: "\<not> length plain < sig_len + 1 + 8" "\<not> MU_ASYM_SIGNED_INPUT_MAX < length header + ?n"
    "\<not> ?n < ?m + 1 + 8" "\<not> cap < length body + (pad - ?m)"
    using len assms(3) cap mp by simp_all
  show ?thesis
    unfolding unwrap_plain_def Let_def n tk assms(4) last0 bl body get if_not_P [OF ge(1)] if_not_P [OF ge(2)]
      if_not_P [OF ge(3)] if_not_P [OF ge(4)] if_not_P [OF ex]
    by simp
qed

section \<open>The header\<close>

lemma sint_mk_string: "length bs < 2 ^ 31 \<Longrightarrow> sint (str_length (mk_string bs)) = int (length bs)"
  by (simp add: mk_string_def sint_of_nat_small)

lemma valid_mk_string: "length bs \<le> 4096 \<Longrightarrow> valid_string (mk_string bs)"
  by (simp add: valid_string_def mk_string_def MU_MAX_ENCODED_STRING_LENGTH_def)

lemma enc_mk_string: "enc_string (mk_string bs) = mu_binary_le_put_u32 (of_nat (length bs)) @ bs"
  by (simp add: enc_string_def mk_string_def)

lemma length_asym_header: "length (asym_header_bytes uri n scid scert thumb) = 24 + length uri + length scert + length thumb"
  by (simp add: asym_header_bytes_def asym_header_rest_def enc_mk_string OPN_def)

lemma write_header_bytes:
  assumes "mu_security_policy_uri policy = Some uri" "length uri \<le> 4096" "length scert \<le> 4096" "length thumb \<le> 4096"
    and "length (asym_header_bytes uri 0 scid scert thumb) \<le> cap" "cap \<le> length out"
  shows "write_header policy scid (Some scert) (Some thumb) (mu_binary_writer_init (Some out) cap) =
    (MU_STATUS_GOOD, \<lparr>wr_buffer = Some (asym_header_bytes uri 0 scid scert thumb @
         drop (length (asym_header_bytes uri 0 scid scert thumb)) out),
       wr_length = cap, wr_position = length (asym_header_bytes uri 0 scid scert thumb), wr_status = MU_STATUS_GOOD\<rparr>)"
proof -
  let ?H = "asym_header_bytes uri 0 scid scert thumb"
  let ?R = "mu_binary_le_put_u32 0 @ asym_header_rest uri scid scert thumb"
  let ?w = "\<lparr>wr_buffer = Some (overwrite out 0 (OPN @ [chunk_F])), wr_length = cap, wr_position = 4, wr_status = MU_STATUS_GOOD\<rparr>"
  have len: "length ?H = 4 + length ?R" by (simp add: asym_header_bytes_def OPN_def)
  have ok: "wr_ok ?w" using assms(5,6) by (simp add: wr_ok_def wr_wf_def OPN_def len)
  have "wr_emits (wthen (mu_binary_write_uint32 0) (wthen (mu_binary_write_uint32 scid)
        (wthen (mu_binary_write_string (mk_string uri)) (wthen (mu_binary_write_bytestring (mk_string scert))
          (mu_binary_write_bytestring (mk_string thumb)))))) ?R"
    unfolding asym_header_rest_def using assms(2-4) by (intro wire_intros valid_mk_string) simp_all
  then have run: "wthen (mu_binary_write_uint32 0) (wthen (mu_binary_write_uint32 scid)
        (wthen (mu_binary_write_string (mk_string uri)) (wthen (mu_binary_write_bytestring (mk_string scert))
          (mu_binary_write_bytestring (mk_string thumb))))) ?w = (MU_STATUS_GOOD, wr_put ?R ?w)"
    using ok assms(5) len by (simp add: wr_emits_def wr_room_def)
  have four: "(4 :: nat) = 0 + length (OPN @ [chunk_F])" by (simp add: OPN_def)
  have buf: "overwrite (overwrite out 0 (OPN @ [chunk_F])) 4 ?R = ?H @ drop (length ?H) out"
    unfolding four using assms(5,6) len
    by (subst overwrite_overwrite_append) (simp_all add: OPN_def overwrite_0 asym_header_bytes_def)
  show ?thesis
    unfolding write_header_def assms(1) option.case opt_bytestring_def
    using run buf len by (simp add: mu_binary_writer_init_def wr_put_def)
qed

lemma patch_size:
  "overwrite (asym_header_bytes uri m scid scert thumb @ xs) 4 (mu_binary_le_put_u32 (of_nat n)) =
   asym_header_bytes uri n scid scert thumb @ xs"
  by (simp add: asym_header_bytes_def OPN_def overwrite_def)

lemma read_asym_header_bytes:
  assumes "length uri \<le> 4096" "length scert \<le> 4096" "length thumb \<le> 4096"
    and H: "H = asym_header_bytes uri n scid scert thumb" and "length H \<le> m" "m \<le> length (H @ xs)"
  shows "read_asym_header ((mu_binary_reader_init (Some (H @ xs)) m)\<lparr>rd_position := 8\<rparr>) =
    (Inr \<lparr>ah_channel_id = scid, ah_policy_uri = mk_string uri, ah_sender_cert = mk_string scert,
          ah_receiver_thumb = mk_string thumb\<rparr>,
     (mu_binary_reader_init (Some (H @ xs)) m)\<lparr>rd_position := length H\<rparr>)"
proof -
  let ?r = "(mu_binary_reader_init (Some (H @ xs)) m)\<lparr>rd_position := 8\<rparr>"
  have len: "length H = 8 + length (asym_header_rest uri scid scert thumb)"
    by (simp add: H asym_header_bytes_def OPN_def)
  have ok: "rd_ok ?r" using assms(5,6) len by (simp add: rd_ok_def rd_wf_def mu_binary_reader_init_def)
  have "rd_accepts read_asym_header (asym_header_rest uri scid scert thumb)
      \<lparr>ah_channel_id = scid, ah_policy_uri = mk_string uri, ah_sender_cert = mk_string scert, ah_receiver_thumb = mk_string thumb\<rparr>"
    unfolding read_asym_header_def asym_header_rest_def using assms(1-3)
    by (intro wire_intros valid_mk_string rd_accepts_returnI) simp_all
  moreover have "rd_rest ?r = asym_header_rest uri scid scert thumb @ take (m - length H) xs"
  proof -
    have "take m (H @ xs) = H @ take (m - length H) xs" using assms(5) by simp
    then have "rd_rest ?r = drop 8 (H @ take (m - length H) xs)" by (simp add: rd_rest_def mu_binary_reader_init_def)
    then show ?thesis by (simp add: H asym_header_bytes_def OPN_def)
  qed
  ultimately show ?thesis using ok len by (simp add: rd_accepts_def rd_skip_def mu_binary_reader_init_def)
qed

lemma asym_pad_blocks:
  assumes "0 < rk - oaep_overhead policy"
  shows "(9 + n + sk + asym_pad policy rk sk n) mod (rk - oaep_overhead policy) = 0"
    "asym_pad policy rk sk n < rk - oaep_overhead policy"
proof -
  let ?b = "rk - oaep_overhead policy" and ?a = "8 + n + 1 + sk"
  have "(?a + (?b - ?a mod ?b) mod ?b) mod ?b = (?a mod ?b + (?b - ?a mod ?b)) mod ?b"
    by (simp only: mod_add_left_eq mod_add_right_eq)
  also have "?a mod ?b + (?b - ?a mod ?b) = ?b" using mod_less_divisor [OF assms, of ?a] by linarith
  finally have "(?a + (?b - ?a mod ?b) mod ?b) mod ?b = 0" by simp
  moreover have "?a = 9 + n + sk" by simp
  ultimately show "(9 + n + sk + asym_pad policy rk sk n) mod ?b = 0"
    unfolding asym_pad_def Let_def by (simp only: )
  show "asym_pad policy rk sk n < ?b" using assms by (simp add: asym_pad_def Let_def)
qed

lemma wrap_secured_bytes:
  fixes xs body uri scert thumb :: "byte list" and sk rk :: nat and policy :: mu_security_policy_id and scid :: u32
  defines "pad \<equiv> asym_pad policy rk sk (length body)"
  defines "enc_len \<equiv> 9 + length body + pad + sk"
  defines "blocks \<equiv> enc_len div (rk - oaep_overhead policy)"
  defines "H \<equiv> \<lambda>n. asym_header_bytes uri n scid scert thumb"
  defines "n \<equiv> length (H 0) + blocks * rk"
  assumes "enc_len \<le> MU_ASYM_MAX_PLAINTEXT" "length (H 0) + (9 + length body + pad) \<le> MU_ASYM_SIGNED_INPUT_MAX"
    and "n \<le> cap" "cap \<le> length (H 0 @ xs)" "sk \<le> 512" "length (asym_presig seq rid body pad) \<le> length xs"
    and sig: "wrap_sign c policy (H n @ asym_presig seq rid body pad) MU_ASYM_SCRATCH = Inr sig" "length sig = sk"
    and enc: "encrypt_blocks (wrap_encrypt c policy rcert) (rk - oaep_overhead policy) rk blocks
        (asym_presig seq rid body pad @ sig) = Inr cipher"
  shows "\<exists>ys. wrap_secured c policy seq rid rcert body sk rk (length (H 0)) (H 0 @ xs) cap = (Inr n, H n @ cipher @ ys)"
proof -
  let ?S = "asym_presig seq rid body pad"
  let ?pb = "rk - oaep_overhead policy"
  have lenH: "length (H 0) = length (H n)" by (simp add: H_def length_asym_header)
  have size: "overwrite (H 0 @ xs) 4 (mu_binary_le_put_u32 (of_nat n)) = H n @ xs"
    by (simp add: H_def patch_size)
  have stage: "overwrite (H n @ xs) (length (H 0)) ?S = H n @ ?S @ drop (length ?S) xs"
    by (rule overwrite_at [OF lenH])
  have signed: "take (length (H 0) + (9 + length body + pad)) (H n @ ?S @ drop (length ?S) xs) = H n @ ?S"
    using lenH by simp
  have pad: "(?pb - (8 + length body + 1 + sk) mod ?pb) mod ?pb = pad"
    by (simp add: pad_def asym_pad_def Let_def)
  have el: "8 + length body + 1 + sk + pad = enc_len" "8 + length body + 1 + pad = 9 + length body + pad"
    by (simp_all add: enc_len_def)
  have ps: "mu_binary_le_put_u32 seq @ mu_binary_le_put_u32 rid @ body @ replicate (1 + pad) (of_nat pad) = ?S"
    by (simp add: asym_presig_def)
  have ge: "\<not> MU_ASYM_MAX_PLAINTEXT < enc_len" "\<not> MU_ASYM_SIGNED_INPUT_MAX < length (H 0) + (9 + length body + pad)"
    "\<not> cap < n" "\<not> MU_ASYM_SCRATCH < sk" "\<not> length sig \<noteq> sk"
    using assms(6-8,10) sig(2) by (simp_all add: MU_ASYM_SCRATCH_def)
  define Z where "Z = overwrite (H n @ ?S @ drop (length ?S) xs) (length (H 0)) (replicate (9 + length body + pad) 0)"
  have Z: "\<exists>zs. Z = H n @ zs"
    unfolding Z_def overwrite_at [OF lenH] by blast
  then obtain zs where zs: "Z = H n @ zs" by blast
  have fin: "overwrite Z (length (H 0)) cipher = H n @ cipher @ drop (length cipher) zs"
    unfolding zs by (rule overwrite_at [OF lenH])
  have "wrap_secured c policy seq rid rcert body sk rk (length (H 0)) (H 0 @ xs) cap = (Inr n, overwrite Z (length (H 0)) cipher)"
    unfolding wrap_secured_def Let_def pad el blocks_def [symmetric] n_def [symmetric] if_not_P [OF ge(1)]
      if_not_P [OF ge(2)] if_not_P [OF ge(3)] if_not_P [OF ge(4)] size ps stage signed sig(1) sum.case if_not_P [OF ge(5)]
      enc Z_def [symmetric] ..
  then show ?thesis using fin by auto
qed

lemma asym_certificatesD:
  assumes "asym_certificates c scert sk rcert rk thumb" "rcert \<noteq> []" "42 < sk" "42 < rk"
  shows "key_bytes c scert = Inr sk" "key_bytes c rcert = Inr rk" "mu_certificate_thumbprint c rcert = Inr thumb"
proof -
  from assms(1) obtain kb tp where
    kb: "get_certificate_key_bits c = Some kb" "kb scert = Inr (8 * sk)" "kb rcert = Inr (8 * rk)" and
    tp: "get_certificate_thumbprint c = Some tp" "tp rcert = Inr thumb"
    by (auto simp: asym_certificates_def)
  show "key_bytes c scert = Inr sk" "key_bytes c rcert = Inr rk"
    using kb assms(3,4) by (simp_all add: key_bytes_def MU_OAEP_SHA1_OVERHEAD_def)
  show "mu_certificate_thumbprint c rcert = Inr thumb" using tp assms(2) by (simp add: mu_certificate_thumbprint_def)
qed

lemma asym_certificate_valid:
  assumes "asym_certificates c scert sk rcert rk thumb" "is_secured_policy policy" "scert \<noteq> []" "256 \<le> sk" "sk \<le> 512"
  shows "mu_certificate_validate c policy (Some scert) = MU_STATUS_GOOD"
proof -
  from assms(1) obtain kb vv where
    "get_certificate_key_bits c = Some kb" "kb scert = Inr (8 * sk)"
    "verify_certificate_validity c = Some vv" "vv scert = MU_STATUS_GOOD"
    by (auto simp: asym_certificates_def)
  then show ?thesis using assms(2-5)
    by (auto simp: mu_certificate_validate_def MU_B256S256_MIN_ASYMMETRIC_KEY_BITS_def
        MU_B256S256_MAX_ASYMMETRIC_KEY_BITS_def)
qed

lemma secured_policy_uri:
  assumes "is_secured_policy policy"
  obtains uri where "mu_security_policy_uri policy = Some uri" "uri \<noteq> []" "length uri \<le> 64"
    "mu_security_policy_from_uri (Some uri) (length uri) = policy"
proof -
  have "\<exists>u. mu_security_policy_uri policy = Some u \<and> u \<noteq> [] \<and> length u \<le> 64"
    using assms by (auto simp: is_secured_policy_def mu_security_policy_uri_def policy_row_def POLICY_TABLE_def ascii_def)
  then obtain u where u: "mu_security_policy_uri policy = Some u" "u \<noteq> []" "length u \<le> 64" by blast
  moreover have "mu_security_policy_from_uri (Some u) (length u) = policy"
    using policy_uri_roundtrip [of u policy] u assms by (auto simp: is_secured_policy_def)
  ultimately show thesis using that by blast
qed

text \<open>What the receiver makes of a header followed by the blocks.\<close>

lemma unwrap_secured_accepts:
  assumes "is_secured_policy policy" "mu_security_policy_uri policy = Some uri" "uri \<noteq> []" "length uri \<le> 64"
    "mu_security_policy_from_uri (Some uri) (length uri) = policy"
    and peers: "asym_certificates c scert sk rcert rk thumb" "get_own_certificate c = Some (Inr rcert)"
      "scert \<noteq> []" "length scert \<le> 4096" "rcert \<noteq> []" "length thumb = 20" "256 \<le> sk" "sk \<le> 512" "256 \<le> rk"
    and H: "H = asym_header_bytes uri n scid scert thumb" and n: "n = length H + length cipher" "n < 2 ^ 32"
    and cipher: "length cipher = blocks * rk" "0 < blocks"
    and dec: "decrypt_blocks (unwrap_decrypt c policy) rk blocks cipher [] = Inr plain"
  shows "mu_asym_chunk_unwrap c (H @ cipher @ ys) n cap =
    unwrap_plain c \<lparr>ai_policy = policy, ai_secure_channel_id = scid, ai_sequence_number = 0, ai_request_id = 0,
        ai_sender_cert = Some scert\<rparr> scert H sk plain cap"
proof -
  let ?ch = "H @ cipher @ ys"
  have start: "take 3 ?ch = OPN" "unat (mu_binary_le_get_u32 (drop 4 ?ch)) = n"
    using n(2) by (simp_all add: H asym_header_bytes_def OPN_def unat_of_nat_small)
  have lenH: "24 \<le> length H" by (simp add: H length_asym_header)
  have rd: "read_asym_header ((mu_binary_reader_init (Some ?ch) n)\<lparr>rd_position := 8\<rparr>) =
      (Inr \<lparr>ah_channel_id = scid, ah_policy_uri = mk_string uri, ah_sender_cert = mk_string scert,
            ah_receiver_thumb = mk_string thumb\<rparr>,
       (mu_binary_reader_init (Some ?ch) n)\<lparr>rd_position := length H\<rparr>)"
    using assms(4) peers(4,6) n(1) by (intro read_asym_header_bytes [OF _ _ _ H]) simp_all
  have lens: "sint (str_length (mk_string uri)) = int (length uri)" "sint (str_length (mk_string scert)) = int (length scert)"
    using assms(4) peers(4) by (simp_all add: sint_mk_string)
  have data: "str_data (mk_string b) = Some b" "str_length (mk_string b) = of_nat (length b)" for b
    by (simp_all add: mk_string_def)
  have sec: "policy \<noteq> MU_SECURITY_POLICY_NONE_ID" using assms(1) by (auto simp: is_secured_policy_def)
  have thumb: "mu_secure_memeq thumb thumb 20" using peers(6) by (simp add: memeq_iff)
  note keys = asym_certificatesD [OF peers(1) peers(5)]
  have "0 < rk" using peers(9) by simp
  then have blocks: "length cipher \<noteq> 0" "length cipher mod rk = 0" "length cipher div rk = blocks" using cipher by simp_all
  have "unwrap_secured c \<lparr>ai_policy = policy, ai_secure_channel_id = scid, ai_sequence_number = 0, ai_request_id = 0,
        ai_sender_cert = Some scert\<rparr> (mk_string thumb) H cipher cap =
      unwrap_plain c \<lparr>ai_policy = policy, ai_secure_channel_id = scid, ai_sequence_number = 0, ai_request_id = 0,
        ai_sender_cert = Some scert\<rparr> scert H sk plain cap"
    using asym_certificate_valid [OF peers(1) assms(1) peers(3,7,8)] keys peers(2,6,7,9) thumb blocks dec
    by (simp add: unwrap_secured_def Let_def data MU_THUMBPRINT_LENGTH_def)
  moreover have "take (n - length H) (drop (length H) ?ch) = cipher" "take (length H) ?ch = H" using n(1) by simp_all
  ultimately show ?thesis
    using start rd lens data assms(1,3,5) sec lenH n(1) peers(3)
    by (simp add: mu_asym_chunk_unwrap_def Let_def string_bytes_def)
qed

lemma asym_sizes:
  fixes sk rk nb :: nat and policy :: mu_security_policy_id
  assumes "256 \<le> sk" "sk \<le> 512" "256 \<le> rk" "rk \<le> 512" "nb \<le> 512"
  defines "pb \<equiv> rk - oaep_overhead policy" and "pad \<equiv> asym_pad policy rk sk nb"
  shows "190 \<le> pb" "pad < pb" "pad < 512" "9 + nb + pad + sk \<le> 1545"
    "(9 + nb + pad + sk) div pb * pb = 9 + nb + pad + sk" "0 < (9 + nb + pad + sk) div pb"
    "(9 + nb + pad + sk) div pb * rk \<le> 3090"
proof -
  have "oaep_overhead policy \<le> 66" "0 < oaep_overhead policy" by (simp_all add: oaep_overhead_def MU_OAEP_SHA1_OVERHEAD_def)
  then have pb: "190 \<le> pb" "pb < 512" "rk \<le> 2 * pb" using assms(3,4) by (auto simp: pb_def)
  have pad: "(9 + nb + pad + sk) mod pb = 0" "pad < pb"
    using asym_pad_blocks(1) [of rk policy nb sk] asym_pad_blocks(2) [of rk policy sk nb] pb(1)
    by (simp_all add: pad_def pb_def ac_simps)
  show "190 \<le> pb" "pad < pb" "pad < 512" using pb pad by simp_all
  show el: "9 + nb + pad + sk \<le> 1545" using pad pb assms(2,5) by simp
  show mult: "(9 + nb + pad + sk) div pb * pb = 9 + nb + pad + sk" using pad(1) by auto
  then show "0 < (9 + nb + pad + sk) div pb" by (metis add_gr_0 gr0I mult_0 zero_less_numeral)
  have "(9 + nb + pad + sk) div pb * rk \<le> (9 + nb + pad + sk) div pb * (2 * pb)" by (rule mult_le_mono2 [OF pb(3)])
  also have "\<dots> = 2 * (9 + nb + pad + sk)" using mult by (simp only: mult.left_commute [of _ 2])
  also have "\<dots> \<le> 3090" using el by simp
  finally show "(9 + nb + pad + sk) div pb * rk \<le> 3090" .
qed

lemma asym_chunk_delivers:
  assumes sec: "is_secured_policy policy" and peers: "asym_peers policy cs cr scert sk rcert rk thumb"
    and "length scert \<le> 2048" "length body \<le> 512" "8192 \<le> cap" "cap \<le> length out"
    and pad: "pad = asym_pad policy rk sk (length body)" and rcap: "length body + (pad - pad mod 256) \<le> rcap"
  shows "\<exists>n ch. mu_asym_chunk_wrap cs policy scid seq rid (Some rcert) body out cap = (Inr n, ch) \<and> n \<le> cap \<and>
    mu_asym_chunk_unwrap cr ch n rcap =
      Inr (\<lparr>ai_policy = policy, ai_secure_channel_id = scid, ai_sequence_number = seq, ai_request_id = rid,
            ai_sender_cert = Some scert\<rparr>, body @ replicate (pad - pad mod 256) (of_nat pad))"
proof -
  note peers = peers [unfolded asym_peers_def]
  obtain uri where uri: "mu_security_policy_uri policy = Some uri" "uri \<noteq> []" "length uri \<le> 64"
      "mu_security_policy_from_uri (Some uri) (length uri) = policy"
    using secured_policy_uri [OF sec] by blast
  define pb where "pb = rk - oaep_overhead policy"
  define blocks where "blocks = (9 + length body + pad + sk) div pb"
  define H where "H = (\<lambda>n. asym_header_bytes uri n scid scert thumb)"
  define n where "n = length (H 0) + blocks * rk"
  define P where "P = asym_presig seq rid body pad"
  note sizes = asym_sizes [of sk rk "length body" policy, folded pad, folded pb_def, folded blocks_def]
  have hdrs: "asym_header_bytes uri k scid scert thumb = H k" for k by (simp add: H_def)
  have lenH: "length (H k) \<le> 2156" "length (H k) = length (H 0)" for k
    using uri(3) assms(3) peers by (auto simp: H_def length_asym_header)
  have fits: "n \<le> cap" "n < 2 ^ 32" "length (H 0) + (9 + length body + pad) \<le> MU_ASYM_SIGNED_INPUT_MAX"
      "length P \<le> length (drop (length (H 0)) out)" "9 + length body + pad + sk \<le> MU_ASYM_MAX_PLAINTEXT"
    using sizes(3,4,7) lenH(1) [of 0] assms(4-6) peers
    by (simp_all add: n_def P_def MU_ASYM_MAX_PLAINTEXT_def MU_ASYM_SIGNED_INPUT_MAX_def)
  obtain sig where sig: "wrap_sign cs policy (H n @ P) MU_ASYM_SCRATCH = Inr sig" "length sig = sk"
      "unwrap_verify cr policy scert (H n @ P) sig = MU_STATUS_GOOD"
    using peers by blast
  have plain: "length (P @ sig) = blocks * pb" using sig(2) sizes(5) assms(4) peers by (simp add: P_def)
  have block: "\<exists>q. wrap_encrypt cs policy rcert p rk = Inr q \<and> length q = rk \<and> (\<forall>n \<ge> pb. unwrap_decrypt cr policy q n = Inr p)"
    if "length p = pb" for p
    using peers that unfolding pb_def by metis
  obtain cipher where cipher: "encrypt_blocks (wrap_encrypt cs policy rcert) pb rk blocks (P @ sig) = Inr cipher"
      "length cipher = blocks * rk" "decrypt_blocks (unwrap_decrypt cr policy) rk blocks cipher [] = Inr (P @ sig)"
    using blocks_roundtrip [of pb "wrap_encrypt cs policy rcert" rk "unwrap_decrypt cr policy", OF block plain, of "[]"]
      fits(5) sizes(5) assms(4) peers by auto
  have hdr: "write_header policy scid (Some scert) (Some thumb) (mu_binary_writer_init (Some out) cap) =
      (MU_STATUS_GOOD, \<lparr>wr_buffer = Some (H 0 @ drop (length (H 0)) out), wr_length = cap, wr_position = length (H 0),
         wr_status = MU_STATUS_GOOD\<rparr>)"
    unfolding H_def using uri assms(3,5,6) peers lenH [of 0, unfolded H_def] by (intro write_header_bytes) auto
  obtain ys where wrap: "wrap_secured cs policy seq rid rcert body sk rk (length (H 0)) (H 0 @ drop (length (H 0)) out) cap =
      (Inr n, H n @ cipher @ ys)"
    using wrap_secured_bytes [of body policy rk sk uri scid scert thumb cap "drop (length (H 0)) out" seq rid cs sig rcert cipher]
      fits sig(1,2) cipher(1) assms(6) peers
    unfolding P_def pad [symmetric] pb_def [symmetric] blocks_def [symmetric] hdrs n_def [symmetric] by auto
  have certs: "key_bytes cs scert = Inr sk" "key_bytes cs rcert = Inr rk" "mu_certificate_thumbprint cs rcert = Inr thumb"
    using asym_certificatesD [of cs scert sk rcert rk thumb] peers by auto
  have "mu_asym_chunk_wrap cs policy scid seq rid (Some rcert) body out cap = (Inr n, H n @ cipher @ ys)"
    using sec certs hdr wrap peers by (auto simp: mu_asym_chunk_wrap_def is_secured_policy_def)
  moreover have "mu_asym_chunk_unwrap cr (H n @ cipher @ ys) n rcap =
      unwrap_plain cr \<lparr>ai_policy = policy, ai_secure_channel_id = scid, ai_sequence_number = 0, ai_request_id = 0,
        ai_sender_cert = Some scert\<rparr> scert (H n) sk (P @ sig) rcap"
    using peers lenH(2) [of n] fits(2) cipher(2,3) sizes(6) assms(4)
    by (intro unwrap_secured_accepts [OF sec uri, where rcert = rcert and rk = rk and thumb = thumb]) (auto simp: H_def n_def)
  moreover have "unwrap_plain cr \<lparr>ai_policy = policy, ai_secure_channel_id = scid, ai_sequence_number = 0, ai_request_id = 0,
        ai_sender_cert = Some scert\<rparr> scert (H n) sk (P @ sig) rcap =
      Inr (\<lparr>ai_policy = policy, ai_secure_channel_id = scid, ai_sequence_number = 0, ai_request_id = 0,
        ai_sender_cert = Some scert\<rparr>\<lparr>ai_sequence_number := seq, ai_request_id := rid\<rparr>,
        body @ replicate (pad - pad mod 256) (of_nat pad))"
    using fits(3) lenH(2) [of n] sig(2,3) rcap by (intro unwrap_plain_presig) (simp_all add: P_def)
  ultimately show ?thesis using fits(1) by (intro exI [of _ n] exI [of _ "H n @ cipher @ ys"]) simp
qed

lemma put_get_u32_bytes:
  "mu_binary_le_put_u32 (mu_binary_le_get_u32 (a # b # c # d # rest)) = [a, b, c, d]"
proof -
  let ?v = "mu_binary_le_get_u32 (a # b # c # d # rest)"
  have "ucast ?v = a"
    by (rule bit_word_eqI) (simp add: mu_binary_le_get_u32_def bit_simps)
  moreover have "ucast (drop_bit 8 ?v) = b"
    by (rule bit_word_eqI) (auto simp: mu_binary_le_get_u32_def bit_simps dest: bit_imp_le_length)
  moreover have "ucast (drop_bit 16 ?v) = c"
    by (rule bit_word_eqI) (auto simp: mu_binary_le_get_u32_def bit_simps dest: bit_imp_le_length)
  moreover have "ucast (drop_bit 24 ?v) = d"
    by (rule bit_word_eqI) (auto simp: mu_binary_le_get_u32_def bit_simps dest: bit_imp_le_length)
  ultimately show ?thesis by (simp add: mu_binary_le_put_u32_def)
qed

lemma put_get_u32:
  assumes "4 \<le> length bs"
  shows "mu_binary_le_put_u32 (mu_binary_le_get_u32 bs) = take 4 bs"
proof -
  obtain a b c d rest where "bs = a # b # c # d # rest"
    using assms by (auto simp: numeral_eq_Suc Suc_le_length_iff)
  then show ?thesis by (simp add: put_get_u32_bytes)
qed

text \<open>An accepted plain text is a sequence header, the body and its padding, and the
  signature over the header and all of them verified.\<close>

lemma unwrap_plain_sound:
  assumes "unwrap_plain c info scert header sig_len plain cap = Inr (info', body)"
  shows "\<exists>pad sig. unwrap_verify c (ai_policy info) scert
      (header @ asym_presig (ai_sequence_number info') (ai_request_id info') body pad) sig = MU_STATUS_GOOD \<and>
    pad < 256 \<and> length body \<le> cap \<and> ai_policy info' = ai_policy info \<and>
    ai_secure_channel_id info' = ai_secure_channel_id info \<and> ai_sender_cert info' = ai_sender_cert info"
proof -
  define n where "n = length plain - sig_len"
  define pad where "pad = unat (plain ! (n - 1))"
  note run0 = assms [unfolded unwrap_plain_def Let_def, folded n_def, folded pad_def]
  have run: "\<not> length plain < sig_len + 1 + 8" "\<not> n < pad + 1 + 8"
      "unwrap_verify c (ai_policy info) scert (header @ take n plain) (drop n plain) = MU_STATUS_GOOD"
      "\<not> list_ex (\<lambda>i. unat (plain ! (n - 1 - i)) \<noteq> pad) [1..<pad + 1]" "n - 1 - pad - 8 \<le> cap"
      "info' = info\<lparr>ai_sequence_number := mu_binary_le_get_u32 plain, ai_request_id := mu_binary_le_get_u32 (drop 4 plain)\<rparr>"
      "body = take (n - 1 - pad - 8) (drop 8 plain)"
    using run0 by (simp_all split: if_split_asm del: upt_Suc One_nat_def)
  have len: "9 \<le> n" "n \<le> length plain" using run(1) by (auto simp: n_def)
  have nth: "plain ! (n - 1 - i) = of_nat pad" if "i \<le> pad" for i
  proof (cases i)
    case (Suc j)
    then have "unat (plain ! (n - 1 - i)) = pad" using run(4) that by (auto simp: list_ex_iff simp del: upt_Suc)
    then show ?thesis by (metis of_nat_unat ucast_id)
  qed (simp add: pad_def)
  obtain k where k: "n = 9 + k + pad" "n - 1 - pad - 8 = k" using run(2) by (intro that [of "n - 9 - pad"]) auto
  have tail: "take (1 + pad) (drop (8 + k) plain) = replicate (1 + pad) (of_nat pad)"
  proof (rule nth_equalityI)
    show "length (take (1 + pad) (drop (8 + k) plain)) = length (replicate (1 + pad) (of_nat pad :: byte))"
      using len(2) k(1) by simp
    fix j assume "j < length (take (1 + pad) (drop (8 + k) plain))"
    then have j: "j \<le> pad" by simp
    have "n - 1 - (pad - j) = 8 + k + j" using j k(1) by simp
    then show "take (1 + pad) (drop (8 + k) plain) ! j = replicate (1 + pad) (of_nat pad) ! j"
      using nth [of "pad - j"] j len(2) k(1) by (simp add: add.assoc del: replicate_Suc)
  qed
  have "take n plain = take 4 plain @ take 4 (drop 4 plain) @ take k (drop 8 plain) @ take (1 + pad) (drop (8 + k) plain)"
  proof -
    have "n = 4 + (4 + (k + (1 + pad)))" using k(1) by simp
    then show ?thesis by (simp only: take_add drop_drop) (simp add: ac_simps)
  qed
  then have "take n plain = asym_presig (ai_sequence_number info') (ai_request_id info') body pad"
    unfolding asym_presig_def tail using run(6,7) k len by (simp add: put_get_u32)
  moreover have "pad < 256" unfolding pad_def by (rule order.strict_trans2 [OF unsigned_less]) simp
  ultimately show ?thesis using run(3,5,6,7) k(2) by auto
qed

lemma unwrap_secured_sound:
  assumes "unwrap_secured c info receiver_thumb header cipher cap = Inr (info', body)"
  shows "\<exists>own thumb pad sig.
    mu_certificate_validate c (ai_policy info) (ai_sender_cert info) = MU_STATUS_GOOD \<and>
    the (get_own_certificate c) = Inr own \<and> mu_certificate_thumbprint c own = Inr thumb \<and>
    mu_secure_memeq (the (str_data receiver_thumb)) thumb MU_THUMBPRINT_LENGTH \<and>
    unwrap_verify c (ai_policy info) (the (ai_sender_cert info)) (header @
      asym_presig (ai_sequence_number info') (ai_request_id info') body pad) sig = MU_STATUS_GOOD \<and> pad < 256 \<and>
    ai_policy info' = ai_policy info \<and> ai_sender_cert info' = ai_sender_cert info"
proof -
  from assms obtain own thumb sig_len plain where
    "mu_certificate_validate c (ai_policy info) (ai_sender_cert info) = MU_STATUS_GOOD"
    "the (get_own_certificate c) = Inr own" "mu_certificate_thumbprint c own = Inr thumb"
    "mu_secure_memeq (the (str_data receiver_thumb)) thumb MU_THUMBPRINT_LENGTH" and
    plain: "unwrap_plain c info (the (ai_sender_cert info)) header sig_len plain cap = Inr (info', body)"
    unfolding unwrap_secured_def Let_def by (auto split: if_split_asm sum.split_asm)
  then show ?thesis using unwrap_plain_sound [OF plain] by blast
qed

lemma validated_certificate_present:
  "mu_certificate_validate c policy cert = MU_STATUS_GOOD \<Longrightarrow> policy \<noteq> MU_SECURITY_POLICY_NONE_ID \<Longrightarrow> \<exists>b. cert = Some b"
  by (cases cert) (auto simp: mu_certificate_validate_def split: option.splits if_splits)

text \<open>C2: an OPN chunk that is accepted under a policy other than None is authentic and meant
  for this server: its sender certificate passed validation, the receiver thumbprint in
  its header is that of the server's own certificate, and the signature of the
  certificate's holder verified over the clear-text header followed by exactly the
  sequence number, request id and body that are delivered, with their padding.\<close>

theorem asym_unwrap_authentic:
  assumes "mu_asym_chunk_unwrap c chunk len cap = Inr (info, body)" "ai_policy info \<noteq> MU_SECURITY_POLICY_NONE_ID"
  shows "\<exists>scert own thumb h r pad sig.
    ai_sender_cert info = Some scert \<and> mu_certificate_validate c (ai_policy info) (Some scert) = MU_STATUS_GOOD \<and>
    the (get_own_certificate c) = Inr own \<and> mu_certificate_thumbprint c own = Inr thumb \<and>
    read_asym_header ((mu_binary_reader_init (Some chunk) (unat (mu_binary_le_get_u32 (drop 4 chunk))))\<lparr>rd_position := 8\<rparr>) = (Inr h, r) \<and>
    mu_secure_memeq (the (str_data (ah_receiver_thumb h))) thumb MU_THUMBPRINT_LENGTH \<and>
    unwrap_verify c (ai_policy info) scert (take (rd_position r) chunk @
      asym_presig (ai_sequence_number info) (ai_request_id info) body pad) sig = MU_STATUS_GOOD \<and> pad < 256"
proof -
  let ?m = "unat (mu_binary_le_get_u32 (drop 4 chunk))"
  obtain h r where hr: "read_asym_header ((mu_binary_reader_init (Some chunk) ?m)\<lparr>rd_position := 8\<rparr>) = (Inr h, r)"
    using assms(1) unfolding mu_asym_chunk_unwrap_def Let_def by (auto split: if_split_asm prod.split_asm sum.split_asm)
  define i where "i = \<lparr>ai_policy = mu_security_policy_from_uri (str_data (ah_policy_uri h))
          (if 0 < sint (str_length (ah_policy_uri h)) then nat (sint (str_length (ah_policy_uri h))) else 0),
        ai_secure_channel_id = ah_channel_id h, ai_sequence_number = 0, ai_request_id = 0,
        ai_sender_cert = string_bytes (ah_sender_cert h)\<rparr>"
  have "unwrap_secured c i (ah_receiver_thumb h) (take (rd_position r) chunk)
      (take (?m - rd_position r) (drop (rd_position r) chunk)) cap = Inr (info, body)"
    using assms hr unfolding mu_asym_chunk_unwrap_def Let_def i_def by (auto split: if_split_asm)
  from unwrap_secured_sound [OF this] assms(2) hr show ?thesis
    using validated_certificate_present [of c "ai_policy i" "ai_sender_cert i"] by (metis option.sel)
qed

text \<open>C33: whatever OPN response the server protects, the peer recovers: with adapters that
  behave as documented and a receiver key whose plain-text block is at most 256 bytes
  (a 2048-bit key), unwrapping the wrapped chunk gives back the body, the sequence number,
  the request and channel ids, the policy and the sender certificate.\<close>

theorem asym_chunk_roundtrip:
  assumes "is_secured_policy policy" "asym_peers policy cs cr scert sk rcert rk thumb"
    and "rk - oaep_overhead policy \<le> 256"
    and "length scert \<le> 2048" "length body \<le> 512" "8192 \<le> cap" "cap \<le> length out" "length body \<le> rcap"
  shows "\<exists>n ch. mu_asym_chunk_wrap cs policy scid seq rid (Some rcert) body out cap = (Inr n, ch) \<and> n \<le> cap \<and>
    mu_asym_chunk_unwrap cr ch n rcap =
      Inr (\<lparr>ai_policy = policy, ai_secure_channel_id = scid, ai_sequence_number = seq, ai_request_id = rid,
            ai_sender_cert = Some scert\<rparr>, body)"
proof -
  have "asym_pad policy rk sk (length body) < rk - oaep_overhead policy"
    using asym_sizes(2) [of sk rk "length body" policy] assms(2,5) by (simp add: asym_peers_def)
  then have "asym_pad policy rk sk (length body) mod 256 = asym_pad policy rk sk (length body)" using assms(3) by simp
  then show ?thesis using asym_chunk_delivers [OF assms(1,2,4-7) refl, of rcap] assms(8) by simp
qed

text \<open>C34: with a larger receiver key (3072 or 4096 bits) a padding of 256 bytes or more does
  not fit the one-byte size field, and there is no second size byte: the signed and
  encrypted chunk is accepted, but the peer takes a multiple of 256 padding bytes for
  the end of the body.\<close>

theorem asym_long_padding_leaks:
  assumes "is_secured_policy policy" "asym_peers policy cs cr scert sk rcert rk thumb"
    and "pad = asym_pad policy rk sk (length body)" "256 \<le> pad"
    and "length scert \<le> 2048" "length body \<le> 512" "8192 \<le> cap" "cap \<le> length out" "length body + pad \<le> rcap"
  shows "\<exists>n ch info stray. mu_asym_chunk_wrap cs policy scid seq rid (Some rcert) body out cap = (Inr n, ch) \<and>
    mu_asym_chunk_unwrap cr ch n rcap = Inr (info, body @ stray) \<and> length stray = 256 * (pad div 256) \<and> stray \<noteq> []"
proof -
  have "length body + (pad - pad mod 256) \<le> rcap" using assms(9) by simp
  then obtain n ch where "mu_asym_chunk_wrap cs policy scid seq rid (Some rcert) body out cap = (Inr n, ch)"
      "mu_asym_chunk_unwrap cr ch n rcap =
      Inr (\<lparr>ai_policy = policy, ai_secure_channel_id = scid, ai_sequence_number = seq, ai_request_id = rid,
            ai_sender_cert = Some scert\<rparr>, body @ replicate (pad - pad mod 256) (of_nat pad))"
    using asym_chunk_delivers [OF assms(1,2,5-8,3)] by blast
  moreover have "pad - pad mod 256 = 256 * (pad div 256)" by (simp add: minus_mod_eq_mult_div)
  moreover have "0 < pad div 256" using assms(4) by (simp add: div_greater_zero_iff)
  ultimately show ?thesis by auto
qed

section \<open>Witnesses\<close>

lemma toy_peers:
  "asym_peers MU_SECURITY_POLICY_BASIC256SHA256_ID toy_crypto toy_crypto [0x30, 0x82] 256 [0x30, 0x82] 256 (replicate 20 0xB2)"
  by (simp add: asym_peers_def asym_certificates_def toy_crypto_def wrap_sign_def unwrap_verify_def wrap_encrypt_def
      unwrap_decrypt_def oaep_overhead_def MU_OAEP_SHA1_OVERHEAD_def toy_signature_def)

lemma toy_peers_4096:
  "asym_peers MU_SECURITY_POLICY_BASIC256SHA256_ID toy_crypto_4096 toy_crypto_4096 [0x30, 0x82] 512 [0x30, 0x82] 512 (replicate 20 0xB2)"
  by (simp add: asym_peers_def asym_certificates_def toy_crypto_4096_def toy_crypto_def wrap_sign_def unwrap_verify_def
      wrap_encrypt_def unwrap_decrypt_def oaep_overhead_def MU_OAEP_SHA1_OVERHEAD_def)

lemma basic_secured [simp]: "is_secured_policy MU_SECURITY_POLICY_BASIC256SHA256_ID"
  by (simp add: is_secured_policy_def)

theorem asym_chunk_roundtrip_witness:
  "\<exists>n ch. mu_asym_chunk_wrap toy_crypto MU_SECURITY_POLICY_BASIC256SHA256_ID 1 2 3 (Some [0x30, 0x82]) [7, 8]
      (replicate 8192 0) 8192 = (Inr n, ch) \<and> n \<le> 8192 \<and>
    mu_asym_chunk_unwrap toy_crypto ch n 1024 =
      Inr (\<lparr>ai_policy = MU_SECURITY_POLICY_BASIC256SHA256_ID, ai_secure_channel_id = 1, ai_sequence_number = 2,
            ai_request_id = 3, ai_sender_cert = Some [0x30, 0x82]\<rparr>, [7, 8])"
  by (rule asym_chunk_roundtrip [OF _ toy_peers]) (simp_all add: oaep_overhead_def MU_OAEP_SHA1_OVERHEAD_def)

theorem asym_long_padding_leaks_witness:
  "\<exists>n ch info stray. mu_asym_chunk_wrap toy_crypto_4096 MU_SECURITY_POLICY_BASIC256SHA256_ID 1 2 3 (Some [0x30, 0x82]) [7, 8]
      (replicate 8192 0) 8192 = (Inr n, ch) \<and>
    mu_asym_chunk_unwrap toy_crypto_4096 ch n 1024 = Inr (info, [7, 8] @ stray) \<and> length stray = 256 * (417 div 256) \<and> stray \<noteq> []"
  by (rule asym_long_padding_leaks [OF _ toy_peers_4096])
     (simp_all add: asym_pad_def Let_def oaep_overhead_def MU_OAEP_SHA1_OVERHEAD_def)

theorem asym_unwrap_authentic_witness:
  "\<exists>n ch info. mu_asym_chunk_unwrap toy_crypto ch n 1024 = Inr (info, [7, 8]) \<and>
    (\<exists>scert own thumb h r pad sig.
      ai_sender_cert info = Some scert \<and> mu_certificate_validate toy_crypto (ai_policy info) (Some scert) = MU_STATUS_GOOD \<and>
      the (get_own_certificate toy_crypto) = Inr own \<and> mu_certificate_thumbprint toy_crypto own = Inr thumb \<and>
      read_asym_header ((mu_binary_reader_init (Some ch) (unat (mu_binary_le_get_u32 (drop 4 ch))))\<lparr>rd_position := 8\<rparr>) = (Inr h, r) \<and>
      mu_secure_memeq (the (str_data (ah_receiver_thumb h))) thumb MU_THUMBPRINT_LENGTH \<and>
      unwrap_verify toy_crypto (ai_policy info) scert (take (rd_position r) ch @
        asym_presig (ai_sequence_number info) (ai_request_id info) [7, 8] pad) sig = MU_STATUS_GOOD \<and> pad < 256)"
proof -
  obtain n ch where acc: "mu_asym_chunk_unwrap toy_crypto ch n 1024 =
      Inr (\<lparr>ai_policy = MU_SECURITY_POLICY_BASIC256SHA256_ID, ai_secure_channel_id = 1, ai_sequence_number = 2,
            ai_request_id = 3, ai_sender_cert = Some [0x30, 0x82]\<rparr>, [7, 8])"
    using asym_chunk_delivers [OF basic_secured toy_peers, of "[7, 8]" 8192 "replicate 8192 0" 161 1024 1 2 3]
    by (auto simp: asym_pad_def Let_def oaep_overhead_def MU_OAEP_SHA1_OVERHEAD_def)
  show ?thesis
    by (rule exI [of _ n], rule exI [of _ ch], rule exI, rule conjI [OF acc asym_unwrap_authentic [OF acc]]) simp
qed

end
