(* ===== verification/Secure_Channel.thy ===== *)
theory Secure_Channel
  imports Sym_Chunk
begin

text \<open>
  The secure channel of \<^verbatim>\<open>src/services/secure_channel.c\<close>: opening, renewing and
  closing.  The channel's policy is set by the server from the OPN chunk before
  \<^verbatim>\<open>mu_secure_channel_open\<close> is called.  The step relation \<open>channel_step\<close> collects
  the operations on one connection's channel and the lemmas give the invariant of every
  reachable channel.
\<close>

record mu_secure_channel =
  channel_id :: u32
  token_id :: u32
  created_at :: u32
  revised_lifetime :: u32
  sc_sequence :: mu_sequence_validator
  out_sequence_number :: u32
  is_open :: bool
  sc_policy :: mu_security_policy_id
  ch_mode :: mu_message_security_mode
  client_keys :: mu_sym_keys
  server_keys :: mu_sym_keys
  keys_valid :: bool

definition requested_policy_id :: "mu_string option \<Rightarrow> mu_security_policy_id" where
  "requested_policy_id security_policy =
    (case security_policy of
       None \<Rightarrow> MU_SECURITY_POLICY_NONE_ID
     | Some s \<Rightarrow>
         if sint (str_length s) \<le> 0 then MU_SECURITY_POLICY_NONE_ID
         else if str_data s = None then MU_SECURITY_POLICY_INVALID_ID
         else mu_security_policy_from_uri (str_data s) (nat (sint (str_length s))))"

definition is_valid_security_mode :: "mu_message_security_mode \<Rightarrow> bool" where
  "is_valid_security_mode mode \<longleftrightarrow> mode = MU_MESSAGE_SECURITY_MODE_NONE \<or> mode = MU_MESSAGE_SECURITY_MODE_SIGN \<or>
     mode = MU_MESSAGE_SECURITY_MODE_SIGN_AND_ENCRYPT"

text \<open>Every field is set, so the result does not depend on the channel before.\<close>

definition mu_secure_channel_init :: mu_secure_channel where
  "mu_secure_channel_init = \<lparr>channel_id = 0, token_id = 0, created_at = 0, revised_lifetime = 0,
     sc_sequence = mu_sequence_validator_init, out_sequence_number = 0, is_open = False,
     sc_policy = MU_SECURITY_POLICY_NONE_ID, ch_mode = MU_MESSAGE_SECURITY_MODE_NONE,
     client_keys = zero_keys, server_keys = zero_keys, keys_valid = False\<rparr>"

definition channel_lifetime :: "u32 \<Rightarrow> u32" where
  "channel_lifetime requested =
    (let lifetime = (if requested < 10000 then 10000 else requested) in
     if 3600000 < lifetime then 3600000 else lifetime)"

definition mu_secure_channel_open ::
    "mu_secure_channel \<Rightarrow> mu_string option \<Rightarrow> mu_message_security_mode \<Rightarrow> u32
     \<Rightarrow> (statuscode + u32) \<times> mu_secure_channel" where
  "mu_secure_channel_open channel security_policy security_mode requested_lifetime =
    (let requested_policy = requested_policy_id security_policy in
     if requested_policy = MU_SECURITY_POLICY_INVALID_ID then (Inl MU_STATUS_BAD_SECURITYPOLICYREJECTED, channel)
     else if \<not> is_valid_security_mode security_mode then (Inl MU_STATUS_BAD_SECURITYMODEREJECTED, channel)
     else
     let refusal =
       (if sc_policy channel = MU_SECURITY_POLICY_NONE_ID then
          (if requested_policy \<noteq> MU_SECURITY_POLICY_NONE_ID then Some MU_STATUS_BAD_SECURITYPOLICYREJECTED
           else if security_mode \<noteq> MU_MESSAGE_SECURITY_MODE_NONE then Some MU_STATUS_BAD_SECURITYMODEREJECTED
           else None)
        else if sc_policy channel = MU_SECURITY_POLICY_BASIC256SHA256_ID \<or>
                sc_policy channel = MU_SECURITY_POLICY_AES128_SHA256_RSAOAEP_ID \<or>
                sc_policy channel = MU_SECURITY_POLICY_AES256_SHA256_RSAPSS_ID then
          (if requested_policy \<noteq> sc_policy channel then Some MU_STATUS_BAD_SECURITYPOLICYREJECTED
           else if security_mode = MU_MESSAGE_SECURITY_MODE_NONE then Some MU_STATUS_BAD_SECURITYMODEREJECTED
           else None)
        else Some MU_STATUS_BAD_SECURITYPOLICYREJECTED) in
     case refusal of
       Some s \<Rightarrow> (Inl s, channel)
     | None \<Rightarrow>
         let channel = (if \<not> is_open channel then channel\<lparr>channel_id := 1, token_id := 1, is_open := True\<rparr>
                        else channel\<lparr>token_id := token_id channel + 1\<rparr>);
             lifetime = channel_lifetime requested_lifetime in
         (Inr lifetime, channel\<lparr>revised_lifetime := lifetime, ch_mode := security_mode\<rparr>))"

definition mu_secure_channel_close :: "mu_secure_channel \<Rightarrow> statuscode \<times> mu_secure_channel" where
  "mu_secure_channel_close channel =
    (if \<not> is_open channel then (MU_STATUS_BAD_TCPSECURECHANNELUNKNOWN, channel)
     else (MU_STATUS_GOOD, mu_secure_channel_init))"

section \<open>Steps and invariant\<close>

text \<open>The operations on the channel of one connection.  The server sets the policy of
  the channel from the header of every OPN chunk, open or not.\<close>

inductive channel_step :: "mu_secure_channel \<Rightarrow> mu_secure_channel \<Rightarrow> bool" where
  set_policy: "channel_step c (c\<lparr>sc_policy := p\<rparr>)"
| open_channel: "mu_secure_channel_open c s m l = (r, c') \<Longrightarrow> channel_step c c'"
| close_channel: "mu_secure_channel_close c = (r, c') \<Longrightarrow> channel_step c c'"
| receive: "mu_sequence_validate (sc_sequence c) n = (s, v) \<Longrightarrow> channel_step c (c\<lparr>sc_sequence := v\<rparr>)"
| send: "channel_step c (c\<lparr>out_sequence_number := out_sequence_number c + 1\<rparr>)"

inductive channel_reachable :: "mu_secure_channel \<Rightarrow> bool" where
  initial: "channel_reachable mu_secure_channel_init"
| step: "channel_reachable c \<Longrightarrow> channel_step c c' \<Longrightarrow> channel_reachable c'"

definition channel_inv :: "mu_secure_channel \<Rightarrow> bool" where
  "channel_inv c \<longleftrightarrow>
     (if is_open c then channel_id c = 1 \<and> 10000 \<le> revised_lifetime c \<and> revised_lifetime c \<le> 3600000 \<and>
        is_valid_security_mode (ch_mode c)
      else channel_id c = 0 \<and> token_id c = 0 \<and> revised_lifetime c = 0)"

section \<open>Lemmas\<close>

lemma channel_lifetime_bounds: "10000 \<le> channel_lifetime r \<and> channel_lifetime r \<le> 3600000"
  by (auto simp: channel_lifetime_def Let_def not_less)

lemma channel_open_cases:
  assumes "mu_secure_channel_open c s m l = (r, c')"
  shows "(\<exists>e. r = Inl e \<and> c' = c) \<or>
    (r = Inr (channel_lifetime l) \<and> is_valid_security_mode m \<and> requested_policy_id s = sc_policy c \<and>
     sc_policy c \<noteq> MU_SECURITY_POLICY_INVALID_ID \<and>
     (sc_policy c = MU_SECURITY_POLICY_NONE_ID \<longleftrightarrow> m = MU_MESSAGE_SECURITY_MODE_NONE) \<and>
     c' = (if is_open c then c\<lparr>token_id := token_id c + 1\<rparr> else c\<lparr>channel_id := 1, token_id := 1, is_open := True\<rparr>)
            \<lparr>revised_lifetime := channel_lifetime l, ch_mode := m\<rparr>)"
  using assms by (auto simp: mu_secure_channel_open_def Let_def split: if_splits)

lemma channel_step_inv: "channel_step c c' \<Longrightarrow> channel_inv c \<Longrightarrow> channel_inv c'"
proof (induction rule: channel_step.induct)
  case (open_channel c s m l r c')
  then show ?case
    using channel_open_cases [OF open_channel(1)] channel_lifetime_bounds [of l]
    by (auto simp: channel_inv_def split: if_splits)
next
  case (close_channel c r c')
  then show ?case by (auto simp: mu_secure_channel_close_def channel_inv_def mu_secure_channel_init_def split: if_splits)
qed (auto simp: channel_inv_def split: if_splits)




end
