(* ===== verification/Session.thy ===== *)
theory Session
  imports Binary_Values
begin

text \<open>
  The session table of \<^verbatim>\<open>src/services/session.c\<close>: timeouts, identifier generation,
  and the session state machine, for a build with several connections.  Sessions are the
  entries of a list, a pointer to a session is its index.  The entropy source is a
  parameter: from a length it gives a status or that many bytes.
\<close>

section \<open>Timeouts\<close>

abbreviation MU_SESSION_TIMEOUT_MIN_BITS :: u64 where "MU_SESSION_TIMEOUT_MIN_BITS \<equiv> 0x40c3880000000000"
abbreviation MU_SESSION_TIMEOUT_MAX_BITS :: u64 where "MU_SESSION_TIMEOUT_MAX_BITS \<equiv> 0x414b774000000000"
abbreviation MU_DOUBLE_SIGN_BIT :: u64 where "MU_DOUBLE_SIGN_BIT \<equiv> 0x8000000000000000"

definition clamp_timeout_bits :: "u64 \<Rightarrow> u64" where
  "clamp_timeout_bits bits =
    (if bits AND MU_DOUBLE_SIGN_BIT \<noteq> 0 then MU_SESSION_TIMEOUT_MIN_BITS
     else if bits < MU_SESSION_TIMEOUT_MIN_BITS then MU_SESSION_TIMEOUT_MIN_BITS
     else if MU_SESSION_TIMEOUT_MAX_BITS < bits then MU_SESSION_TIMEOUT_MAX_BITS
     else bits)"

definition duration_bits_to_ms :: "u64 \<Rightarrow> u32" where
  "duration_bits_to_ms bits =
    (let exponent = ucast (drop_bit 52 bits AND 0x7FF) :: u32;
         fraction = bits AND 0x000FFFFFFFFFFFFF;
         mantissa = push_bit 52 1 OR fraction;
         unbiased = exponent - 1023 in
     if 52 \<le> unbiased then ucast (push_bit (unat (unbiased - 52)) mantissa)
     else ucast (drop_bit (unat (52 - unbiased)) mantissa))"

section \<open>Sessions\<close>

datatype mu_session_state = MU_SESSION_STATE_CLOSED | MU_SESSION_STATE_CREATED | MU_SESSION_STATE_ACTIVATED

record mu_session =
  ss_state :: mu_session_state
  session_id :: u32
  auth_token :: u32
  revised_session_timeout_ms :: u32
  server_nonce :: "byte list"
  ss_secure_channel_id :: u32

definition MU_MAX_SESSIONS :: nat where "MU_MAX_SESSIONS = 2"

definition mu_session_init :: mu_session where
  "mu_session_init = \<lparr>ss_state = MU_SESSION_STATE_CLOSED, session_id = 0, auth_token = 0,
     revised_session_timeout_ms = 0, server_nonce = replicate 32 0, ss_secure_channel_id = 0\<rparr>"

definition mu_session_find_by_token :: "mu_session list \<Rightarrow> u32 \<Rightarrow> nat option" where
  "mu_session_find_by_token sessions token =
     find_index (\<lambda>s. ss_state s \<noteq> MU_SESSION_STATE_CLOSED \<and> auth_token s = token) sessions"

definition mu_session_find_free :: "mu_session list \<Rightarrow> nat option" where
  "mu_session_find_free sessions = find_index (\<lambda>s. ss_state s = MU_SESSION_STATE_CLOSED) sessions"

definition session_id_active :: "mu_session list \<Rightarrow> u32 \<Rightarrow> bool" where
  "session_id_active sessions i = list_ex (\<lambda>s. ss_state s \<noteq> MU_SESSION_STATE_CLOSED \<and> session_id s = i) sessions"

definition authentication_token_active :: "mu_session list \<Rightarrow> u32 \<Rightarrow> bool" where
  "authentication_token_active sessions token =
     list_ex (\<lambda>s. ss_state s \<noteq> MU_SESSION_STATE_CLOSED \<and> auth_token s = token) sessions"

section \<open>Identifiers\<close>

type_synonym entropy = "nat \<Rightarrow> statuscode + byte list"

definition session_id_candidate :: "u32 \<Rightarrow> nat \<Rightarrow> u32" where
  "session_id_candidate base salt =
    (let candidate = base XOR (0x9E3779B9 * of_nat salt) in
     if candidate = 0 then 0x85EBCA6B XOR of_nat salt else candidate)"

definition auth_token_candidate :: "u32 \<Rightarrow> nat \<Rightarrow> u32" where
  "auth_token_candidate base salt =
    (let candidate = (base XOR 0xA5A5A5A5) + 0x9E3779B9 * of_nat salt in
     if candidate = 0 then 0xC2B2AE35 XOR of_nat salt else candidate)"

definition random_base :: "byte list \<Rightarrow> u32" where
  "random_base random = ucast (random ! 0) OR push_bit 8 (ucast (random ! 1)) OR
     push_bit 16 (ucast (random ! 2)) OR push_bit 24 (ucast (random ! 3))"

definition mu_session_generate_session_id :: "mu_session list \<Rightarrow> entropy option \<Rightarrow> statuscode + u32" where
  "mu_session_generate_session_id sessions entropy =
    (case entropy of None \<Rightarrow> Inl MU_STATUS_BAD_SECURITYCHECKSFAILED
     | Some generate_random \<Rightarrow>
    (case generate_random 4 of
       Inl _ \<Rightarrow> Inl MU_STATUS_BAD_SECURITYCHECKSFAILED
     | Inr random \<Rightarrow>
         (case find (\<lambda>c. \<not> session_id_active sessions c)
                 (map (session_id_candidate (random_base random)) [0..<length sessions + 1]) of
            Some c \<Rightarrow> Inr c
          | None \<Rightarrow> Inl MU_STATUS_BAD_SECURITYCHECKSFAILED)))"

definition mu_session_generate_authentication_token :: "mu_session list \<Rightarrow> entropy option \<Rightarrow> statuscode + u32" where
  "mu_session_generate_authentication_token sessions entropy =
    (case entropy of None \<Rightarrow> Inl MU_STATUS_BAD_SECURITYCHECKSFAILED
     | Some generate_random \<Rightarrow>
    (case generate_random 4 of
       Inl _ \<Rightarrow> Inl MU_STATUS_BAD_SECURITYCHECKSFAILED
     | Inr random \<Rightarrow>
         (case find (\<lambda>c. \<not> authentication_token_active sessions c)
                 (map (auth_token_candidate (random_base random)) [0..<length sessions + 1]) of
            Some c \<Rightarrow> Inr c
          | None \<Rightarrow> Inl MU_STATUS_BAD_SECURITYCHECKSFAILED)))"

definition mu_session_generate_server_nonce :: "entropy option \<Rightarrow> nat \<Rightarrow> statuscode + byte list" where
  "mu_session_generate_server_nonce entropy len =
    (case entropy of None \<Rightarrow> Inl MU_STATUS_BAD_SECURITYCHECKSFAILED
     | Some generate_random \<Rightarrow>
         if len = 0 then Inl MU_STATUS_BAD_SECURITYCHECKSFAILED
         else case generate_random len of
             Inl _ \<Rightarrow> Inl MU_STATUS_BAD_SECURITYCHECKSFAILED
           | Inr nonce \<Rightarrow> Inr nonce)"

section \<open>State machine\<close>

text \<open>The result is the revised timeout; the identifiers that the code also returns are
  the fields of the session.\<close>

definition mu_session_create_with_identifiers ::
    "mu_session \<Rightarrow> u64 \<Rightarrow> u32 \<Rightarrow> u32 \<Rightarrow> u32 \<Rightarrow> (statuscode + u64) \<times> mu_session" where
  "mu_session_create_with_identifiers session requested_timeout_bits sid token channel =
    (if ss_state session \<noteq> MU_SESSION_STATE_CLOSED then (Inl MU_STATUS_BAD_INTERNALERROR, session)
     else let revised = clamp_timeout_bits requested_timeout_bits in
       (Inr revised,
        session\<lparr>session_id := sid, auth_token := token, ss_secure_channel_id := channel,
                revised_session_timeout_ms := duration_bits_to_ms revised, ss_state := MU_SESSION_STATE_CREATED\<rparr>))"

definition mu_session_create :: "mu_session \<Rightarrow> u64 \<Rightarrow> (statuscode + u64) \<times> mu_session" where
  "mu_session_create session requested_timeout_bits =
     mu_session_create_with_identifiers session requested_timeout_bits 1 12345 0"

definition mu_session_validate_secure_channel :: "mu_session \<Rightarrow> u32 \<Rightarrow> statuscode" where
  "mu_session_validate_secure_channel session active_channel =
    (if ss_secure_channel_id session \<noteq> active_channel then MU_STATUS_BAD_SECURECHANNELIDINVALID else MU_STATUS_GOOD)"

definition mu_session_activate :: "mu_session \<Rightarrow> u32 \<Rightarrow> u32 \<Rightarrow> statuscode \<times> mu_session" where
  "mu_session_activate session token encoding_id =
    (if ss_state session \<noteq> MU_SESSION_STATE_CREATED \<and> ss_state session \<noteq> MU_SESSION_STATE_ACTIVATED
     then (MU_STATUS_BAD_SESSIONIDINVALID, session)
     else if auth_token session \<noteq> token then (MU_STATUS_BAD_SESSIONIDINVALID, session)
     else if encoding_id \<noteq> 321 \<and> encoding_id \<noteq> 324 \<and> encoding_id \<noteq> 327
     then (MU_STATUS_BAD_IDENTITYTOKENINVALID, session)
     else (MU_STATUS_GOOD, session\<lparr>ss_state := MU_SESSION_STATE_ACTIVATED\<rparr>))"

definition mu_session_close :: "mu_session \<Rightarrow> u32 \<Rightarrow> bool \<Rightarrow> statuscode \<times> mu_session" where
  "mu_session_close session token delete_subscriptions =
    (if ss_state session = MU_SESSION_STATE_CLOSED then (MU_STATUS_BAD_SESSIONIDINVALID, session)
     else if auth_token session \<noteq> token then (MU_STATUS_BAD_SESSIONIDINVALID, session)
     else (MU_STATUS_GOOD, mu_session_init))"

section \<open>Specification\<close>

text \<open>The value of a positive normal double with unbiased exponent at least zero,
  rounded down.\<close>

definition double_floor :: "u64 \<Rightarrow> nat" where
  "double_floor bits = ((2 ^ 52 + unat bits mod 2 ^ 52) * 2 ^ (unat bits div 2 ^ 52 - 1023)) div 2 ^ 52"

definition active_sessions :: "mu_session list \<Rightarrow> mu_session list" where
  "active_sessions ss = filter (\<lambda>s. ss_state s \<noteq> MU_SESSION_STATE_CLOSED) ss"

text \<open>The operations of the session services on the table.\<close>

inductive session_step :: "mu_session list \<Rightarrow> mu_session list \<Rightarrow> bool" where
  create: "mu_session_find_free ss = Some i \<Longrightarrow> mu_session_generate_session_id ss e1 = Inr sid \<Longrightarrow>
     mu_session_generate_authentication_token ss e2 = Inr token \<Longrightarrow>
     mu_session_create_with_identifiers (ss ! i) bits sid token channel = (Inr revised, s) \<Longrightarrow>
     session_step ss (ss[i := s])"
| nonce: "i < length ss \<Longrightarrow> session_step ss (ss[i := (ss ! i)\<lparr>server_nonce := n\<rparr>])"
| activate: "mu_session_find_by_token ss token = Some i \<Longrightarrow> mu_session_activate (ss ! i) token enc = (r, s) \<Longrightarrow>
     session_step ss (ss[i := s])"
| close: "mu_session_find_by_token ss token = Some i \<Longrightarrow> mu_session_close (ss ! i) token d = (r, s) \<Longrightarrow>
     session_step ss (ss[i := s])"

inductive session_reachable :: "mu_session list \<Rightarrow> bool" where
  start: "session_reachable (replicate MU_MAX_SESSIONS mu_session_init)"
| step: "session_reachable ss \<Longrightarrow> session_step ss ss' \<Longrightarrow> session_reachable ss'"

definition sessions_inv :: "mu_session list \<Rightarrow> bool" where
  "sessions_inv ss \<longleftrightarrow> length ss = MU_MAX_SESSIONS \<and> distinct (map session_id (active_sessions ss)) \<and>
     distinct (map auth_token (active_sessions ss)) \<and>
     (\<forall>s \<in> set (active_sessions ss). session_id s \<noteq> 0 \<and> auth_token s \<noteq> 0 \<and>
        10000 \<le> revised_session_timeout_ms s \<and> revised_session_timeout_ms s \<le> 3600000)"



section \<open>Revised timeouts\<close>

lemma clamp_bounds:
  "MU_SESSION_TIMEOUT_MIN_BITS \<le> clamp_timeout_bits b \<and> clamp_timeout_bits b \<le> MU_SESSION_TIMEOUT_MAX_BITS"
  by (auto simp: clamp_timeout_bits_def not_less)

lemma duration_fields:
  assumes "unat bits < 2 ^ 63" "1023 \<le> unat bits div 2 ^ 52" "unat bits div 2 ^ 52 < 1023 + 52"
  shows "duration_bits_to_ms bits = of_nat ((2 ^ 52 + unat bits mod 2 ^ 52) div 2 ^ (52 - (unat bits div 2 ^ 52 - 1023)))"
proof -
  define e where "e = unat bits div 2 ^ 52"
  have e: "unat (drop_bit 52 bits AND 0x7FF) = e"
  proof -
    have "(0x7FF :: u64) = mask 11" by (simp add: mask_eq_exp_minus_1)
    then have "drop_bit 52 bits AND 0x7FF = take_bit 11 (drop_bit 52 bits)" by (simp add: take_bit_eq_mask)
    then have "unat (drop_bit 52 bits AND 0x7FF) = take_bit 11 (unat bits div 2 ^ 52)"
      by (simp only: unsigned_take_bit_eq unat_drop_bit_eq) (simp add: drop_bit_eq_div)
    also have "\<dots> = e" unfolding e_def using assms(3) by (intro take_bit_nat_eq_self) simp
    finally show ?thesis .
  qed
  have unb: "ucast (drop_bit 52 bits AND 0x7FF) - 1023 = (of_nat (e - 1023) :: u32)"
  proof -
    have "(ucast (drop_bit 52 bits AND 0x7FF) :: u32) = of_nat e" using e by (metis of_nat_unat)
    then show ?thesis using assms(2) unfolding e_def by (simp add: of_nat_diff)
  qed
  have u: "unat (of_nat (e - 1023) :: u32) = e - 1023"
    using assms(3) unfolding e_def by (intro unat_of_nat_small) simp
  have le: "\<not> 52 \<le> (of_nat (e - 1023) :: u32)"
    using u assms(3) unfolding e_def by (simp add: word_le_nat_alt)
  have sub: "unat (52 - of_nat (e - 1023) :: u32) = 52 - (e - 1023)"
    using le u by (subst unat_sub) (auto simp: word_le_nat_alt)
  have frac: "unat (push_bit 52 1 OR (bits AND 0x000FFFFFFFFFFFFF)) = 2 ^ 52 + unat bits mod 2 ^ 52"
  proof -
    have "(0x000FFFFFFFFFFFFF :: u64) = mask 52" by (simp add: mask_eq_exp_minus_1)
    then have f: "bits AND 0x000FFFFFFFFFFFFF = take_bit 52 bits" by (simp add: take_bit_eq_mask)
    have "(2 :: nat) ^ 52 AND take_bit 52 x = 0" for x       by (rule bit_eqI) (auto simp only: bit_and_iff bit_take_bit_iff bit_exp_iff bit_0_eq bot_apply bot_bool_def)
    then have "(2 :: nat) ^ 52 OR take_bit 52 (unat bits) = 2 ^ 52 + take_bit 52 (unat bits)"
      by (simp only: disjunctive_add_eq_or)
    moreover have "unat (push_bit 52 1 :: u64) = 2 ^ 52" by simp
    ultimately show ?thesis unfolding f
      by (simp only: unsigned_or_eq unsigned_take_bit_eq) (simp only: take_bit_eq_mod)
  qed
  have cast: "(ucast w :: u32) = of_nat (unat w)" for w :: u64 by (simp only: of_nat_unat)
  show ?thesis
    unfolding duration_bits_to_ms_def Let_def unb if_not_P [OF le]
    unfolding cast sub unat_drop_bit_eq frac
    unfolding drop_bit_eq_div e_def ..
qed

lemma duration_is_floor:
  assumes "unat bits < 2 ^ 63" "1023 \<le> unat bits div 2 ^ 52" "unat bits div 2 ^ 52 < 1023 + 52"
  shows "duration_bits_to_ms bits = of_nat (double_floor bits)"
proof -
  let ?m = "2 ^ 52 + unat bits mod 2 ^ 52" and ?u = "unat bits div 2 ^ 52 - 1023"
  have "?u < 52" using assms(2,3) by simp
  then have "(2 :: nat) ^ 52 = 2 ^ (52 - ?u) * 2 ^ ?u" by (simp flip: power_add)
  then have "?m * 2 ^ ?u div 2 ^ 52 = ?m div 2 ^ (52 - ?u)" by (metis div_mult_mult2 power_not_zero zero_neq_numeral)
  then show ?thesis using duration_fields [OF assms] by (simp only: double_floor_def)
qed

lemma double_floor_bounds:
  assumes "unat MU_SESSION_TIMEOUT_MIN_BITS \<le> unat b" "unat b \<le> unat MU_SESSION_TIMEOUT_MAX_BITS"
  shows "10000 \<le> double_floor b \<and> double_floor b \<le> 3600000"
proof -
  define e f where "e = unat b div 2 ^ 52" and "f = unat b mod 2 ^ 52"
  have b: "unat b = e * 2 ^ 52 + f" "f < 2 ^ 52" by (simp_all add: e_def f_def)
  have lim: "0x40c3880000000000 \<le> e * 4503599627370496 + f" "e * 4503599627370496 + f \<le> 0x414b774000000000" "f < 4503599627370496"
    using assms b by simp_all
  have cases: "e = 1036 \<or> e = 1037 \<or> e = 1038 \<or> e = 1039 \<or> e = 1040 \<or> e = 1041 \<or> e = 1042 \<or> e = 1043 \<or> e = 1044"
    using lim by linarith
  have "10000 * 4503599627370496 \<le> (4503599627370496 + f) * 2 ^ (e - 1023) \<and>
      (4503599627370496 + f) * 2 ^ (e - 1023) < 3600001 * 4503599627370496"
    using cases lim by (elim disjE) simp_all
  moreover have "10000 * d \<le> x \<Longrightarrow> x < 3600001 * d \<Longrightarrow> 0 < d \<Longrightarrow> 10000 \<le> x div d \<and> x div d \<le> 3600000" for x d :: nat
    using div_le_mono [of "10000 * d" x d] less_mult_imp_div_less [of x 3600001 d] by simp
  ultimately show ?thesis
    unfolding double_floor_def e_def [symmetric] f_def [symmetric] by simp
qed

lemma clamp_timeout_ms:
  defines "r b \<equiv> clamp_timeout_bits b"
  shows "unat (duration_bits_to_ms (r b)) = double_floor (r b)" "10000 \<le> double_floor (r b)" "double_floor (r b) \<le> 3600000"
proof -
  have b: "unat MU_SESSION_TIMEOUT_MIN_BITS \<le> unat (r b)" "unat (r b) \<le> unat MU_SESSION_TIMEOUT_MAX_BITS"
    using clamp_bounds [of b] by (simp_all only: r_def word_le_nat_alt)
  then show bounds: "10000 \<le> double_floor (r b)" "double_floor (r b) \<le> 3600000"
    using double_floor_bounds by blast+
  have "1023 \<le> unat (r b) div 2 ^ 52"
    using div_le_mono [OF b(1), of "2 ^ 52"] by simp
  moreover have "unat (r b) div 2 ^ 52 < 1023 + 52"
    using div_le_mono [OF b(2), of "2 ^ 52"] by simp
  moreover have "unat (r b) < 2 ^ 63" using b(2) by simp
  ultimately have "duration_bits_to_ms (r b) = of_nat (double_floor (r b))" by (intro duration_is_floor)
  then show "unat (duration_bits_to_ms (r b)) = double_floor (r b)"
    using bounds(2) by (simp add: unat_of_nat_small)
qed

section \<open>Fresh identifiers\<close>

text \<open>Three candidates are tried for two session slots; they are pairwise different for
  every random base.\<close>

lemma xor_cancel_left: "(b XOR c = b XOR d) \<longleftrightarrow> (c = (d :: u32))"
  by (auto simp: bit_eq_iff bit_xor_iff)

lemma xor_zero_iff: "(b XOR c = 0) \<longleftrightarrow> (b = (c :: u32))"
  by (auto simp: bit_eq_iff bit_xor_iff)

lemma session_id_candidates_distinct:
  "distinct (map (session_id_candidate b) [0, 1, 2]) \<and> 0 \<notin> set (map (session_id_candidate b) [0, 1, 2])"
proof -
  have two: "(5308871538 :: u32) = 0x3C6EF372" by simp
  consider "b = 0" | "b = 0x9E3779B9" | "b = 0x3C6EF372" | "b \<noteq> 0" "b \<noteq> 0x9E3779B9" "b \<noteq> 0x3C6EF372" by blast
  then show ?thesis
  proof cases
    case 4
    have "b XOR 0 = b" by simp
    then show ?thesis using 4 xor_cancel_left [of b 0 "0x9E3779B9"] xor_cancel_left [of b 0 "0x3C6EF372"]
      by (simp add: session_id_candidate_def Let_def xor_zero_iff xor_cancel_left two)
  qed (simp_all add: session_id_candidate_def Let_def)
qed

lemma auth_token_candidates_distinct:
  "distinct (map (auth_token_candidate b) [0, 1, 2]) \<and> 0 \<notin> set (map (auth_token_candidate b) [0, 1, 2])"
proof -
  have two: "(5308871538 :: u32) = 0x3C6EF372" by simp
  define x where "x = b XOR 0xA5A5A5A5"
  consider "x = 0" | "x = - 0x9E3779B9" | "x = - 0x3C6EF372" | "x \<noteq> 0" "x + 0x9E3779B9 \<noteq> 0" "x + 0x3C6EF372 \<noteq> 0"
    by (metis add_eq_0_iff2)
  then show ?thesis
    by cases (simp_all add: auth_token_candidate_def Let_def x_def [symmetric] two)
qed

lemma fresh_candidate:
  assumes "distinct cs" "length ss < length cs"
  shows "\<exists>c. find (\<lambda>c. \<not> list_ex (\<lambda>s. P s \<and> f s = c) ss) cs = Some c \<and> c \<in> set cs \<and> \<not> list_ex (\<lambda>s. P s \<and> f s = c) ss"
proof -
  have "\<not> set cs \<subseteq> set (map f ss)"
  proof
    assume "set cs \<subseteq> set (map f ss)"
    then have "card (set cs) \<le> card (set (map f ss))" by (intro card_mono) auto
    also have "\<dots> \<le> length ss" using card_length [of "map f ss"] by simp
    finally show False using assms distinct_card [of cs] by simp
  qed
  then obtain c where "c \<in> set cs" "\<not> list_ex (\<lambda>s. P s \<and> f s = c) ss" by (auto simp: list_ex_iff)
  then obtain c' where "find (\<lambda>c. \<not> list_ex (\<lambda>s. P s \<and> f s = c) ss) cs = Some c'"
    by (cases "find (\<lambda>c. \<not> list_ex (\<lambda>s. P s \<and> f s = c) ss) cs") (auto simp: find_None_iff)
  then show ?thesis by (metis find_Some_iff nth_mem)
qed

lemma candidates_upt: "length ss = MU_MAX_SESSIONS \<Longrightarrow> map f [0..<length ss + 1] = map f [0, 1, 2]"
  by (simp add: MU_MAX_SESSIONS_def upt_rec numeral_2_eq_2)

lemma generated_ids:
  assumes "length ss = MU_MAX_SESSIONS" "generate 4 = Inr random"
  shows "\<exists>sid token. mu_session_generate_session_id ss (Some generate) = Inr sid \<and> sid \<noteq> 0 \<and> \<not> session_id_active ss sid \<and>
    mu_session_generate_authentication_token ss (Some generate) = Inr token \<and> token \<noteq> 0 \<and> \<not> authentication_token_active ss token"
proof -
  let ?b = "random_base random"
  have len: "length ss < length (map (session_id_candidate ?b) [0, 1, 2])" "length ss < length (map (auth_token_candidate ?b) [0, 1, 2])"
    using assms(1) by (simp_all add: MU_MAX_SESSIONS_def)
  obtain sid where sid: "find (\<lambda>c. \<not> session_id_active ss c) (map (session_id_candidate ?b) [0, 1, 2]) = Some sid"
      "sid \<in> set (map (session_id_candidate ?b) [0, 1, 2])" "\<not> session_id_active ss sid"
    using fresh_candidate [where P = "\<lambda>s. ss_state s \<noteq> MU_SESSION_STATE_CLOSED" and f = session_id, OF conjunct1 [OF session_id_candidates_distinct] len(1)] unfolding session_id_active_def by blast
  obtain token where token: "find (\<lambda>c. \<not> authentication_token_active ss c) (map (auth_token_candidate ?b) [0, 1, 2]) = Some token"
      "token \<in> set (map (auth_token_candidate ?b) [0, 1, 2])" "\<not> authentication_token_active ss token"
    using fresh_candidate [where P = "\<lambda>s. ss_state s \<noteq> MU_SESSION_STATE_CLOSED" and f = auth_token, OF conjunct1 [OF auth_token_candidates_distinct] len(2)] unfolding authentication_token_active_def by blast
  have "sid \<noteq> 0" "token \<noteq> 0"
    using sid(2) token(2) session_id_candidates_distinct auth_token_candidates_distinct by metis+
  then show ?thesis
    unfolding mu_session_generate_session_id_def mu_session_generate_authentication_token_def option.case assms(2) sum.case
      candidates_upt [OF assms(1)] sid(1) token(1)
    using sid(3) token(3) by blast
qed

text \<open>C22: identifiers for a new session can always be generated: whenever the entropy
  source delivers, whatever it delivers and whatever sessions exist, the session id and
  the authentication token are found, are not zero, and belong to no existing session.\<close>

theorem session_identifiers_fresh:
  assumes "length ss = MU_MAX_SESSIONS" "generate 4 = Inr random"
  shows "\<exists>sid token. mu_session_generate_session_id ss (Some generate) = Inr sid \<and>
    mu_session_generate_authentication_token ss (Some generate) = Inr token \<and> sid \<noteq> 0 \<and> token \<noteq> 0 \<and>
    (\<forall>s \<in> set (active_sessions ss). session_id s \<noteq> sid \<and> auth_token s \<noteq> token)"
proof -
  have "session_id_active ss c \<longleftrightarrow> (\<exists>s \<in> set (active_sessions ss). session_id s = c)"
    "authentication_token_active ss c \<longleftrightarrow> (\<exists>s \<in> set (active_sessions ss). auth_token s = c)" for c
    by (auto simp: session_id_active_def authentication_token_active_def list_ex_iff active_sessions_def)
  then show ?thesis using generated_ids [of ss generate random] assms by blast
qed

theorem session_identifiers_fresh_witness:
  "\<exists>sid token. mu_session_generate_session_id [mu_session_init, mu_session_init] (Some (\<lambda>n. Inr (replicate n 0))) = Inr sid \<and>
     mu_session_generate_authentication_token [mu_session_init, mu_session_init] (Some (\<lambda>n. Inr (replicate n 0))) = Inr token \<and>
     sid \<noteq> 0 \<and> token \<noteq> 0"
  using session_identifiers_fresh [of "[mu_session_init, mu_session_init]" "\<lambda>n. Inr (replicate n 0)"]
  by (force simp: MU_MAX_SESSIONS_def)

section \<open>The session table\<close>

lemma find_free_closed:
  "mu_session_find_free ss = Some i \<Longrightarrow> i < length ss \<and> ss_state (ss ! i) = MU_SESSION_STATE_CLOSED"
  using find_index_SomeD [of _ ss i] by (auto simp: mu_session_find_free_def)

lemma find_by_token_active:
  "mu_session_find_by_token ss t = Some i \<Longrightarrow>
   i < length ss \<and> ss_state (ss ! i) \<noteq> MU_SESSION_STATE_CLOSED \<and> auth_token (ss ! i) = t"
  using find_index_SomeD [of _ ss i] by (auto simp: mu_session_find_by_token_def)

text \<open>Replacing one entry changes the active sessions in one place only.\<close>

lemma active_update:
  assumes "i < length ss"
  shows "\<exists>A B. \<forall>s. active_sessions (ss[i := s]) = A @ (if ss_state s \<noteq> MU_SESSION_STATE_CLOSED then [s] else []) @ B"
  using assms by (intro exI [of _ "active_sessions (take i ss)"] exI [of _ "active_sessions (drop (Suc i) ss)"])
    (simp add: active_sessions_def upd_conv_take_nth_drop)

lemma active_update2:
  assumes "i < length ss"
  obtains A B where "active_sessions (ss[i := s]) = A @ (if ss_state s \<noteq> MU_SESSION_STATE_CLOSED then [s] else []) @ B"
    "active_sessions ss = A @ (if ss_state (ss ! i) \<noteq> MU_SESSION_STATE_CLOSED then [ss ! i] else []) @ B"
  using active_update [OF assms] by (metis list_update_id)

lemma sessions_inv_same:
  assumes "sessions_inv ss" "i < length ss"
    and "ss_state s = MU_SESSION_STATE_CLOSED \<or> ss_state (ss ! i) \<noteq> MU_SESSION_STATE_CLOSED \<and> session_id s = session_id (ss ! i) \<and>
      auth_token s = auth_token (ss ! i) \<and> revised_session_timeout_ms s = revised_session_timeout_ms (ss ! i)"
  shows "sessions_inv (ss[i := s])"
proof -
  obtain A B where AB: "active_sessions (ss[i := s]) = A @ (if ss_state s \<noteq> MU_SESSION_STATE_CLOSED then [s] else []) @ B"
      "active_sessions ss = A @ (if ss_state (ss ! i) \<noteq> MU_SESSION_STATE_CLOSED then [ss ! i] else []) @ B"
    using active_update2 [OF assms(2)] .
  show ?thesis
    using assms(1,3) unfolding sessions_inv_def AB length_list_update
    by (cases "ss_state s = MU_SESSION_STATE_CLOSED"; cases "ss_state (ss ! i) = MU_SESSION_STATE_CLOSED")
      (simp_all add: ball_Un disj_imp)
qed

lemma sessions_inv_create:
  assumes "sessions_inv ss" "i < length ss" "ss_state (ss ! i) = MU_SESSION_STATE_CLOSED"
    and "session_id s \<noteq> 0" "auth_token s \<noteq> 0" "\<not> session_id_active ss (session_id s)" "\<not> authentication_token_active ss (auth_token s)"
    and "10000 \<le> revised_session_timeout_ms s" "revised_session_timeout_ms s \<le> 3600000"
  shows "sessions_inv (ss[i := s])"
proof -
  obtain A B where AB: "active_sessions (ss[i := s]) = A @ (if ss_state s \<noteq> MU_SESSION_STATE_CLOSED then [s] else []) @ B"
      "active_sessions ss = A @ (if ss_state (ss ! i) \<noteq> MU_SESSION_STATE_CLOSED then [ss ! i] else []) @ B"
    using active_update2 [OF assms(2)] .
  have "session_id s \<notin> session_id ` set (active_sessions ss)" "auth_token s \<notin> auth_token ` set (active_sessions ss)"
    using assms(6,7) by (auto simp: session_id_active_def authentication_token_active_def list_ex_iff active_sessions_def)
  then show ?thesis
    using assms(1,3-5,8,9) unfolding sessions_inv_def AB length_list_update
    by (simp add: ball_Un image_Un)
qed

lemma generated_id_fresh:
  "mu_session_generate_session_id ss e = Inr sid \<Longrightarrow> length ss = MU_MAX_SESSIONS \<Longrightarrow> sid \<noteq> 0 \<and> \<not> session_id_active ss sid"
  "mu_session_generate_authentication_token ss e = Inr t \<Longrightarrow> length ss = MU_MAX_SESSIONS \<Longrightarrow> t \<noteq> 0 \<and> \<not> authentication_token_active ss t"
proof -
  assume a: "mu_session_generate_session_id ss e = Inr sid" "length ss = MU_MAX_SESSIONS"
  then obtain g r where "e = Some g" "g 4 = Inr r"
    by (auto simp: mu_session_generate_session_id_def split: option.splits sum.splits if_splits)
  with generated_ids [of ss g r] a show "sid \<noteq> 0 \<and> \<not> session_id_active ss sid" by auto
next
  assume a: "mu_session_generate_authentication_token ss e = Inr t" "length ss = MU_MAX_SESSIONS"
  then obtain g r where "e = Some g" "g 4 = Inr r"
    by (auto simp: mu_session_generate_authentication_token_def split: option.splits sum.splits)
  with generated_ids [of ss g r] a show "t \<noteq> 0 \<and> \<not> authentication_token_active ss t" by auto
qed

lemma session_step_inv: "session_step ss ss' \<Longrightarrow> sessions_inv ss \<Longrightarrow> sessions_inv ss'"
proof (induction rule: session_step.induct)
  case (create ss i e1 sid e2 token bits channel revised s)
  have i: "i < length ss" "ss_state (ss ! i) = MU_SESSION_STATE_CLOSED" using find_free_closed [OF create(1)] by auto
  have len: "length ss = MU_MAX_SESSIONS" using create(5) by (simp add: sessions_inv_def)
  have s: "s = (ss ! i)\<lparr>session_id := sid, auth_token := token, ss_secure_channel_id := channel,
      revised_session_timeout_ms := duration_bits_to_ms (clamp_timeout_bits bits), ss_state := MU_SESSION_STATE_CREATED\<rparr>"
    using create(4) i(2) by (auto simp: mu_session_create_with_identifiers_def Let_def)
  have "10000 \<le> duration_bits_to_ms (clamp_timeout_bits bits)" "duration_bits_to_ms (clamp_timeout_bits bits) \<le> 3600000"
    using clamp_timeout_ms [of bits] by (simp_all add: word_le_nat_alt)
  then show ?case
    using create(5) i generated_id_fresh(1) [OF create(2) len] generated_id_fresh(2) [OF create(3) len]
    by (intro sessions_inv_create) (simp_all add: s)
next
  case (nonce i ss n)
  then show ?case by (cases "ss_state (ss ! i) = MU_SESSION_STATE_CLOSED") (auto intro!: sessions_inv_same)
next
  case (activate ss token i enc r s)
  then show ?case using find_by_token_active [OF activate(1)]
    by (intro sessions_inv_same) (auto simp: mu_session_activate_def split: if_splits)
next
  case (close ss token i d r s)
  then show ?case using find_by_token_active [OF close(1)]
    by (intro sessions_inv_same) (auto simp: mu_session_close_def mu_session_init_def split: if_splits)
qed

text \<open>C12: in every reachable session table the sessions in use have pairwise different,
  non-zero session ids and authentication tokens, and a timeout between ten seconds and
  one hour; there are never more than the configured number of slots.\<close>

theorem session_table_invariant:
  assumes "session_reachable ss"
  shows "length ss = MU_MAX_SESSIONS \<and> distinct (map session_id (active_sessions ss)) \<and>
     distinct (map auth_token (active_sessions ss)) \<and>
     (\<forall>s \<in> set (active_sessions ss). session_id s \<noteq> 0 \<and> auth_token s \<noteq> 0 \<and>
        10000 \<le> revised_session_timeout_ms s \<and> revised_session_timeout_ms s \<le> 3600000)"
proof -
  have "sessions_inv ss" using assms
  proof induction
    case start
    show ?case by (simp add: sessions_inv_def active_sessions_def mu_session_init_def)
  next
    case (step ss ss')
    then show ?case by (blast intro: session_step_inv)
  qed
  then show ?thesis by (simp add: sessions_inv_def)
qed

theorem session_table_invariant_witness:
  "\<exists>ss. session_reachable ss \<and> active_sessions ss \<noteq> [] \<and> distinct (map auth_token (active_sessions ss))"
proof -
  let ?e = "Some (\<lambda>n. Inr (replicate n 1)) :: entropy option"
  let ?ss = "replicate MU_MAX_SESSIONS mu_session_init"
  obtain sid token where g: "mu_session_generate_session_id ?ss ?e = Inr sid" "mu_session_generate_authentication_token ?ss ?e = Inr token"
    using generated_ids [of ?ss "\<lambda>n. Inr (replicate n 1)"] by auto
  obtain s where s: "mu_session_create_with_identifiers (?ss ! 0) 0 sid token 1 = (Inr (clamp_timeout_bits 0), s)"
      "ss_state s = MU_SESSION_STATE_CREATED"
    by (simp add: mu_session_create_with_identifiers_def mu_session_init_def MU_MAX_SESSIONS_def Let_def)
  have r: "session_reachable (?ss[0 := s])"
    by (rule session_reachable.step [OF session_reachable.start], rule session_step.create [OF _ g s(1)])
      (simp add: mu_session_find_free_def MU_MAX_SESSIONS_def mu_session_init_def numeral_2_eq_2)
  moreover have "active_sessions (?ss[0 := s]) \<noteq> []" using s(2)
    by (simp add: active_sessions_def MU_MAX_SESSIONS_def mu_session_init_def numeral_2_eq_2)
  ultimately show ?thesis using session_table_invariant [OF r] by blast
qed



end
