(* ===== verification/Monitored_Item.thy ===== *)
theory Monitored_Item
  imports Address_Space Ring_Queue
begin

text \<open>
  One monitored item of the subscription engine (\<^verbatim>\<open>src/services/subscription.c\<close>,
  build with the standard facet): change detection, the ring of queued reports, aggregate
  calculation and the sampling timer.

  The ring of reports is shown to refine a bounded first-in first-out list; its indices
  and counters, bytes in the code, never exceed the queue depth and are modelled as
  \<^typ>\<open>nat\<close>.  Arithmetic on \<^verbatim>\<open>double\<close> is implementation defined in freestanding C; it is
  the parameter \<open>fp_ops\<close>, on bit patterns.
\<close>

section \<open>Data\<close>

record fp_ops =
  fp_of_int :: "int \<Rightarrow> u64"
  fp_of_float :: "u32 \<Rightarrow> u64"
  fp_add :: "u64 \<Rightarrow> u64 \<Rightarrow> u64"
  fp_sub :: "u64 \<Rightarrow> u64 \<Rightarrow> u64"
  fp_div :: "u64 \<Rightarrow> u64 \<Rightarrow> u64"
  fp_abs :: "u64 \<Rightarrow> u64"
  fp_less :: "u64 \<Rightarrow> u64 \<Rightarrow> bool"
  fp_le :: "u64 \<Rightarrow> u64 \<Rightarrow> bool"

definition MU_MONITORED_QUEUE_DEPTH :: nat where "MU_MONITORED_QUEUE_DEPTH = 2"
definition MU_MAX_TRIGGER_LINKS :: nat where "MU_MAX_TRIGGER_LINKS = 4"

abbreviation MU_MONITORING_MODE_DISABLED :: byte where "MU_MONITORING_MODE_DISABLED \<equiv> 0"
abbreviation MU_MONITORING_MODE_SAMPLING :: byte where "MU_MONITORING_MODE_SAMPLING \<equiv> 1"
abbreviation MU_MONITORING_MODE_REPORTING :: byte where "MU_MONITORING_MODE_REPORTING \<equiv> 2"
abbreviation MU_DATACHANGE_TRIGGER_STATUS :: byte where "MU_DATACHANGE_TRIGGER_STATUS \<equiv> 0"
abbreviation MU_DATACHANGE_TRIGGER_STATUS_VALUE :: byte where "MU_DATACHANGE_TRIGGER_STATUS_VALUE \<equiv> 1"
abbreviation MU_DEADBAND_TYPE_ABSOLUTE :: byte where "MU_DEADBAND_TYPE_ABSOLUTE \<equiv> 1"
abbreviation MU_ID_AGGREGATETYPE_AVERAGE :: u32 where "MU_ID_AGGREGATETYPE_AVERAGE \<equiv> 2342"
abbreviation MU_ID_AGGREGATETYPE_MINIMUM :: u32 where "MU_ID_AGGREGATETYPE_MINIMUM \<equiv> 2346"
abbreviation MU_ID_AGGREGATETYPE_MAXIMUM :: u32 where "MU_ID_AGGREGATETYPE_MAXIMUM \<equiv> 2347"
abbreviation MU_STATUSCODE_INFOTYPE_DATAVALUE_OVERFLOW :: statuscode where
  "MU_STATUSCODE_INFOTYPE_DATAVALUE_OVERFLOW \<equiv> 0x480"

text \<open>The accumulator is a union; the aggregate type says which member is meant.  The
  minimum and the maximum share the member \<open>ag_value\<close>.\<close>

record mu_aggregate_state =
  ag_processing_interval :: u64
  ag_last_calculation :: u64
  ag_sum :: u64
  ag_value :: mu_variant
  ag_type :: u32
  ag_sample_count :: u32

record queue_entry =
  qe_value :: mu_variant
  qe_status :: statuscode

record mu_monitored_item =
  next_sample_ms :: u64
  deadband_value :: u64
  last_reported_numeric :: u64
  aggregate_state :: mu_aggregate_state
  resolved_node :: "mu_node option"
  last_value :: mu_variant
  mi_node_id :: mu_nodeid
  monitored_item_id :: u32
  mi_subscription_id :: u32
  client_handle :: u32
  attribute_id :: u32
  sampling_interval_ms :: u32
  last_status :: statuscode
  mi_queue_size :: nat
  triggered_items :: "u32 list"
  mi_queue :: "queue_entry list"
  monitoring_mode :: byte
  mi_trigger :: byte
  mi_in_use :: bool
  mi_has_value :: bool
  mi_pending :: bool
  deadband_type :: byte
  has_reported :: bool
  has_aggregate :: bool
  queue_head :: nat
  queue_tail :: nat
  queue_count :: nat
  discard_oldest :: bool
  queue_overflow :: bool
  triggered_count :: nat
  select_clauses :: "byte list"
  select_clauses_count :: nat

section \<open>Change detection\<close>

definition variant_scalar_equal :: "mu_variant \<Rightarrow> mu_variant \<Rightarrow> bool" where
  "variant_scalar_equal a b =
    (case (a, b) of
       (VScalar x, VScalar y) \<Rightarrow>
         (case x of
            V_Boolean _ \<Rightarrow> x = y
          | V_SByte _ \<Rightarrow> x = y
          | V_Byte _ \<Rightarrow> x = y
          | V_Int16 _ \<Rightarrow> x = y
          | V_UInt16 _ \<Rightarrow> x = y
          | V_Int32 _ \<Rightarrow> x = y
          | V_UInt32 _ \<Rightarrow> x = y
          | V_Int64 _ \<Rightarrow> x = y
          | V_UInt64 _ \<Rightarrow> x = y
          | V_Float _ \<Rightarrow> x = y
          | V_Double _ \<Rightarrow> x = y
          | V_DateTime _ \<Rightarrow> x = y
          | _ \<Rightarrow> False)
     | _ \<Rightarrow> False)"

fun variant_numeric_to_double :: "fp_ops \<Rightarrow> mu_variant \<Rightarrow> u64 option" where
  "variant_numeric_to_double fp (VScalar (V_SByte a)) = Some (fp_of_int fp (sint a))"
| "variant_numeric_to_double fp (VScalar (V_Byte a)) = Some (fp_of_int fp (uint a))"
| "variant_numeric_to_double fp (VScalar (V_Int16 a)) = Some (fp_of_int fp (sint a))"
| "variant_numeric_to_double fp (VScalar (V_UInt16 a)) = Some (fp_of_int fp (uint a))"
| "variant_numeric_to_double fp (VScalar (V_Int32 a)) = Some (fp_of_int fp (sint a))"
| "variant_numeric_to_double fp (VScalar (V_UInt32 a)) = Some (fp_of_int fp (uint a))"
| "variant_numeric_to_double fp (VScalar (V_Int64 a)) = Some (fp_of_int fp (sint a))"
| "variant_numeric_to_double fp (VScalar (V_UInt64 a)) = Some (fp_of_int fp (uint a))"
| "variant_numeric_to_double fp (VScalar (V_Float a)) = Some (fp_of_float fp a)"
| "variant_numeric_to_double fp (VScalar (V_Double a)) = Some a"
| "variant_numeric_to_double fp _ = None"

definition monitored_item_change_reportable ::
    "fp_ops \<Rightarrow> mu_monitored_item \<Rightarrow> mu_variant \<Rightarrow> statuscode \<Rightarrow> bool" where
  "monitored_item_change_reportable fp item cur status =
    (if \<not> has_reported item \<or> status \<noteq> last_status item then True
     else if deadband_type item \<noteq> MU_DEADBAND_TYPE_ABSOLUTE then True
     else case (variant_numeric_to_double fp cur, variant_numeric_to_double fp (last_value item)) of
         (Some numeric, Some _) \<Rightarrow>
           fp_le fp (deadband_value item) (fp_abs fp (fp_sub fp numeric (last_reported_numeric item)))
       | _ \<Rightarrow> True)"

definition monitored_item_record_reported :: "fp_ops \<Rightarrow> mu_variant \<Rightarrow> mu_monitored_item \<Rightarrow> mu_monitored_item" where
  "monitored_item_record_reported fp cur item =
    (case variant_numeric_to_double fp cur of
       Some numeric \<Rightarrow> item\<lparr>last_reported_numeric := numeric, has_reported := True\<rparr>
     | None \<Rightarrow> item\<lparr>has_reported := True\<rparr>)"

definition monitored_item_sample_changed :: "mu_monitored_item \<Rightarrow> mu_variant \<Rightarrow> statuscode \<Rightarrow> bool" where
  "monitored_item_sample_changed item cur status =
    (if mi_trigger item = MU_DATACHANGE_TRIGGER_STATUS then status \<noteq> last_status item
     else status \<noteq> last_status item \<or> \<not> variant_scalar_equal cur (last_value item))"

section \<open>The ring of reports\<close>

definition effective_size :: "nat \<Rightarrow> nat" where
  "effective_size queue_size =
    (let n = (if queue_size = 0 then 1 else queue_size) in
     if MU_MONITORED_QUEUE_DEPTH < n then MU_MONITORED_QUEUE_DEPTH else n)"

definition monitored_item_effective_queue_size :: "mu_monitored_item \<Rightarrow> nat \<times> mu_monitored_item" where
  "monitored_item_effective_queue_size item =
    (let n = effective_size (mi_queue_size item) in
     (n, item\<lparr>mi_queue_size := n,
              queue_head := (if n \<le> queue_head item then 0 else queue_head item),
              queue_tail := (if n \<le> queue_tail item then 0 else queue_tail item),
              queue_count := (if n < queue_count item then n else queue_count item)\<rparr>))"

definition monitored_item_queue_next :: "nat \<Rightarrow> nat \<Rightarrow> nat" where
  "monitored_item_queue_next i n = (if n \<le> i + 1 then 0 else i + 1)"

definition monitored_item_queue_previous :: "nat \<Rightarrow> nat \<Rightarrow> nat" where
  "monitored_item_queue_previous i n = (if i = 0 then n - 1 else i - 1)"

definition monitored_item_mark_overflow :: "nat \<Rightarrow> mu_monitored_item \<Rightarrow> mu_monitored_item" where
  "monitored_item_mark_overflow i item =
     item\<lparr>mi_queue := (mi_queue item)[i := (mi_queue item ! i)\<lparr>qe_status :=
            qe_status (mi_queue item ! i) OR MU_STATUSCODE_INFOTYPE_DATAVALUE_OVERFLOW\<rparr>],
          queue_overflow := True\<rparr>"

definition queue_store :: "nat \<Rightarrow> mu_variant \<Rightarrow> statuscode \<Rightarrow> mu_monitored_item \<Rightarrow> mu_monitored_item" where
  "queue_store i cur status item = item\<lparr>mi_queue := (mi_queue item)[i := \<lparr>qe_value = cur, qe_status = status\<rparr>]\<rparr>"

definition monitored_item_enqueue_report ::
    "fp_ops \<Rightarrow> mu_variant \<Rightarrow> statuscode \<Rightarrow> mu_monitored_item \<Rightarrow> mu_monitored_item" where
  "monitored_item_enqueue_report fp cur status item =
    (let (n, item) = monitored_item_effective_queue_size item;
         item =
           (if queue_count item < n then
              (queue_store (queue_tail item) cur status item)
                \<lparr>queue_tail := monitored_item_queue_next (queue_tail item) n, queue_count := queue_count item + 1\<rparr>
            else if discard_oldest item then
              let item = item\<lparr>queue_head := monitored_item_queue_next (queue_head item) n\<rparr>;
                  item = queue_store (queue_tail item) cur status item;
                  item = item\<lparr>queue_tail := monitored_item_queue_next (queue_tail item) n\<rparr> in
              monitored_item_mark_overflow (queue_head item) item
            else
              let newest = monitored_item_queue_previous (queue_tail item) n in
              monitored_item_mark_overflow newest (queue_store newest cur status item));
         item = monitored_item_record_reported fp cur item in
     item\<lparr>mi_pending := 0 < queue_count item\<rparr>)"

definition monitored_item_prepare_pending_queue :: "fp_ops \<Rightarrow> mu_monitored_item \<Rightarrow> mu_monitored_item" where
  "monitored_item_prepare_pending_queue fp item =
    (if mi_pending item \<and> queue_count item = 0 \<and> mi_has_value item
     then monitored_item_enqueue_report fp (last_value item) (last_status item) item
     else if mi_has_value item \<and> \<not> has_reported item
     then monitored_item_record_reported fp (last_value item) item
     else item)"

text \<open>The loop of \<^verbatim>\<open>monitored_item_drain_reported_entries\<close>, by the number of entries
  left in the ring.\<close>

fun drain_loop :: "nat \<Rightarrow> nat \<Rightarrow> nat \<Rightarrow> nat \<Rightarrow> nat \<times> nat \<times> nat" where
  "drain_loop n head 0 remaining = (head, 0, remaining)"
| "drain_loop n head (Suc c) remaining =
     (if remaining = 0 then (head, Suc c, 0)
      else drain_loop n (monitored_item_queue_next head n) c (remaining - 1))"

definition monitored_item_drain_reported_entries :: "nat \<Rightarrow> mu_monitored_item \<Rightarrow> mu_monitored_item \<times> nat" where
  "monitored_item_drain_reported_entries remaining item =
    (let (n, item) = monitored_item_effective_queue_size item;
         (head, cnt, remaining) = drain_loop n (queue_head item) (queue_count item) remaining;
         item = item\<lparr>queue_head := head, queue_count := cnt\<rparr> in
     (if cnt = 0 then item\<lparr>queue_head := 0, queue_tail := 0, mi_pending := False, queue_overflow := False\<rparr>
      else item\<lparr>mi_pending := True\<rparr>, remaining))"

section \<open>Aggregates\<close>

definition monitored_item_accumulate_aggregate :: "fp_ops \<Rightarrow> mu_variant \<Rightarrow> mu_monitored_item \<Rightarrow> mu_monitored_item" where
  "monitored_item_accumulate_aggregate fp cur item =
    (case variant_numeric_to_double fp cur of
       None \<Rightarrow> item
     | Some v \<Rightarrow>
         let ag = aggregate_state item;
             ag = (if ag_type ag = MU_ID_AGGREGATETYPE_AVERAGE then ag\<lparr>ag_sum := fp_add fp (ag_sum ag) v\<rparr>
                   else if ag_type ag = MU_ID_AGGREGATETYPE_MINIMUM then
                     (if ag_sample_count ag = 0 then ag\<lparr>ag_value := cur\<rparr>
                      else case variant_numeric_to_double fp (ag_value ag) of
                          Some m \<Rightarrow> if fp_less fp v m then ag\<lparr>ag_value := cur\<rparr> else ag
                        | None \<Rightarrow> ag\<lparr>ag_value := cur\<rparr>)
                   else if ag_type ag = MU_ID_AGGREGATETYPE_MAXIMUM then
                     (if ag_sample_count ag = 0 then ag\<lparr>ag_value := cur\<rparr>
                      else case variant_numeric_to_double fp (ag_value ag) of
                          Some m \<Rightarrow> if fp_less fp m v then ag\<lparr>ag_value := cur\<rparr> else ag
                        | None \<Rightarrow> ag\<lparr>ag_value := cur\<rparr>)
                   else ag) in
         item\<lparr>aggregate_state := ag\<lparr>ag_sample_count := ag_sample_count ag + 1\<rparr>\<rparr>)"

definition monitored_item_publish_aggregate :: "fp_ops \<Rightarrow> u64 \<Rightarrow> mu_monitored_item \<Rightarrow> mu_monitored_item" where
  "monitored_item_publish_aggregate fp now item =
    (let ag = aggregate_state item;
         (calc_val, calc_status) =
           (if ag_sample_count ag = 0 then
              (if mi_has_value item then (last_value item, last_status item) else (VNull, MU_STATUS_BAD_NODATA))
            else if ag_type ag = MU_ID_AGGREGATETYPE_AVERAGE then
              (VScalar (V_Double (fp_div fp (ag_sum ag) (fp_of_int fp (uint (ag_sample_count ag))))), MU_STATUS_GOOD)
            else if ag_type ag = MU_ID_AGGREGATETYPE_MINIMUM then (ag_value ag, MU_STATUS_GOOD)
            else if ag_type ag = MU_ID_AGGREGATETYPE_MAXIMUM then (ag_value ag, MU_STATUS_GOOD)
            else (VNull, MU_STATUS_BAD_INTERNALERROR));
         item = monitored_item_enqueue_report fp calc_val calc_status item in
     item\<lparr>aggregate_state := (aggregate_state item)\<lparr>ag_sample_count := 0, ag_sum := 0, ag_value := VNull,
            ag_last_calculation := now\<rparr>\<rparr>)"

section \<open>Sampling\<close>

text \<open>The result is the status and the value, which stays null when the read fails.\<close>

definition read_monitored_item_value :: "read_callbacks \<Rightarrow> mu_monitored_item \<Rightarrow> statuscode \<times> mu_variant" where
  "read_monitored_item_value callbacks item =
    (case resolved_node item of
       None \<Rightarrow> (MU_STATUS_BAD_NODEIDUNKNOWN, VNull)
     | Some node \<Rightarrow>
         (case node_value node of
            None \<Rightarrow> (MU_STATUS_BAD_NODEIDUNKNOWN, VNull)
          | Some source \<Rightarrow>
              (case mu_value_source_read callbacks source (mi_node_id item) of
                 Inl s \<Rightarrow> (s, VNull)
               | Inr v \<Rightarrow> (MU_STATUS_GOOD, v))))"

definition advance_sample_timer :: "u64 \<Rightarrow> mu_monitored_item \<Rightarrow> mu_monitored_item" where
  "advance_sample_timer now item =
    (let interval = (if sampling_interval_ms item = 0 then 1 else ucast (sampling_interval_ms item)) :: u64;
         top = (-1 :: u64);
         next = next_sample_ms item in
     if next \<le> now then
       let elapsed = now - next in
       if elapsed < interval then
         (if top - interval < next then item\<lparr>next_sample_ms := top\<rparr>
          else item\<lparr>next_sample_ms := next + interval\<rparr>)
       else
         let steps = elapsed div interval + 1;
             max_steps = (top - next) div interval in
         if max_steps < steps then item\<lparr>next_sample_ms := top\<rparr>
         else item\<lparr>next_sample_ms := next + steps * interval\<rparr>
     else item)"

text \<open>The body of the sampling loop of \<^verbatim>\<open>mu_subscriptions_tick\<close> for one item in use.\<close>

definition sample_item :: "fp_ops \<Rightarrow> read_callbacks \<Rightarrow> u64 \<Rightarrow> mu_monitored_item \<Rightarrow> mu_monitored_item" where
  "sample_item fp callbacks now item =
    (if monitoring_mode item = MU_MONITORING_MODE_DISABLED then item
     else
     let item = (if has_aggregate item \<and>
                    fp_le fp (ag_processing_interval (aggregate_state item))
                      (fp_of_int fp (uint (now - ag_last_calculation (aggregate_state item))))
                 then monitored_item_publish_aggregate fp now item else item) in
     if now < next_sample_ms item then item
     else if attribute_id item = 12 then item
     else
     let (status, cur) = read_monitored_item_value callbacks item in
     if has_aggregate item then
       let item = (if status = MU_STATUS_GOOD then monitored_item_accumulate_aggregate fp cur item else item) in
       advance_sample_timer now (item\<lparr>last_value := cur, last_status := status, mi_has_value := True\<rparr>)
     else
     let item = (if mi_has_value item \<and> (\<not> has_reported item \<or> (mi_pending item \<and> queue_count item = 0))
                 then monitored_item_prepare_pending_queue fp item else item);
         item = (if \<not> mi_has_value item then
                   monitored_item_enqueue_report fp cur status
                     (item\<lparr>last_value := cur, last_status := status, mi_has_value := True\<rparr>)
                 else if monitored_item_sample_changed item cur status then
                   (if monitored_item_change_reportable fp item cur status then
                      monitored_item_enqueue_report fp cur status (item\<lparr>last_value := cur, last_status := status\<rparr>)
                    else item)
                 else item) in
     advance_sample_timer now item)"

definition queue_list :: "mu_monitored_item \<Rightarrow> queue_entry list" where
  "queue_list item = ring (mi_queue item) (queue_head item) (queue_count item) (mi_queue_size item)"

definition queue_inv :: "mu_monitored_item \<Rightarrow> bool" where
  "queue_inv item \<longleftrightarrow>
     length (mi_queue item) = MU_MONITORED_QUEUE_DEPTH \<and>
     0 < mi_queue_size item \<and> mi_queue_size item \<le> MU_MONITORED_QUEUE_DEPTH \<and>
     queue_head item < mi_queue_size item \<and> queue_count item \<le> mi_queue_size item \<and>
     queue_tail item = (queue_head item + queue_count item) mod mi_queue_size item"

definition overflowed :: "queue_entry \<Rightarrow> queue_entry" where
  "overflowed e = e\<lparr>qe_status := qe_status e OR MU_STATUSCODE_INFOTYPE_DATAVALUE_OVERFLOW\<rparr>"

definition bounded_enqueue :: "nat \<Rightarrow> bool \<Rightarrow> queue_entry \<Rightarrow> queue_entry list \<Rightarrow> queue_entry list" where
  "bounded_enqueue n oldest e q =
    (if length q < n then q @ [e]
     else if oldest then (tl q @ [e])[0 := overflowed (hd (tl q @ [e]))]
     else q[n - 1 := overflowed e])"

text \<open>A slot of the table of items cleared to zero bytes.\<close>

definition zero_aggregate :: mu_aggregate_state where
  "zero_aggregate = \<lparr>ag_processing_interval = 0, ag_last_calculation = 0, ag_sum = 0, ag_value = VNull, ag_type = 0,
     ag_sample_count = 0\<rparr>"

definition zero_nodeid :: mu_nodeid where
  "zero_nodeid = \<lparr>namespace_index = 0, nid_identifier = NumericId 0\<rparr>"

definition zero_item :: mu_monitored_item where
  "zero_item = \<lparr>next_sample_ms = 0, deadband_value = 0, last_reported_numeric = 0, aggregate_state = zero_aggregate,
     resolved_node = None, last_value = VNull, mi_node_id = zero_nodeid, monitored_item_id = 0, mi_subscription_id = 0,
     client_handle = 0, attribute_id = 0, sampling_interval_ms = 0, last_status = 0, mi_queue_size = 0,
     triggered_items = replicate MU_MAX_TRIGGER_LINKS 0,
     mi_queue = replicate MU_MONITORED_QUEUE_DEPTH \<lparr>qe_value = VNull, qe_status = 0\<rparr>,
     monitoring_mode = 0, mi_trigger = 0, mi_in_use = False, mi_has_value = False, mi_pending = False,
     deadband_type = 0, has_reported = False, has_aggregate = False, queue_head = 0, queue_tail = 0, queue_count = 0,
     discard_oldest = False, queue_overflow = False, triggered_count = 0, select_clauses = replicate 8 0,
     select_clauses_count = 0\<rparr>"

definition sampling_step :: "mu_monitored_item \<Rightarrow> nat" where
  "sampling_step item = max 1 (unat (sampling_interval_ms item))"

definition fresh_aggregate :: "mu_monitored_item \<Rightarrow> bool" where
  "fresh_aggregate item \<longleftrightarrow> ag_sample_count (aggregate_state item) = 0 \<and> ag_sum (aggregate_state item) = 0"

definition num :: "fp_ops \<Rightarrow> mu_variant \<Rightarrow> u64" where
  "num fp v = the (variant_numeric_to_double fp v)"

definition is_aggregate :: "fp_ops \<Rightarrow> u32 \<Rightarrow> mu_variant list \<Rightarrow> mu_variant \<Rightarrow> bool" where
  "is_aggregate fp type vs r \<longleftrightarrow>
    (if type = MU_ID_AGGREGATETYPE_AVERAGE
     then r = VScalar (V_Double (fp_div fp (foldl (fp_add fp) 0 (map (num fp) vs)) (fp_of_int fp (int (length vs)))))
     else if type = MU_ID_AGGREGATETYPE_MINIMUM
     then r \<in> set vs \<and> list_all (\<lambda>v. \<not> fp_less fp (num fp v) (num fp r)) vs
     else r \<in> set vs \<and> list_all (\<lambda>v. \<not> fp_less fp (num fp r) (num fp v)) vs)"

definition supported_aggregate :: "u32 \<Rightarrow> bool" where
  "supported_aggregate type \<longleftrightarrow>
     type = MU_ID_AGGREGATETYPE_AVERAGE \<or> type = MU_ID_AGGREGATETYPE_MINIMUM \<or> type = MU_ID_AGGREGATETYPE_MAXIMUM"

text \<open>The accumulator after the samples \<open>vs\<close>.\<close>

definition accumulates :: "fp_ops \<Rightarrow> u32 \<Rightarrow> mu_variant list \<Rightarrow> mu_aggregate_state \<Rightarrow> bool" where
  "accumulates fp type vs ag \<longleftrightarrow> ag_type ag = type \<and> unat (ag_sample_count ag) = length vs \<and>
    (if type = MU_ID_AGGREGATETYPE_AVERAGE then ag_sum ag = foldl (fp_add fp) 0 (map (num fp) vs)
     else vs \<noteq> [] \<longrightarrow> is_aggregate fp type vs (ag_value ag))"

definition example_fp :: fp_ops where
  "example_fp = \<lparr>fp_of_int = of_int, fp_of_float = ucast, fp_add = (+), fp_sub = (-), fp_div = (div), fp_abs = id,
     fp_less = (<), fp_le = (\<le>)\<rparr>"

definition example_item :: mu_monitored_item where
  "example_item = zero_item\<lparr>mi_in_use := True, mi_queue_size := 2, monitoring_mode := 2, mi_trigger := 1,
     attribute_id := 13, mi_has_value := True, has_reported := True, sampling_interval_ms := 50, next_sample_ms := 100\<rparr>"

lemma queue_next_mod: "i < n \<Longrightarrow> monitored_item_queue_next i n = (i + 1) mod n"
  by (simp add: monitored_item_queue_next_def mod_Suc)

lemma queue_previous_mod: "\<lbrakk>h < n; i = (h + n) mod n\<rbrakk> \<Longrightarrow> monitored_item_queue_previous i n = (h + (n - 1)) mod n"
  by (cases h) (simp_all add: monitored_item_queue_previous_def mod_add_self2 del: add_Suc)

lemma effective_queue_size_id:
  "queue_inv item \<Longrightarrow> monitored_item_effective_queue_size item = (mi_queue_size item, item)"
  using mod_less_divisor [of "mi_queue_size item" "queue_head item + queue_count item"]
  by (simp add: monitored_item_effective_queue_size_def effective_size_def queue_inv_def Let_def not_le)

lemma length_queue_list [simp]: "length (queue_list item) = queue_count item"
  by (simp add: queue_list_def)

lemma record_reported_queue [simp]:
  "queue_list (monitored_item_record_reported fp cur item) = queue_list item"
  "queue_inv (monitored_item_record_reported fp cur item) = queue_inv item"
  "mi_queue_size (monitored_item_record_reported fp cur item) = mi_queue_size item"
  "queue_count (monitored_item_record_reported fp cur item) = queue_count item"
  by (simp_all add: monitored_item_record_reported_def queue_list_def queue_inv_def split: option.split)

lemma queue_pending [simp]:
  "queue_list (item\<lparr>mi_pending := b\<rparr>) = queue_list item"
  "queue_inv (item\<lparr>mi_pending := b\<rparr>) = queue_inv item"
  by (simp_all add: queue_list_def queue_inv_def)

lemma enqueue_report_room:
  assumes "queue_inv item" "queue_count item < mi_queue_size item"
  shows "queue_inv (monitored_item_enqueue_report fp cur status item)"
    and "queue_list (monitored_item_enqueue_report fp cur status item) =
         queue_list item @ [\<lparr>qe_value = cur, qe_status = status\<rparr>]"
proof -
  let ?n = "mi_queue_size item"
  let ?i = "(queue_store (queue_tail item) cur status item)
              \<lparr>queue_tail := monitored_item_queue_next (queue_tail item) ?n, queue_count := queue_count item + 1\<rparr>"
  have e: "monitored_item_enqueue_report fp cur status item =
      (monitored_item_record_reported fp cur ?i)\<lparr>mi_pending := 0 < queue_count ?i\<rparr>"
    using assms by (simp add: monitored_item_enqueue_report_def effective_queue_size_id)
  have t: "queue_tail item < ?n" and tl: "queue_tail item = (queue_head item + queue_count item) mod ?n"
    and l: "?n \<le> length (mi_queue item)"
    using assms(1) by (auto simp: queue_inv_def)
  have "queue_inv ?i" using assms t tl
    by (simp add: queue_inv_def queue_store_def queue_next_mod mod_Suc_eq)
  thus "queue_inv (monitored_item_enqueue_report fp cur status item)" by (simp add: e)
  have "queue_list ?i = queue_list item @ [\<lparr>qe_value = cur, qe_status = status\<rparr>]"
    unfolding queue_list_def queue_store_def using ring_append [OF assms(2) l] by (simp add: tl)
  thus "queue_list (monitored_item_enqueue_report fp cur status item) =
         queue_list item @ [\<lparr>qe_value = cur, qe_status = status\<rparr>]" by (simp add: e)
qed

lemma enqueue_report_oldest:
  assumes "queue_inv item" "queue_count item = mi_queue_size item" "discard_oldest item"
  shows "queue_inv (monitored_item_enqueue_report fp cur status item)"
    and "queue_list (monitored_item_enqueue_report fp cur status item) =
         bounded_enqueue (mi_queue_size item) True \<lparr>qe_value = cur, qe_status = status\<rparr> (queue_list item)"
proof -
  let ?n = "mi_queue_size item" and ?h = "queue_head item" and ?e = "\<lparr>qe_value = cur, qe_status = status\<rparr>"
  let ?h' = "(?h + 1) mod ?n" and ?xs = "(mi_queue item)[queue_head item := \<lparr>qe_value = cur, qe_status = status\<rparr>]"
  let ?i = "item\<lparr>queue_head := ?h', queue_tail := ?h', mi_queue := ?xs[?h' := overflowed (?xs ! ?h')], queue_overflow := True\<rparr>"
  have t: "queue_tail item = ?h" and h: "?h < ?n" and l: "?n \<le> length (mi_queue item)" and n: "0 < ?n"
    using assms by (auto simp: queue_inv_def)
  have e: "monitored_item_enqueue_report fp cur status item =
      (monitored_item_record_reported fp cur ?i)\<lparr>mi_pending := 0 < queue_count ?i\<rparr>"
    using assms t h queue_next_mod [OF h]
    by (simp add: monitored_item_enqueue_report_def effective_queue_size_id monitored_item_mark_overflow_def
        queue_store_def overflowed_def Let_def)
  have "queue_inv ?i" using assms n by (simp add: queue_inv_def)
  thus "queue_inv (monitored_item_enqueue_report fp cur status item)" by (simp add: e)
  have r: "ring ?xs ?h' ?n ?n = tl (queue_list item) @ [?e]"
    using ring_replace_oldest [OF h l] assms by (simp add: queue_list_def)
  have "queue_list ?i = (ring ?xs ?h' ?n ?n)[0 := overflowed (?xs ! ?h')]"
    using ring_update [of 0 ?n ?n ?xs ?h' "overflowed (?xs ! ?h')"] l n assms by (simp add: queue_list_def)
  also have "\<dots> = bounded_enqueue ?n True ?e (queue_list item)"
  proof -
    have "hd (tl (queue_list item) @ [?e]) = ring ?xs ?h' ?n ?n ! 0" unfolding r by (simp add: hd_conv_nth)
    hence "hd (tl (queue_list item) @ [?e]) = ?xs ! ?h'" using n by simp
    thus ?thesis unfolding r bounded_enqueue_def using assms(2) by simp
  qed
  finally show "queue_list (monitored_item_enqueue_report fp cur status item) =
         bounded_enqueue ?n True ?e (queue_list item)" by (simp add: e)
qed

lemma enqueue_report_newest:
  assumes "queue_inv item" "queue_count item = mi_queue_size item" "\<not> discard_oldest item"
  shows "queue_inv (monitored_item_enqueue_report fp cur status item)"
    and "queue_list (monitored_item_enqueue_report fp cur status item) =
         bounded_enqueue (mi_queue_size item) False \<lparr>qe_value = cur, qe_status = status\<rparr> (queue_list item)"
proof -
  let ?n = "mi_queue_size item" and ?h = "queue_head item" and ?e = "\<lparr>qe_value = cur, qe_status = status\<rparr>"
  let ?j = "(?h + (?n - 1)) mod ?n"
  let ?i = "item\<lparr>mi_queue := (mi_queue item)[?j := overflowed ?e], queue_overflow := True\<rparr>"
  have t: "queue_tail item = (?h + ?n) mod ?n" and h: "?h < ?n" and l: "?n \<le> length (mi_queue item)" and n: "0 < ?n"
    using assms by (auto simp: queue_inv_def)
  have j: "?j < length (mi_queue item)" using l n by (meson less_le_trans mod_less_divisor)
  have e: "monitored_item_enqueue_report fp cur status item =
      (monitored_item_record_reported fp cur ?i)\<lparr>mi_pending := 0 < queue_count ?i\<rparr>"
    using assms queue_previous_mod [OF h t] j
    by (simp add: monitored_item_enqueue_report_def effective_queue_size_id monitored_item_mark_overflow_def
        queue_store_def overflowed_def Let_def)
  have "queue_inv ?i" using assms by (simp add: queue_inv_def)
  thus "queue_inv (monitored_item_enqueue_report fp cur status item)" by (simp add: e)
  have "queue_list ?i = (queue_list item)[?n - 1 := overflowed ?e]"
    using ring_update [of "?n - 1" ?n ?n "mi_queue item" ?h "overflowed ?e"] l n assms by (simp add: queue_list_def)
  thus "queue_list (monitored_item_enqueue_report fp cur status item) =
         bounded_enqueue ?n False ?e (queue_list item)"
    using assms by (simp add: e bounded_enqueue_def)
qed

lemma queue_size_simps [simp]:
  "mi_queue_size (queue_store i cur status item) = mi_queue_size item"
  "mi_queue_size (monitored_item_mark_overflow i item) = mi_queue_size item"
  by (simp_all add: queue_store_def monitored_item_mark_overflow_def)

lemma enqueue_report_size:
  "queue_inv item \<Longrightarrow> mi_queue_size (monitored_item_enqueue_report fp cur status item) = mi_queue_size item"
  by (simp add: monitored_item_enqueue_report_def effective_queue_size_id Let_def)

lemma enqueue_report_inv: "queue_inv item \<Longrightarrow> queue_inv (monitored_item_enqueue_report fp cur status item)"
  using enqueue_report_room(1) enqueue_report_oldest(1) enqueue_report_newest(1)
  by (cases "queue_count item < mi_queue_size item"; cases "discard_oldest item") (auto simp: queue_inv_def)

lemma enqueue_report_list:
  "queue_inv item \<Longrightarrow> queue_list (monitored_item_enqueue_report fp cur status item) =
     bounded_enqueue (mi_queue_size item) (discard_oldest item) \<lparr>qe_value = cur, qe_status = status\<rparr> (queue_list item)"
proof (cases "queue_count item < mi_queue_size item")
  case True
  thus "queue_inv item \<Longrightarrow> ?thesis" using enqueue_report_room(2) by (simp add: bounded_enqueue_def)
next
  case False
  moreover assume i: "queue_inv item"
  ultimately have "queue_count item = mi_queue_size item" by (simp add: queue_inv_def)
  thus ?thesis using i enqueue_report_oldest(2) enqueue_report_newest(2) by (cases "discard_oldest item") auto
qed

lemma length_bounded_enqueue:
  "\<lbrakk>length q \<le> n; 0 < n\<rbrakk> \<Longrightarrow> length (bounded_enqueue n oldest e q) = min n (Suc (length q))"
  by (auto simp: bounded_enqueue_def)

lemma drain_loop_eq:
  "h < n \<Longrightarrow> drain_loop n h c r = ((h + min c r) mod n, c - r, r - c)"
proof (induction n h c r rule: drain_loop.induct)
  case (2 n head c r)
  have n: "(head + 1) mod n < n" using 2(2) by simp
  show ?case
  proof (cases "r = 0")
    case False
    then obtain q where q: "r = Suc q" by (cases r) auto
    have "drain_loop n ((head + 1) mod n) c q = (((head + 1) mod n + min c q) mod n, c - q, q - c)"
      using 2(1) [OF False] n 2(2) by (simp add: queue_next_mod q)
    moreover have "((head + 1) mod n + min c q) mod n = (head + min (Suc c) (Suc q)) mod n"
      by (simp only: mod_add_left_eq) simp
    ultimately show ?thesis using 2(2) by (simp add: queue_next_mod q)
  qed (use 2(2) in simp)
qed simp

lemma drain_reported:
  assumes "queue_inv item"
  shows "queue_inv (fst (monitored_item_drain_reported_entries r item))"
    and "queue_list (fst (monitored_item_drain_reported_entries r item)) = drop r (queue_list item)"
    and "snd (monitored_item_drain_reported_entries r item) = r - queue_count item"
    and "mi_queue_size (fst (monitored_item_drain_reported_entries r item)) = mi_queue_size item"
proof -
  let ?n = "mi_queue_size item" and ?h = "queue_head item" and ?c = "queue_count item"
  have h: "?h < ?n" and n: "0 < ?n" using assms by (auto simp: queue_inv_def)
  have e: "monitored_item_drain_reported_entries r item =
     (let item = item\<lparr>queue_head := (?h + min ?c r) mod ?n, queue_count := ?c - r\<rparr> in
      (if ?c - r = 0 then item\<lparr>queue_head := 0, queue_tail := 0, mi_pending := False, queue_overflow := False\<rparr>
       else item\<lparr>mi_pending := True\<rparr>, r - ?c))"
    using drain_loop_eq [OF h, of ?c r] assms
    by (simp add: monitored_item_drain_reported_entries_def effective_queue_size_id Let_def)
  have t: "((?h + r) mod ?n + (?c - r)) mod ?n = (?h + ?c) mod ?n" if "r \<le> ?c"
    using that by (simp only: mod_add_left_eq le_add_diff_inverse add.assoc)
  show "snd (monitored_item_drain_reported_entries r item) = r - ?c" by (simp add: e Let_def)
  show "mi_queue_size (fst (monitored_item_drain_reported_entries r item)) = ?n" by (simp add: e Let_def)
  show "queue_inv (fst (monitored_item_drain_reported_entries r item))"
    using assms n t by (auto simp: e Let_def queue_inv_def min_def not_le)
  have "r < ?c \<Longrightarrow> ring (mi_queue item) ((?h + r) mod ?n) (?c - r) ?n = drop r (queue_list item)"
    by (simp add: ring_drop queue_list_def)
  thus "queue_list (fst (monitored_item_drain_reported_entries r item)) = drop r (queue_list item)"
    by (simp add: e Let_def queue_list_def ring_def min_def)
qed

interpretation reports: draining_queue queue_inv queue_list mi_queue_size
    "\<lambda>e. monitored_item_enqueue_report fp (qe_value e) (qe_status e)"
    "\<lambda>r item. fst (monitored_item_drain_reported_entries r item)"
  for fp
proof unfold_locales
  fix q :: mu_monitored_item and e
  assume i: "queue_inv q"
  show "length (queue_list q) \<le> mi_queue_size q" using i by (simp add: queue_inv_def)
  show "length (queue_list q) < mi_queue_size q \<Longrightarrow>
        queue_list (monitored_item_enqueue_report fp (qe_value e) (qe_status e) q) = queue_list q @ [e]"
    using i by (simp add: enqueue_report_list bounded_enqueue_def)
  show "length (queue_list q) = mi_queue_size q \<Longrightarrow>
        length (queue_list (monitored_item_enqueue_report fp (qe_value e) (qe_status e) q)) = mi_queue_size q"
    using i length_bounded_enqueue [of "queue_list q" "mi_queue_size q"]
    by (simp add: enqueue_report_list queue_inv_def del: length_queue_list)
qed (simp_all add: enqueue_report_inv enqueue_report_size drain_reported)

lemma unat_u64: "unat (w :: u64) < 18446744073709551616"
  by (rule order.strict_trans2 [OF unsigned_less]) simp

lemma unat_max_u64: "unat (-1 :: u64) = 2 ^ 64 - 1"
  by (simp add: unsigned_minus_1_eq_mask mask_eq_exp_minus_1)

lemma unat_below_max: "(now :: u64) \<noteq> -1 \<Longrightarrow> unat now < 2 ^ 64 - 1"
proof -
  assume "now \<noteq> -1"
  hence "unat now \<noteq> 2 ^ 64 - 1" using unat_max_u64 by (metis word_unat_eq_iff)
  thus ?thesis using unat_u64 [of now] by simp
qed

lemma advance_timer_words:
  fixes nxt now i :: u64
  assumes "nxt \<le> now" "now \<noteq> -1" "0 < i"
  defines "ideal \<equiv> unat nxt + ((unat now - unat nxt) div unat i + 1) * unat i"
  shows "now - nxt < i \<Longrightarrow> (-1 - i < nxt) \<longleftrightarrow> 2 ^ 64 \<le> ideal"
    and "now - nxt < i \<Longrightarrow> ideal < 2 ^ 64 \<Longrightarrow> unat (nxt + i) = ideal"
    and "((-1 - nxt) div i < (now - nxt) div i + 1) \<longleftrightarrow> 2 ^ 64 \<le> ideal"
    and "ideal < 2 ^ 64 \<Longrightarrow> unat (nxt + ((now - nxt) div i + 1) * i) = ideal"
proof -
  let ?x = "unat nxt" and ?y = "unat now" and ?i = "unat i"
  have xy: "?x \<le> ?y" using assms(1) by (simp add: word_le_nat_alt)
  have i: "0 < ?i" using assms(3) by (simp add: word_less_nat_alt)
  note m = unat_max_u64
  have y: "?y < 2 ^ 64 - 1" by (rule unat_below_max [OF assms(2)])
  have b: "?i < 2 ^ 64" using unat_u64 [of i] by simp
  have sub: "unat (now - nxt) = ?y - ?x" using assms(1) by (simp add: unat_sub)
  have subm: "unat (-1 - nxt) = 2 ^ 64 - 1 - ?x" using unat_sub [of nxt "-1"] m by simp
  have subi: "unat (-1 - i) = 2 ^ 64 - 1 - ?i" using unat_sub [of i "-1"] m by simp
  show A: "now - nxt < i \<Longrightarrow> (-1 - i < nxt) \<longleftrightarrow> 2 ^ 64 \<le> ideal"
    using b by (auto simp: word_less_nat_alt sub subi ideal_def)
  show "now - nxt < i \<Longrightarrow> ideal < 2 ^ 64 \<Longrightarrow> unat (nxt + i) = ideal"
    by (simp add: word_less_nat_alt sub ideal_def unat_word_ariths)
  let ?k = "(?y - ?x) div ?i"
  have k: "?k < 2 ^ 64 - 1" using div_le_dividend [of "?y - ?x" ?i] y by linarith
  have steps: "unat ((now - nxt) div i + 1) = ?k + 1"
    using k by (simp add: unat_word_ariths unat_div sub)
  show "((-1 - nxt) div i < (now - nxt) div i + 1) \<longleftrightarrow> 2 ^ 64 \<le> ideal"
  proof -
    have "((-1 - nxt) div i < (now - nxt) div i + 1) \<longleftrightarrow> (2 ^ 64 - 1 - ?x) div ?i < ?k + 1"
      by (simp add: word_less_nat_alt steps unat_div subm)
    also have "\<dots> \<longleftrightarrow> 2 ^ 64 - 1 - ?x < (?k + 1) * ?i" using i by (rule div_less_iff_less_mult)
    also have "\<dots> \<longleftrightarrow> 2 ^ 64 \<le> ideal" using xy y unfolding ideal_def by linarith
    finally show ?thesis .
  qed
  show "ideal < 2 ^ 64 \<Longrightarrow> unat (nxt + ((now - nxt) div i + 1) * i) = ideal"
  proof -
    assume d: "ideal < 2 ^ 64"
    hence "unat (((now - nxt) div i + 1) * i) = (?k + 1) * ?i"
      unfolding unat_word_ariths(2) steps ideal_def by simp
    thus ?thesis using d unfolding unat_word_ariths(1) ideal_def by simp
  qed
qed

lemma advance_sample_timer_eq:
  assumes "next_sample_ms item \<le> now" "now \<noteq> -1"
  shows "unat (next_sample_ms (advance_sample_timer now item)) =
    min (2 ^ 64 - 1)
      (unat (next_sample_ms item) +
       ((unat now - unat (next_sample_ms item)) div sampling_step item + 1) * sampling_step item)"
proof -
  define i :: u64 where "i = (if sampling_interval_ms item = 0 then 1 else ucast (sampling_interval_ms item))"
  let ?x = "next_sample_ms item"
  have ui: "unat i = sampling_step item"
  proof (cases "sampling_interval_ms item = 0")
    case False
    have "unat (sampling_interval_ms item) < 2 ^ 64" using unat_u32 [of "sampling_interval_ms item"] by simp
    moreover have "1 \<le> unat (sampling_interval_ms item)" using False by (simp add: unat_eq_zero Suc_le_eq unat_gt_0)
    ultimately show ?thesis
      using False by (simp add: i_def sampling_step_def unsigned_ucast_eq take_bit_nat_eq_self_iff max_def)
  qed (simp add: i_def sampling_step_def)
  hence i: "0 < i" by (simp add: word_less_nat_alt sampling_step_def)
  note w = advance_timer_words [OF assms i, unfolded ui]
  have e: "next_sample_ms (advance_sample_timer now item) =
     (if now - ?x < i then if -1 - i < ?x then -1 else ?x + i
      else if (-1 - ?x) div i < (now - ?x) div i + 1 then -1 else ?x + ((now - ?x) div i + 1) * i)"
    using assms(1) unfolding advance_sample_timer_def Let_def i_def [symmetric] by simp
  show ?thesis
  proof (cases "2 ^ 64 \<le> unat ?x + ((unat now - unat ?x) div sampling_step item + 1) * sampling_step item")
    case True
    thus ?thesis using w(1) w(3) unfolding e by (simp add: unat_max_u64)
  next
    case False
    thus ?thesis using w unfolding e by (cases "now - ?x < i") auto
  qed
qed

text \<open>The sampling timer.  While the monotonic clock has not reached the last tick, the
  next sampling time is the first point of the grid \<open>next + k * interval\<close> after the
  current time, saturated at the largest 64-bit tick: never in the past, at most one
  interval ahead and in phase with the previous sampling time.\<close>

theorem sample_timer_on_grid:
  assumes "next_sample_ms item \<le> now" "now \<noteq> -1"
  shows "now < next_sample_ms (advance_sample_timer now item) \<and>
    unat (next_sample_ms (advance_sample_timer now item)) \<le> unat now + sampling_step item \<and>
    (next_sample_ms (advance_sample_timer now item) = -1 \<or>
     sampling_step item dvd unat (next_sample_ms (advance_sample_timer now item)) - unat (next_sample_ms item))"
proof -
  let ?x = "unat (next_sample_ms item)" and ?y = "unat now" and ?i = "sampling_step item"
  let ?n = "next_sample_ms (advance_sample_timer now item)" and ?k = "(unat now - unat (next_sample_ms item)) div sampling_step item"
  have xy: "?x \<le> ?y" using assms(1) by (simp add: word_le_nat_alt)
  have y: "?y < 2 ^ 64 - 1" by (rule unat_below_max [OF assms(2)])
  have i: "0 < ?i" by (simp add: sampling_step_def)
  have e: "unat ?n = min (2 ^ 64 - 1) (?x + (?k + 1) * ?i)" by (rule advance_sample_timer_eq [OF assms])
  have lo: "?y - ?x < (?k + 1) * ?i" using dividend_less_times_div [OF i, of "?y - ?x"] by (simp add: mult.commute)
  have hi: "?k * ?i \<le> ?y - ?x" by (rule div_times_less_eq_dividend)
  have "?y < unat ?n" unfolding e using lo y xy by linarith
  moreover have "unat ?n \<le> ?y + ?i"
  proof -
    have "?x + (?k + 1) * ?i = ?x + ?k * ?i + ?i" by simp
    hence "?x + (?k + 1) * ?i \<le> ?y + ?i" using hi xy by linarith
    thus ?thesis unfolding e by linarith
  qed
  moreover have "?i dvd unat ?n - ?x" if "?n \<noteq> -1"
  proof -
    have "unat ?n \<noteq> 2 ^ 64 - 1" using that unat_max_u64 by (metis word_unat_eq_iff)
    hence "unat ?n = ?x + (?k + 1) * ?i" unfolding e by (simp add: min_def split: if_splits)
    thus ?thesis by simp
  qed
  ultimately show ?thesis by (auto simp: word_less_nat_alt)
qed

lemma enqueue_report_frame [simp]:
  "mi_has_value (monitored_item_enqueue_report fp cur status item) = mi_has_value item"
  "has_reported (monitored_item_enqueue_report fp cur status item)"
  "next_sample_ms (monitored_item_enqueue_report fp cur status item) = next_sample_ms item"
  "attribute_id (monitored_item_enqueue_report fp cur status item) = attribute_id item"
  by (simp_all add: monitored_item_enqueue_report_def monitored_item_effective_queue_size_def
      monitored_item_record_reported_def monitored_item_mark_overflow_def queue_store_def Let_def split: option.split)

lemma advance_sample_timer_queue [simp]:
  "queue_list (advance_sample_timer now item) = queue_list item"
  "queue_inv (advance_sample_timer now item) = queue_inv item"
  by (simp_all add: advance_sample_timer_def Let_def queue_list_def queue_inv_def)

lemma last_value_queue [simp]:
  "queue_list (item\<lparr>last_value := v, last_status := s, mi_has_value := b\<rparr>) = queue_list item"
  "queue_inv (item\<lparr>last_value := v, last_status := s, mi_has_value := b\<rparr>) = queue_inv item"
  "queue_list (item\<lparr>last_value := v, last_status := s\<rparr>) = queue_list item"
  "queue_inv (item\<lparr>last_value := v, last_status := s\<rparr>) = queue_inv item"
  "queue_inv (item\<lparr>aggregate_state := ag\<rparr>) = queue_inv item"
  "queue_list (item\<lparr>aggregate_state := ag\<rparr>) = queue_list item"
  by (simp_all add: queue_list_def queue_inv_def)

lemma prepare_pending_inv: "queue_inv item \<Longrightarrow> queue_inv (monitored_item_prepare_pending_queue fp item)"
  by (simp add: monitored_item_prepare_pending_queue_def enqueue_report_inv)

lemma publish_aggregate_inv: "queue_inv item \<Longrightarrow> queue_inv (monitored_item_publish_aggregate fp now item)"
  by (simp add: monitored_item_publish_aggregate_def enqueue_report_inv Let_def split: prod.split)

lemma accumulate_aggregate_inv: "queue_inv (monitored_item_accumulate_aggregate fp cur item) = queue_inv item"
  by (simp add: monitored_item_accumulate_aggregate_def Let_def split: option.split)

lemma sample_item_inv: "queue_inv item \<Longrightarrow> queue_inv (sample_item fp callbacks now item)"
  by (simp add: sample_item_def Let_def publish_aggregate_inv accumulate_aggregate_inv prepare_pending_inv
      enqueue_report_inv split: prod.split)


lemma accumulate_value:
  assumes "variant_numeric_to_double fp v = Some x"
    "ag_type (aggregate_state item) \<in> {MU_ID_AGGREGATETYPE_MINIMUM, MU_ID_AGGREGATETYPE_MAXIMUM}"
    "ag_sample_count (aggregate_state item) \<noteq> 0 \<Longrightarrow> variant_numeric_to_double fp (ag_value (aggregate_state item)) = Some m"
  shows "aggregate_state (monitored_item_accumulate_aggregate fp v item) =
    (aggregate_state item)\<lparr>ag_sample_count := ag_sample_count (aggregate_state item) + 1,
      ag_value := (if ag_sample_count (aggregate_state item) = 0 \<or>
                      (if ag_type (aggregate_state item) = MU_ID_AGGREGATETYPE_MINIMUM then fp_less fp x m else fp_less fp m x)
                   then v else ag_value (aggregate_state item))\<rparr>"
  using assms by (cases "ag_sample_count (aggregate_state item) = 0")
    (auto simp: monitored_item_accumulate_aggregate_def Let_def)

lemma accumulate_sum:
  assumes "variant_numeric_to_double fp v = Some x" "ag_type (aggregate_state item) = MU_ID_AGGREGATETYPE_AVERAGE"
  shows "aggregate_state (monitored_item_accumulate_aggregate fp v item) =
    (aggregate_state item)\<lparr>ag_sample_count := ag_sample_count (aggregate_state item) + 1,
      ag_sum := fp_add fp (ag_sum (aggregate_state item)) x\<rparr>"
  using assms by (simp add: monitored_item_accumulate_aggregate_def Let_def)

lemma extremum_step:
  fixes less :: "u64 \<Rightarrow> u64 \<Rightarrow> bool" and v r :: 'v and f :: "'v \<Rightarrow> u64"
  assumes "irreflp less" "transp less" "r \<in> set vs" "list_all (\<lambda>v. \<not> less (f v) (f r)) vs"
  defines "r' \<equiv> (if less (f v) (f r) then v else r)"
  shows "r' \<in> set (vs @ [v]) \<and> list_all (\<lambda>v. \<not> less (f v) (f r')) (vs @ [v])"
  using assms by (auto simp: list_all_iff irreflp_def dest: transpD)

lemma accumulates_step:
  assumes acc: "accumulates fp type vs (aggregate_state item)" and t: "supported_aggregate type"
    and v: "variant_numeric_to_double fp v = Some x" and l: "length vs < 2 ^ 32 - 1"
    and num: "list_all (\<lambda>v. variant_numeric_to_double fp v \<noteq> None) vs"
    and ord: "irreflp (fp_less fp)" "transp (fp_less fp)"
  shows "accumulates fp type (vs @ [v]) (aggregate_state (monitored_item_accumulate_aggregate fp v item))"
proof -
  let ?ag = "aggregate_state item" and ?ag' = "aggregate_state (monitored_item_accumulate_aggregate fp v item)"
  have ty: "ag_type ?ag = type" and c0: "unat (ag_sample_count ?ag) = length vs"
    using acc by (auto simp: accumulates_def)
  have c: "unat (ag_sample_count ?ag + 1) = Suc (length vs)" using c0 l by (simp add: unat_word_ariths)
  have z: "ag_sample_count ?ag = 0 \<longleftrightarrow> vs = []" using c0 by (simp add: unat_eq_zero [symmetric])
  have x: "num fp v = x" using v by (simp add: num_def)
  show ?thesis
  proof (cases "type = MU_ID_AGGREGATETYPE_AVERAGE")
    case True
    thus ?thesis using acc c x accumulate_sum [OF v, of item] ty by (simp add: accumulates_def)
  next
    case False
    hence mm: "type \<in> {MU_ID_AGGREGATETYPE_MINIMUM, MU_ID_AGGREGATETYPE_MAXIMUM}"
      using t by (simp add: supported_aggregate_def)
    have r: "vs \<noteq> [] \<Longrightarrow> is_aggregate fp type vs (ag_value ?ag)" using acc False by (simp add: accumulates_def)
    hence "vs \<noteq> [] \<Longrightarrow> ag_value ?ag \<in> set vs" using False by (simp add: is_aggregate_def split: if_splits)
    hence m: "ag_sample_count ?ag \<noteq> 0 \<Longrightarrow> variant_numeric_to_double fp (ag_value ?ag) = Some (num fp (ag_value ?ag))"
      using num z by (auto simp: list_all_iff num_def)
    have v': "ag_value ?ag' = (if vs = [] \<or> (if type = MU_ID_AGGREGATETYPE_MINIMUM
        then fp_less fp (num fp v) (num fp (ag_value ?ag)) else fp_less fp (num fp (ag_value ?ag)) (num fp v))
        then v else ag_value ?ag)"
      and f: "ag_type ?ag' = type" "unat (ag_sample_count ?ag') = Suc (length vs)"
      using accumulate_value [OF v _ m] mm ty z x c by simp_all
    have "is_aggregate fp type (vs @ [v]) (ag_value ?ag')"
    proof (cases "vs = []")
      case True
      thus ?thesis using v' False ord(1) by (simp add: is_aggregate_def irreflp_def)
    next
      case ne: False
      have rev: "irreflp (\<lambda>a b. fp_less fp b a)" "transp (\<lambda>a b. fp_less fp b a)"
        using ord by (auto simp: irreflp_def transp_def)
      show ?thesis
        using r [OF ne] False ne v' extremum_step [OF ord, of "ag_value ?ag" vs "num fp" v]
          extremum_step [OF rev, of "ag_value ?ag" vs "num fp" v]
        by (cases "type = MU_ID_AGGREGATETYPE_MINIMUM") (simp_all add: is_aggregate_def)
    qed
    thus ?thesis using f False by (simp add: accumulates_def)
  qed
qed

lemma accumulate_frame:
  "\<exists>ag. monitored_item_accumulate_aggregate fp v item = item\<lparr>aggregate_state := ag\<rparr>"
proof (cases "variant_numeric_to_double fp v")
  case None
  thus ?thesis by (intro exI [of _ "aggregate_state item"]) (simp add: monitored_item_accumulate_aggregate_def)
qed (auto simp: monitored_item_accumulate_aggregate_def Let_def)

lemma fold_accumulate_frame:
  "\<exists>ag. fold (monitored_item_accumulate_aggregate fp) vs item = item\<lparr>aggregate_state := ag\<rparr>"
proof (induction vs arbitrary: item)
  case Nil
  show ?case by (intro exI [of _ "aggregate_state item"]) simp
next
  case (Cons v vs)
  obtain ag where "monitored_item_accumulate_aggregate fp v item = item\<lparr>aggregate_state := ag\<rparr>"
    using accumulate_frame by blast
  thus ?case using Cons [of "item\<lparr>aggregate_state := ag\<rparr>"] by simp
qed

lemma fold_accumulates:
  assumes "fresh_aggregate item" "ag_type (aggregate_state item) = type" "supported_aggregate type"
    and ord: "irreflp (fp_less fp)" "transp (fp_less fp)"
  shows "\<lbrakk>list_all (\<lambda>v. variant_numeric_to_double fp v \<noteq> None) vs; length vs < 2 ^ 32\<rbrakk> \<Longrightarrow>
    accumulates fp type vs (aggregate_state (fold (monitored_item_accumulate_aggregate fp) vs item))"
proof (induction vs rule: rev_induct)
  case Nil
  thus ?case using assms by (simp add: accumulates_def fresh_aggregate_def)
next
  case (snoc v vs)
  obtain x where "variant_numeric_to_double fp v = Some x" using snoc(2) by auto
  thus ?case using accumulates_step [OF snoc(1) assms(3) _ _ _ ord] snoc by simp
qed

lemma publish_aggregate_eq:
  assumes "ag_sample_count (aggregate_state item) \<noteq> 0" "supported_aggregate (ag_type (aggregate_state item))"
  shows "\<exists>ag. monitored_item_publish_aggregate fp now item =
    (monitored_item_enqueue_report fp
      (if ag_type (aggregate_state item) = MU_ID_AGGREGATETYPE_AVERAGE
       then VScalar (V_Double (fp_div fp (ag_sum (aggregate_state item)) (fp_of_int fp (uint (ag_sample_count (aggregate_state item))))))
       else ag_value (aggregate_state item)) MU_STATUS_GOOD item)\<lparr>aggregate_state := ag\<rparr> \<and>
    ag_sample_count ag = 0 \<and> ag_sum ag = 0"
  using assms by (auto simp: monitored_item_publish_aggregate_def Let_def supported_aggregate_def)

text \<open>C26: Aggregates.  The samples \<open>vs\<close> taken in one processing interval are reported as one
  good value that is their average, minimum or maximum, as the aggregate type asks, and
  the accumulator starts afresh.  The order of doubles need only be irreflexive and
  transitive, as that of IEEE 754 is.\<close>

theorem aggregate_reported:
  assumes "queue_inv item" "fresh_aggregate item" "ag_type (aggregate_state item) = type" "supported_aggregate type"
    and "irreflp (fp_less fp)" "transp (fp_less fp)"
    and "vs \<noteq> []" "length vs < 2 ^ 32" "list_all (\<lambda>v. variant_numeric_to_double fp v \<noteq> None) vs"
  shows "\<exists>r. is_aggregate fp type vs r \<and>
    queue_list (monitored_item_publish_aggregate fp now (fold (monitored_item_accumulate_aggregate fp) vs item)) =
      bounded_enqueue (mi_queue_size item) (discard_oldest item) \<lparr>qe_value = r, qe_status = MU_STATUS_GOOD\<rparr> (queue_list item) \<and>
    fresh_aggregate (monitored_item_publish_aggregate fp now (fold (monitored_item_accumulate_aggregate fp) vs item))"
proof -
  obtain ag where f: "fold (monitored_item_accumulate_aggregate fp) vs item = item\<lparr>aggregate_state := ag\<rparr>"
    using fold_accumulate_frame by blast
  have acc: "accumulates fp type vs ag"
    using fold_accumulates [OF assms(2-6) assms(9) assms(8)] by (simp add: f)
  hence ty: "ag_type ag = type" and c: "unat (ag_sample_count ag) = length vs" by (auto simp: accumulates_def)
  hence z: "ag_sample_count ag \<noteq> 0" and u: "uint (ag_sample_count ag) = int (length vs)"
    using assms(7) by (auto simp: uint_nat)
  let ?r = "if type = MU_ID_AGGREGATETYPE_AVERAGE
       then VScalar (V_Double (fp_div fp (ag_sum ag) (fp_of_int fp (int (length vs))))) else ag_value ag"
  have "is_aggregate fp type vs ?r" using acc assms(7) by (auto simp: accumulates_def is_aggregate_def split: if_splits)
  moreover have "\<exists>ag'. monitored_item_publish_aggregate fp now (item\<lparr>aggregate_state := ag\<rparr>) =
      (monitored_item_enqueue_report fp ?r MU_STATUS_GOOD (item\<lparr>aggregate_state := ag\<rparr>))\<lparr>aggregate_state := ag'\<rparr> \<and>
      ag_sample_count ag' = 0 \<and> ag_sum ag' = 0"
    using publish_aggregate_eq [of "item\<lparr>aggregate_state := ag\<rparr>" fp now] z ty assms(4) u
    by (cases "type = MU_ID_AGGREGATETYPE_AVERAGE") simp_all
  ultimately show ?thesis
    using assms(1) by (intro exI [of _ ?r]) (auto simp: f enqueue_report_list fresh_aggregate_def)
qed

text \<open>C24: The report queue of a monitored item, a ring of \<open>MU_MONITORED_QUEUE_DEPTH\<close>
  slots, is a bounded first-in first-out queue: a report is appended while there is room;
  when the queue is full either the oldest report is dropped and the new oldest one marked
  with the overflow bit, or the newest report is replaced and marked.  Draining removes
  the oldest reports, and every step keeps the ring well formed.\<close>

theorem report_queue_refines:
  assumes "queue_inv item"
  shows "queue_inv (monitored_item_enqueue_report fp cur status item) \<and>
    queue_list (monitored_item_enqueue_report fp cur status item) =
      bounded_enqueue (mi_queue_size item) (discard_oldest item) \<lparr>qe_value = cur, qe_status = status\<rparr> (queue_list item) \<and>
    queue_inv (fst (monitored_item_drain_reported_entries r item)) \<and>
    queue_list (fst (monitored_item_drain_reported_entries r item)) = drop r (queue_list item) \<and>
    snd (monitored_item_drain_reported_entries r item) = r - length (queue_list item)"
  using assms by (simp add: enqueue_report_inv enqueue_report_list drain_reported)

text \<open>No report is lost or reordered while the queue has room: after draining \<open>r\<close>
  reports and queueing \<open>es\<close> that fit, the queue holds the rest of the old reports and then
  \<open>es\<close>, and whatever is queued, its length is never above the queue size.\<close>

theorem report_queue_fifo:
  fixes es fs :: "queue_entry list"
  assumes "queue_inv item" "length (queue_list item) - r + length es \<le> mi_queue_size item"
  shows "queue_list (fold (\<lambda>e. monitored_item_enqueue_report fp (qe_value e) (qe_status e)) es
           (fst (monitored_item_drain_reported_entries r item))) = drop r (queue_list item) @ es \<and>
    length (queue_list (fold (\<lambda>e. monitored_item_enqueue_report fp (qe_value e) (qe_status e)) fs item)) =
      min (mi_queue_size item) (length (queue_list item) + length fs)"
  by (intro conjI) (rule reports.drain_then_enqueue [OF assms], rule reports.length_fold_enq [OF assms(1)])

subsection \<open>Examples\<close>

lemma example_item_inv: "queue_inv example_item"
  by (simp add: queue_inv_def example_item_def zero_item_def MU_MONITORED_QUEUE_DEPTH_def)

theorem sample_timer_on_grid_witness:
  "(230 :: u64) < next_sample_ms (advance_sample_timer 230 example_item)"
  using sample_timer_on_grid [of example_item 230] by (simp add: example_item_def)


theorem aggregate_reported_witness:
  "\<exists>r. is_aggregate example_fp MU_ID_AGGREGATETYPE_MINIMUM [VScalar (V_Byte 3), VScalar (V_Byte 1)] r"
  using aggregate_reported [of "example_item\<lparr>aggregate_state := zero_aggregate\<lparr>ag_type := MU_ID_AGGREGATETYPE_MINIMUM\<rparr>\<rparr>"
      MU_ID_AGGREGATETYPE_MINIMUM example_fp "[VScalar (V_Byte 3), VScalar (V_Byte 1)]" 0] example_item_inv
  by (auto simp: fresh_aggregate_def zero_aggregate_def supported_aggregate_def example_fp_def irreflp_def transp_def)

theorem report_queue_refines_witness:
  "queue_list (monitored_item_enqueue_report example_fp (VScalar (V_Byte 7)) MU_STATUS_GOOD example_item) =
     [\<lparr>qe_value = VScalar (V_Byte 7), qe_status = MU_STATUS_GOOD\<rparr>]"
  using report_queue_refines [OF example_item_inv, of example_fp "VScalar (V_Byte 7)" MU_STATUS_GOOD 0]
  by (simp add: bounded_enqueue_def queue_list_def ring_def example_item_def zero_item_def)

theorem report_queue_fifo_witness:
  "queue_list (fold (\<lambda>e. monitored_item_enqueue_report example_fp (qe_value e) (qe_status e))
     [\<lparr>qe_value = VNull, qe_status = 1\<rparr>, \<lparr>qe_value = VNull, qe_status = 2\<rparr>]
     (fst (monitored_item_drain_reported_entries 1 example_item))) =
     [\<lparr>qe_value = VNull, qe_status = 1\<rparr>, \<lparr>qe_value = VNull, qe_status = 2\<rparr>]"
  using report_queue_fifo [OF example_item_inv, of 1 "[\<lparr>qe_value = VNull, qe_status = 1\<rparr>, \<lparr>qe_value = VNull, qe_status = 2\<rparr>]"
      example_fp "[]"]
  by (simp add: queue_list_def ring_def example_item_def zero_item_def)

end
