(* ===== verification/Subscription.thy ===== *)
theory Subscription
  imports Monitored_Item
begin

text \<open>
  The tables of the subscription engine (\<^verbatim>\<open>src/services/subscription.c\<close> and
  \<^verbatim>\<open>subscription.h\<close>): subscriptions, monitored items and parked Publish requests in
  fixed arrays, their identifiers, the retransmission slot, trigger links, the event
  queues and the publishing timer.  A pointer into an array is the index of the slot.
\<close>

section \<open>Data\<close>

definition MU_MAX_SUBSCRIPTIONS :: nat where "MU_MAX_SUBSCRIPTIONS = 2"
definition MU_MAX_MONITORED_ITEMS :: nat where "MU_MAX_MONITORED_ITEMS = 100"
definition MU_MAX_PUBLISH_REQUESTS :: nat where "MU_MAX_PUBLISH_REQUESTS = 5"
definition MU_MAX_PUBLISH_ACKS :: nat where "MU_MAX_PUBLISH_ACKS = 4"
definition MU_RETRANSMIT_BYTES :: nat where "MU_RETRANSMIT_BYTES = 256"
definition MU_MAX_EVENT_QUEUE_SIZE :: nat where "MU_MAX_EVENT_QUEUE_SIZE = 8"

record mu_event_notification =
  event_type :: mu_nodeid
  event_id :: mu_string
  event_time :: u64
  event_message :: mu_string
  severity :: u16

record mu_event_queue =
  eq_queue :: "mu_event_notification list"
  eq_head :: nat
  eq_tail :: nat
  eq_count :: nat

record mu_retransmit_slot =
  rt_valid :: bool
  rt_sequence_number :: u32
  rt_publish_time :: u64
  rt_message :: "byte list"
  rt_message_len :: nat

record mu_subscription =
  next_publish_ms :: u64
  retransmit :: mu_retransmit_slot
  subscription_id :: u32
  sub_session_id :: u32
  publishing_interval_ms :: u32
  max_keep_alive_count :: u32
  lifetime_count :: u32
  max_notifications_per_publish :: u32
  sequence_number :: u32
  keep_alive_counter :: u32
  lifetime_counter :: u32
  priority :: byte
  sub_in_use :: bool
  publishing_enabled :: bool
  more_notifications :: bool
  resend_data_pending :: bool
  event_queue :: mu_event_queue

record mu_publish_request =
  pr_in_use :: bool
  pr_session_id :: u32
  pr_request_handle :: u32
  pr_request_id :: u32
  enqueued_ms :: u64
  ack_count :: u32
  ack_results :: "statuscode list"

record mu_subscriptions =
  subscriptions :: "mu_subscription list"
  monitored_items :: "mu_monitored_item list"
  publish_queue :: "mu_publish_request list"
  next_subscription_id :: u32
  next_monitored_item_id :: u32
  active_monitored_items_count :: u32

text \<open>Slots cleared to zero bytes.\<close>

definition zero_event :: mu_event_notification where
  "zero_event = \<lparr>event_type = zero_nodeid, event_id = \<lparr>str_length = 0, str_data = None\<rparr>, event_time = 0,
     event_message = \<lparr>str_length = 0, str_data = None\<rparr>, severity = 0\<rparr>"

definition zero_event_queue :: mu_event_queue where
  "zero_event_queue = \<lparr>eq_queue = replicate MU_MAX_EVENT_QUEUE_SIZE zero_event, eq_head = 0, eq_tail = 0, eq_count = 0\<rparr>"

definition zero_subscription :: mu_subscription where
  "zero_subscription = \<lparr>next_publish_ms = 0,
     retransmit = \<lparr>rt_valid = False, rt_sequence_number = 0, rt_publish_time = 0,
       rt_message = replicate MU_RETRANSMIT_BYTES 0, rt_message_len = 0\<rparr>,
     subscription_id = 0, sub_session_id = 0, publishing_interval_ms = 0, max_keep_alive_count = 0, lifetime_count = 0,
     max_notifications_per_publish = 0, sequence_number = 0, keep_alive_counter = 0, lifetime_counter = 0, priority = 0,
     sub_in_use = False, publishing_enabled = False, more_notifications = False, resend_data_pending = False,
     event_queue = zero_event_queue\<rparr>"

definition zero_publish_request :: mu_publish_request where
  "zero_publish_request = \<lparr>pr_in_use = False, pr_session_id = 0, pr_request_handle = 0, pr_request_id = 0,
     enqueued_ms = 0, ack_count = 0, ack_results = replicate MU_MAX_PUBLISH_ACKS 0\<rparr>"

definition mu_subscriptions_init :: mu_subscriptions where
  "mu_subscriptions_init = \<lparr>subscriptions = replicate MU_MAX_SUBSCRIPTIONS zero_subscription,
     monitored_items = replicate MU_MAX_MONITORED_ITEMS zero_item,
     publish_queue = replicate MU_MAX_PUBLISH_REQUESTS zero_publish_request,
     next_subscription_id = 1, next_monitored_item_id = 1, active_monitored_items_count = 0\<rparr>"

section \<open>Identifiers\<close>

definition subscription_id_in_use :: "mu_subscriptions \<Rightarrow> u32 \<Rightarrow> bool" where
  "subscription_id_in_use subs ident = list_ex (\<lambda>sub. sub_in_use sub \<and> subscription_id sub = ident) (subscriptions subs)"

definition monitored_item_id_in_use :: "mu_subscriptions \<Rightarrow> u32 \<Rightarrow> bool" where
  "monitored_item_id_in_use subs ident = list_ex (\<lambda>item. mi_in_use item \<and> monitored_item_id item = ident) (monitored_items subs)"

text \<open>The loop that both allocators run: \<open>n\<close> candidates from \<open>nxt\<close> on, never zero; the
  result is the identifier, or zero, and the candidate to continue with.\<close>

primrec id_search :: "(u32 \<Rightarrow> bool) \<Rightarrow> nat \<Rightarrow> u32 \<Rightarrow> u32 \<times> u32" where
  "id_search used 0 nxt = (0, nxt)"
| "id_search used (Suc n) nxt =
    (let id = (if nxt = 0 then 1 else nxt);
         nxt = (if id + 1 = 0 then 1 else id + 1) in
     if \<not> used id then (id, nxt) else id_search used n nxt)"

definition allocate_subscription_id :: "mu_subscriptions \<Rightarrow> u32 \<times> mu_subscriptions" where
  "allocate_subscription_id subs =
    (let (id, nxt) = id_search (subscription_id_in_use subs) (MU_MAX_SUBSCRIPTIONS + 1) (next_subscription_id subs) in
     (id, subs\<lparr>next_subscription_id := nxt\<rparr>))"

definition allocate_monitored_item_id :: "mu_subscriptions \<Rightarrow> u32 \<times> mu_subscriptions" where
  "allocate_monitored_item_id subs =
    (let (id, nxt) = id_search (monitored_item_id_in_use subs) (MU_MAX_MONITORED_ITEMS + 1) (next_monitored_item_id subs) in
     (id, subs\<lparr>next_monitored_item_id := nxt\<rparr>))"

definition find_monitored_item_in_subscription :: "mu_subscriptions \<Rightarrow> u32 \<Rightarrow> u32 \<Rightarrow> nat option" where
  "find_monitored_item_in_subscription subs sid iid =
     find_index (\<lambda>item. mi_in_use item \<and> mi_subscription_id item = sid \<and> monitored_item_id item = iid) (monitored_items subs)"

section \<open>Subscriptions\<close>

definition revise_subscription_counts :: "u32 \<Rightarrow> u32 \<Rightarrow> u32 \<times> u32" where
  "revise_subscription_counts requested_lifetime requested_keep_alive =
    (let keep_alive = (if requested_keep_alive = 0 then 1 else requested_keep_alive);
         keep_alive = (if 0xFFFFFFFF div 3 < keep_alive then 0xFFFFFFFF div 3 else keep_alive);
         min_lifetime = keep_alive * 3;
         lifetime = (if requested_lifetime < min_lifetime then min_lifetime else requested_lifetime) in
     (lifetime, keep_alive))"

definition mu_subscription_apply_parameters :: "u32 \<Rightarrow> u32 \<Rightarrow> u32 \<Rightarrow> u32 \<Rightarrow> byte \<Rightarrow> mu_subscription \<Rightarrow> mu_subscription" where
  "mu_subscription_apply_parameters interval lifetime keep_alive max_notifications prio sub =
    (let (revised_lifetime, revised_keep_alive) = revise_subscription_counts lifetime keep_alive in
     sub\<lparr>publishing_interval_ms := interval, max_keep_alive_count := revised_keep_alive,
         lifetime_count := revised_lifetime, max_notifications_per_publish := max_notifications, priority := prio\<rparr>)"

text \<open>The result is the status or the slot, with the tables.\<close>

definition mu_subscription_create ::
    "u32 \<Rightarrow> u32 \<Rightarrow> u32 \<Rightarrow> u32 \<Rightarrow> u32 \<Rightarrow> byte \<Rightarrow> bool \<Rightarrow> u64 \<Rightarrow> mu_subscriptions \<Rightarrow> (statuscode + nat) \<times> mu_subscriptions" where
  "mu_subscription_create session interval lifetime keep_alive max_notifications prio enabled now subs =
    (case find_index (\<lambda>sub. \<not> sub_in_use sub) (subscriptions subs) of
       None \<Rightarrow> (Inl MU_STATUS_BAD_TOOMANYSUBSCRIPTIONS, subs)
     | Some i \<Rightarrow>
         let (id, subs) = allocate_subscription_id subs in
         if id = 0 then (Inl MU_STATUS_BAD_TOOMANYSUBSCRIPTIONS, subs)
         else
         let sub = zero_subscription\<lparr>sub_in_use := True, subscription_id := id, sub_session_id := session\<rparr>;
             sub = mu_subscription_apply_parameters interval lifetime keep_alive max_notifications prio sub;
             sub = sub\<lparr>publishing_enabled := enabled, sequence_number := 1, keep_alive_counter := 0, lifetime_counter := 0,
                       next_publish_ms := now + ucast interval, more_notifications := False,
                       retransmit := (retransmit sub)\<lparr>rt_valid := False\<rparr>\<rparr> in
         (Inr i, subs\<lparr>subscriptions := (subscriptions subs)[i := sub]\<rparr>))"

definition mu_subscription_find :: "mu_subscriptions \<Rightarrow> u32 \<Rightarrow> u32 \<Rightarrow> nat option" where
  "mu_subscription_find subs session sid =
     find_index (\<lambda>sub. sub_in_use sub \<and> sub_session_id sub = session \<and> subscription_id sub = sid) (subscriptions subs)"

definition update_subscription :: "nat \<Rightarrow> (mu_subscription \<Rightarrow> mu_subscription) \<Rightarrow> mu_subscriptions \<Rightarrow> mu_subscriptions" where
  "update_subscription i f subs = subs\<lparr>subscriptions := (subscriptions subs)[i := f (subscriptions subs ! i)]\<rparr>"

definition update_item :: "nat \<Rightarrow> (mu_monitored_item \<Rightarrow> mu_monitored_item) \<Rightarrow> mu_subscriptions \<Rightarrow> mu_subscriptions" where
  "update_item i f subs = subs\<lparr>monitored_items := (monitored_items subs)[i := f (monitored_items subs ! i)]\<rparr>"

definition mu_subscription_acknowledge :: "u32 \<Rightarrow> u32 \<Rightarrow> u32 \<Rightarrow> mu_subscriptions \<Rightarrow> statuscode \<times> mu_subscriptions" where
  "mu_subscription_acknowledge session sid seq subs =
    (case mu_subscription_find subs session sid of
       None \<Rightarrow> (MU_STATUS_BAD_SUBSCRIPTIONIDINVALID, subs)
     | Some i \<Rightarrow>
         let rt = retransmit (subscriptions subs ! i) in
         if rt_valid rt \<and> rt_sequence_number rt = seq
         then (MU_STATUS_GOOD,
               update_subscription i (\<lambda>sub. sub\<lparr>retransmit := rt\<lparr>rt_valid := False, rt_message_len := 0\<rparr>\<rparr>) subs)
         else (MU_STATUS_BAD_SEQUENCENUMBERUNKNOWN, subs))"

definition mu_subscription_republish :: "u32 \<Rightarrow> u32 \<Rightarrow> u32 \<Rightarrow> mu_subscriptions \<Rightarrow> statuscode + byte list" where
  "mu_subscription_republish session sid seq subs =
    (case mu_subscription_find subs session sid of
       None \<Rightarrow> Inl MU_STATUS_BAD_SUBSCRIPTIONIDINVALID
     | Some i \<Rightarrow>
         let rt = retransmit (subscriptions subs ! i) in
         if rt_valid rt \<and> rt_sequence_number rt = seq then Inr (take (rt_message_len rt) (rt_message rt))
         else Inl MU_STATUS_BAD_MESSAGENOTAVAILABLE)"

definition store_retransmit :: "u32 \<Rightarrow> u64 \<Rightarrow> byte list \<Rightarrow> mu_subscription \<Rightarrow> mu_subscription" where
  "store_retransmit seq publish_time body sub =
    (let rt = (retransmit sub)\<lparr>rt_valid := False, rt_message_len := 0\<rparr> in
     if MU_RETRANSMIT_BYTES < length body then sub\<lparr>retransmit := rt\<rparr>
     else sub\<lparr>retransmit := rt\<lparr>rt_sequence_number := seq, rt_publish_time := publish_time,
                rt_message := overwrite (rt_message rt) 0 body, rt_message_len := length body, rt_valid := True\<rparr>\<rparr>)"

text \<open>The loop of \<^verbatim>\<open>mu_subscription_delete\<close> over the items.\<close>

fun delete_items :: "u32 \<Rightarrow> mu_monitored_item list \<Rightarrow> u32 \<Rightarrow> mu_monitored_item list \<times> u32" where
  "delete_items sid [] active = ([], active)"
| "delete_items sid (item # items) active =
    (if mi_in_use item \<and> mi_subscription_id item = sid
     then let (items, active) = delete_items sid items (if 0 < active then active - 1 else active) in
          (zero_item # items, active)
     else let (items, active) = delete_items sid items active in (item # items, active))"

definition mu_subscription_delete :: "u32 \<Rightarrow> u32 \<Rightarrow> mu_subscriptions \<Rightarrow> statuscode \<times> mu_subscriptions" where
  "mu_subscription_delete session sid subs =
    (case mu_subscription_find subs session sid of
       None \<Rightarrow> (MU_STATUS_BAD_SUBSCRIPTIONIDINVALID, subs)
     | Some i \<Rightarrow>
         let (items, active) = delete_items sid (monitored_items subs) (active_monitored_items_count subs) in
         (MU_STATUS_GOOD,
          subs\<lparr>monitored_items := items, active_monitored_items_count := active,
               subscriptions := (subscriptions subs)[i := zero_subscription]\<rparr>))"

definition mu_subscription_request_resend_data :: "u32 \<Rightarrow> u32 \<Rightarrow> mu_subscriptions \<Rightarrow> statuscode \<times> mu_subscriptions" where
  "mu_subscription_request_resend_data session sid subs =
    (case mu_subscription_find subs session sid of
       None \<Rightarrow> (MU_STATUS_BAD_SUBSCRIPTIONIDINVALID, subs)
     | Some i \<Rightarrow> (MU_STATUS_GOOD, update_subscription i (\<lambda>sub. sub\<lparr>resend_data_pending := True\<rparr>) subs))"

definition current_sequence_number :: "mu_subscription \<Rightarrow> u32 \<times> mu_subscription" where
  "current_sequence_number sub =
    (let sub = (if sequence_number sub = 0 then sub\<lparr>sequence_number := 1\<rparr> else sub) in (sequence_number sub, sub))"

definition advance_sequence_number :: "mu_subscription \<Rightarrow> mu_subscription" where
  "advance_sequence_number sub =
    (let sub = sub\<lparr>sequence_number := sequence_number sub + 1\<rparr> in
     if sequence_number sub = 0 then sub\<lparr>sequence_number := 1\<rparr> else sub)"

text \<open>The \<^verbatim>\<open>do ... while\<close> loop of the publishing timer, which ends because the timer
  grows; the caller replaces an interval of zero by one.\<close>

function publish_timer_loop :: "u64 \<Rightarrow> u64 \<Rightarrow> u64 \<Rightarrow> u64" where
  "publish_timer_loop interval now nxt =
    (if interval = 0 \<or> -1 - interval < nxt then -1
     else let nxt = nxt + interval in if nxt \<le> now then publish_timer_loop interval now nxt else nxt)"
  by pat_completeness auto
termination
proof (relation "measure (\<lambda>(interval, now, nxt). 2 ^ 64 - unat nxt)", goal_cases)
  case (2 interval now nxt x)
  have i: "0 < unat interval" using 2(1) by (simp add: unat_gt_0)
  have "unat nxt \<le> unat (-1 - interval)" using 2(1) by (simp add: word_le_nat_alt not_less)
  moreover have "unat (-1 - interval) = unat (-1 :: u64) - unat interval" by (rule unat_sub) simp
  ultimately have "unat nxt + unat interval < 2 ^ 64" using unat_max_u64 unat_u64 [of interval] i by simp
  hence "unat (nxt + interval) = unat nxt + unat interval" by (simp add: unat_word_ariths)
  thus ?case using i 2(2) unat_u64 [of "nxt + interval"] by simp
qed simp

definition advance_publish_timer :: "u64 \<Rightarrow> mu_subscription \<Rightarrow> mu_subscription" where
  "advance_publish_timer now sub =
    (let interval = (if publishing_interval_ms sub = 0 then 1 else ucast (publishing_interval_ms sub)) :: u64 in
     sub\<lparr>next_publish_ms := publish_timer_loop interval now (next_publish_ms sub)\<rparr>)"

section \<open>Publish requests\<close>

definition mu_publish_request_enqueue ::
    "u32 \<Rightarrow> u32 \<Rightarrow> u32 \<Rightarrow> u64 \<Rightarrow> mu_subscriptions \<Rightarrow> (statuscode + nat) \<times> mu_subscriptions" where
  "mu_publish_request_enqueue session request_id handle now subs =
    (case find_index (\<lambda>r. \<not> pr_in_use r) (publish_queue subs) of
       None \<Rightarrow> (Inl MU_STATUS_BAD_TOOMANYPUBLISHREQUESTS, subs)
     | Some i \<Rightarrow>
         (Inr i, subs\<lparr>publish_queue := (publish_queue subs)[i := zero_publish_request\<lparr>pr_in_use := True,
            pr_session_id := session, pr_request_id := request_id, pr_request_handle := handle,
            enqueued_ms := now, ack_count := 0\<rparr>]\<rparr>))"

text \<open>The scan for the oldest request of a session: the slot found so far and its time.\<close>

fun oldest_request :: "u32 \<Rightarrow> nat \<Rightarrow> mu_publish_request list \<Rightarrow> (nat \<times> u64) option \<Rightarrow> (nat \<times> u64) option" where
  "oldest_request session i [] best = best"
| "oldest_request session i (r # rs) best =
    (if \<not> pr_in_use r \<or> pr_session_id r \<noteq> session then oldest_request session (Suc i) rs best
     else oldest_request session (Suc i) rs
       (case best of
          None \<Rightarrow> Some (i, enqueued_ms r)
        | Some (b, t) \<Rightarrow> if enqueued_ms r < t then Some (i, enqueued_ms r) else best))"

definition publish_request_dequeue :: "u32 \<Rightarrow> mu_subscriptions \<Rightarrow> (mu_publish_request \<times> mu_subscriptions) option" where
  "publish_request_dequeue session subs =
    (case oldest_request session 0 (publish_queue subs) None of
       None \<Rightarrow> None
     | Some (i, _) \<Rightarrow>
         Some (publish_queue subs ! i, subs\<lparr>publish_queue := (publish_queue subs)[i := zero_publish_request]\<rparr>))"

section \<open>Monitored items of a subscription\<close>

definition mu_monitored_item_alloc :: "u32 \<Rightarrow> mu_subscriptions \<Rightarrow> (statuscode + nat) \<times> mu_subscriptions" where
  "mu_monitored_item_alloc sid subs =
    (case find_index (\<lambda>item. \<not> mi_in_use item) (monitored_items subs) of
       None \<Rightarrow> (Inl MU_STATUS_BAD_TOOMANYMONITOREDITEMS, subs)
     | Some i \<Rightarrow>
         let (id, subs) = allocate_monitored_item_id subs in
         if id = 0 then (Inl MU_STATUS_BAD_TOOMANYMONITOREDITEMS, subs)
         else
         let item = zero_item\<lparr>mi_in_use := True, mi_subscription_id := sid, monitored_item_id := id\<rparr> in
         (Inr i, subs\<lparr>monitored_items := (monitored_items subs)[i := item],
                      active_monitored_items_count := active_monitored_items_count subs + 1\<rparr>))"

definition mu_monitored_item_delete :: "u32 \<Rightarrow> u32 \<Rightarrow> mu_subscriptions \<Rightarrow> statuscode \<times> mu_subscriptions" where
  "mu_monitored_item_delete sid iid subs =
    (case find_index (\<lambda>item. mi_in_use item \<and> mi_subscription_id item = sid \<and> monitored_item_id item = iid)
        (monitored_items subs) of
       None \<Rightarrow> (MU_STATUS_BAD_MONITOREDITEMIDINVALID, subs)
     | Some i \<Rightarrow>
         (MU_STATUS_GOOD,
          subs\<lparr>monitored_items := (monitored_items subs)[i := zero_item],
               active_monitored_items_count :=
                 (if 0 < active_monitored_items_count subs then active_monitored_items_count subs - 1
                  else active_monitored_items_count subs)\<rparr>))"

definition mu_monitored_item_add_trigger_link :: "u32 \<Rightarrow> u32 \<Rightarrow> u32 \<Rightarrow> mu_subscriptions \<Rightarrow> statuscode \<times> mu_subscriptions" where
  "mu_monitored_item_add_trigger_link sid triggering linked subs =
    (case (find_monitored_item_in_subscription subs sid triggering, find_monitored_item_in_subscription subs sid linked) of
       (Some i, Some _) \<Rightarrow>
         let item = monitored_items subs ! i in
         if linked \<in> set (take (triggered_count item) (triggered_items item)) then (MU_STATUS_GOOD, subs)
         else if MU_MAX_TRIGGER_LINKS \<le> triggered_count item then (MU_STATUS_BAD_TOOMANYOPERATIONS, subs)
         else (MU_STATUS_GOOD,
           update_item i (\<lambda>item. item\<lparr>triggered_items := (triggered_items item)[triggered_count item := linked],
                                     triggered_count := triggered_count item + 1\<rparr>) subs)
     | _ \<Rightarrow> (MU_STATUS_BAD_MONITOREDITEMIDINVALID, subs))"

function shift_links :: "u32 list \<Rightarrow> nat \<Rightarrow> nat \<Rightarrow> u32 list" where
  "shift_links xs i c = (if i + 1 < c then shift_links (xs[i := xs ! (i + 1)]) (i + 1) c else xs)"
  by pat_completeness auto
termination by (relation "measure (\<lambda>(xs, i, c). c - i)") auto

definition mu_monitored_item_remove_trigger_link :: "u32 \<Rightarrow> u32 \<Rightarrow> u32 \<Rightarrow> mu_subscriptions \<Rightarrow> statuscode \<times> mu_subscriptions" where
  "mu_monitored_item_remove_trigger_link sid triggering linked subs =
    (case (find_monitored_item_in_subscription subs sid triggering, find_monitored_item_in_subscription subs sid linked) of
       (Some i, Some _) \<Rightarrow>
         let item = monitored_items subs ! i in
         (case find_index (\<lambda>l. l = linked) (take (triggered_count item) (triggered_items item)) of
            None \<Rightarrow> (MU_STATUS_BAD_MONITOREDITEMIDINVALID, subs)
          | Some j \<Rightarrow>
              (MU_STATUS_GOOD,
               update_item i (\<lambda>item. item\<lparr>
                 triggered_items := (shift_links (triggered_items item) j (triggered_count item))[triggered_count item - 1 := 0],
                 triggered_count := triggered_count item - 1\<rparr>) subs))
     | _ \<Rightarrow> (MU_STATUS_BAD_MONITOREDITEMIDINVALID, subs))"

text \<open>The handles found so far are kept, as the output arrays of the code, when there are
  more of them than the caller has room for.\<close>

fun collect_handles :: "u32 \<Rightarrow> nat \<Rightarrow> mu_monitored_item list \<Rightarrow> (u32 \<times> u32) list \<Rightarrow> statuscode \<times> (u32 \<times> u32) list" where
  "collect_handles sid max_handles [] acc = (MU_STATUS_GOOD, acc)"
| "collect_handles sid max_handles (item # items) acc =
    (if \<not> mi_in_use item \<or> mi_subscription_id item \<noteq> sid then collect_handles sid max_handles items acc
     else if max_handles \<le> length acc then (MU_STATUS_BAD_TOOMANYOPERATIONS, acc)
     else collect_handles sid max_handles items (acc @ [(monitored_item_id item, client_handle item)]))"

definition mu_subscription_get_monitored_items ::
    "u32 \<Rightarrow> u32 \<Rightarrow> nat \<Rightarrow> mu_subscriptions \<Rightarrow> statuscode \<times> (u32 \<times> u32) list" where
  "mu_subscription_get_monitored_items session sid max_handles subs =
    (case mu_subscription_find subs session sid of
       None \<Rightarrow> (MU_STATUS_BAD_SUBSCRIPTIONIDINVALID, [])
     | Some _ \<Rightarrow> collect_handles sid max_handles (monitored_items subs) [])"

section \<open>Events\<close>

definition event_enqueue :: "mu_event_notification \<Rightarrow> mu_event_queue \<Rightarrow> mu_event_queue" where
  "event_enqueue event eq =
    (let eq = (if MU_MAX_EVENT_QUEUE_SIZE \<le> eq_count eq
               then eq\<lparr>eq_head := (eq_head eq + 1) mod MU_MAX_EVENT_QUEUE_SIZE, eq_count := eq_count eq - 1\<rparr> else eq) in
     eq\<lparr>eq_queue := (eq_queue eq)[eq_tail eq := event], eq_tail := (eq_tail eq + 1) mod MU_MAX_EVENT_QUEUE_SIZE,
        eq_count := eq_count eq + 1\<rparr>)"

definition mu_server_trigger_event :: "mu_event_notification \<Rightarrow> mu_subscriptions \<Rightarrow> statuscode \<times> mu_subscriptions" where
  "mu_server_trigger_event event subs =
    (MU_STATUS_GOOD,
     subs\<lparr>subscriptions := map (\<lambda>sub. if sub_in_use sub then sub\<lparr>event_queue := event_enqueue event (event_queue sub)\<rparr>
                                      else sub) (subscriptions subs)\<rparr>)"

section \<open>Sampling all items\<close>

text \<open>The loop of \<^verbatim>\<open>mu_subscriptions_tick\<close>: it stops once as many items in use as the
  counter says have been visited.\<close>

fun sample_loop :: "fp_ops \<Rightarrow> read_callbacks \<Rightarrow> u64 \<Rightarrow> nat \<Rightarrow> mu_monitored_item list \<Rightarrow> mu_monitored_item list" where
  "sample_loop fp callbacks now left [] = []"
| "sample_loop fp callbacks now left (item # items) =
    (if left = 0 then item # items
     else if \<not> mi_in_use item then item # sample_loop fp callbacks now left items
     else sample_item fp callbacks now item # sample_loop fp callbacks now (left - 1) items)"

definition subscriptions_sample :: "fp_ops \<Rightarrow> read_callbacks \<Rightarrow> u64 \<Rightarrow> mu_subscriptions \<Rightarrow> mu_subscriptions" where
  "subscriptions_sample fp callbacks now subs =
     subs\<lparr>monitored_items := sample_loop fp callbacks now (unat (active_monitored_items_count subs)) (monitored_items subs)\<rparr>"

definition cand :: "u32 \<Rightarrow> nat \<Rightarrow> u32" where
  "cand nxt k = of_nat ((unat (if nxt = 0 then 1 else nxt) - 1 + k) mod (2 ^ 32 - 1) + 1)"

text \<open>Among the used entries of a table no two have the same identifier.\<close>

definition unique_ids :: "('a \<Rightarrow> bool) \<Rightarrow> ('a \<Rightarrow> 'b) \<Rightarrow> 'a list \<Rightarrow> bool" where
  "unique_ids used ident xs \<longleftrightarrow>
     (\<forall>i < length xs. \<forall>j < length xs. i \<noteq> j \<longrightarrow> used (xs ! i) \<longrightarrow> used (xs ! j) \<longrightarrow> ident (xs ! i) \<noteq> ident (xs ! j))"

definition event_list :: "mu_event_queue \<Rightarrow> mu_event_notification list" where
  "event_list q = ring (eq_queue q) (eq_head q) (eq_count q) MU_MAX_EVENT_QUEUE_SIZE"

definition event_inv :: "mu_event_queue \<Rightarrow> bool" where
  "event_inv q \<longleftrightarrow> length (eq_queue q) = MU_MAX_EVENT_QUEUE_SIZE \<and> eq_head q < MU_MAX_EVENT_QUEUE_SIZE \<and>
     eq_count q \<le> MU_MAX_EVENT_QUEUE_SIZE \<and> eq_tail q = (eq_head q + eq_count q) mod MU_MAX_EVENT_QUEUE_SIZE"

definition sub_ok :: "mu_subscription \<Rightarrow> bool" where
  "sub_ok sub \<longleftrightarrow> subscription_id sub \<noteq> 0 \<and> sequence_number sub \<noteq> 0 \<and> max_keep_alive_count sub \<noteq> 0 \<and>
     3 * unat (max_keep_alive_count sub) \<le> unat (lifetime_count sub) \<and>
     length (rt_message (retransmit sub)) = MU_RETRANSMIT_BYTES \<and>
     rt_message_len (retransmit sub) \<le> MU_RETRANSMIT_BYTES \<and> event_inv (event_queue sub)"

text \<open>The invariant of the tables: their sizes, unique nonzero identifiers, every item in a
  subscription that exists, and the number of items in use in the counter.\<close>

definition owned :: "mu_subscription list \<Rightarrow> mu_monitored_item \<Rightarrow> bool" where
  "owned ss item = list_ex (\<lambda>sub. sub_in_use sub \<and> subscription_id sub = mi_subscription_id item) ss"

definition table_inv :: "mu_subscriptions \<Rightarrow> bool" where
  "table_inv subs \<longleftrightarrow>
     length (subscriptions subs) = MU_MAX_SUBSCRIPTIONS \<and>
     length (monitored_items subs) = MU_MAX_MONITORED_ITEMS \<and>
     length (publish_queue subs) = MU_MAX_PUBLISH_REQUESTS \<and>
     unique_ids sub_in_use subscription_id (subscriptions subs) \<and>
     unique_ids mi_in_use monitored_item_id (monitored_items subs) \<and>
     list_all (\<lambda>sub. sub_in_use sub \<longrightarrow> sub_ok sub) (subscriptions subs) \<and>
     list_all (\<lambda>item. mi_in_use item \<longrightarrow> monitored_item_id item \<noteq> 0 \<and> owned (subscriptions subs) item) (monitored_items subs) \<and>
     unat (active_monitored_items_count subs) = length (filter mi_in_use (monitored_items subs))"

definition parked :: "u32 \<Rightarrow> mu_publish_request \<Rightarrow> bool" where
  "parked session r \<longleftrightarrow> pr_in_use r \<and> pr_session_id r = session"

definition links :: "mu_monitored_item \<Rightarrow> u32 list" where
  "links item = take (triggered_count item) (triggered_items item)"

definition links_ok :: "mu_monitored_item \<Rightarrow> bool" where
  "links_ok item \<longleftrightarrow> length (triggered_items item) = MU_MAX_TRIGGER_LINKS \<and> triggered_count item \<le> MU_MAX_TRIGGER_LINKS"

definition example_subs :: mu_subscriptions where
  "example_subs = snd (mu_subscription_create 7 100 30 10 0 0 True 0 mu_subscriptions_init)"

definition example_links :: mu_subscriptions where
  "example_links = mu_subscriptions_init\<lparr>monitored_items :=
     [zero_item\<lparr>mi_in_use := True, mi_subscription_id := 1, monitored_item_id := 4\<rparr>,
      zero_item\<lparr>mi_in_use := True, mi_subscription_id := 1, monitored_item_id := 9\<rparr>]\<rparr>"

definition example_queue :: mu_subscriptions where
  "example_queue = mu_subscriptions_init\<lparr>publish_queue :=
     [zero_publish_request\<lparr>pr_in_use := True, pr_session_id := 7, enqueued_ms := 20\<rparr>,
      zero_publish_request\<lparr>pr_in_use := True, pr_session_id := 7, enqueued_ms := 10\<rparr>]\<rparr>"

lemma unat_plus1_u32: "unat (x + 1 :: u32) = (if unat x = 2 ^ 32 - 1 then 0 else unat x + 1)"
  using unat_u32 [of x] by (auto simp: unat_word_ariths mod_Suc)

lemma unat_cand: "unat (cand nxt k) = (unat (if nxt = 0 then 1 else nxt) - 1 + k) mod (2 ^ 32 - 1) + 1"
proof -
  have "(unat (if nxt = 0 then 1 else nxt) - 1 + k) mod (2 ^ 32 - 1) + 1 < 2 ^ 32"
    using mod_less_divisor [of "2 ^ 32 - 1" "unat (if nxt = 0 then 1 else nxt) - 1 + k"] by simp
  thus ?thesis unfolding cand_def by (intro unat_of_nat_small) simp
qed

lemma cand_0: "cand nxt 0 = (if nxt = 0 then 1 else nxt)"
proof -
  let ?x = "if nxt = 0 then 1 else nxt"
  have "0 < unat ?x" by (simp add: unat_gt_0)
  hence "unat (cand nxt 0) = unat ?x" using unat_u32 [of ?x] unfolding unat_cand by simp
  thus ?thesis by (simp only: word_unat_eq_iff)
qed

lemma cand_Suc: "cand (if cand nxt 0 + 1 = 0 then 1 else cand nxt 0 + 1) k = cand nxt (Suc k)"
proof -
  let ?x = "cand nxt 0"
  let ?y = "if ?x + 1 = 0 then 1 else ?x + 1"
  have x: "unat ?x = (unat (if nxt = 0 then 1 else nxt) - 1) mod (2 ^ 32 - 1) + 1" by (simp add: unat_cand)
  have "unat ?y - 1 = unat ?x mod (2 ^ 32 - 1)"
    using unat_plus1_u32 [of ?x] unat_u32 [of ?x] by (auto simp: word_unat_eq_iff)
  moreover have "?y \<noteq> 0" by simp
  ultimately have "unat (cand ?y k) = (unat ?x mod (2 ^ 32 - 1) + k) mod (2 ^ 32 - 1) + 1" by (simp add: unat_cand)
  also have "\<dots> = unat (cand nxt (Suc k))"
    unfolding x unat_cand by (simp add: mod_simps)
  finally show ?thesis by (simp only: word_unat_eq_iff)
qed

lemma id_search_none: "fst (id_search used n nxt) = 0 \<Longrightarrow> k < n \<Longrightarrow> used (cand nxt k)"
proof (induction n arbitrary: nxt k)
  case (Suc n)
  let ?nxt = "if cand nxt 0 + 1 = 0 then 1 else cand nxt 0 + 1"
  have u: "used (cand nxt 0)" and r: "fst (id_search used n ?nxt) = 0"
    using Suc.prems(1) by (auto simp: Let_def cand_0 split: if_splits)
  show ?case
  proof (cases k)
    case (Suc j)
    thus ?thesis using Suc.IH [OF r, of j] Suc.prems(2) by (simp add: cand_Suc)
  qed (use u in simp)
qed simp

lemma id_search_unused: "fst (id_search used n nxt) \<noteq> 0 \<Longrightarrow> \<not> used (fst (id_search used n nxt))"
  by (induction n arbitrary: nxt) (auto simp: Let_def split: if_splits)

lemma cand_inj: "inj_on (cand nxt) {..<2 ^ 32 - 1}"
proof (rule inj_onI)
  fix j k :: nat
  let ?h = "unat (if nxt = 0 then 1 else nxt) - 1"
  assume "j \<in> {..<2 ^ 32 - 1}" "k \<in> {..<2 ^ 32 - 1}" "cand nxt j = cand nxt k"
  hence "(?h + j) mod (2 ^ 32 - 1) = (?h + k) mod (2 ^ 32 - 1)" using unat_cand [of nxt j] unat_cand [of nxt k] by simp
  thus "j = k" using ring_index_inj [of j "2 ^ 32 - 1" k ?h] \<open>j \<in> _\<close> \<open>k \<in> _\<close> by simp
qed

lemma id_search_found:
  assumes "{i. used i} \<subseteq> set ids" "length ids < n" "n < 2 ^ 32"
  shows "fst (id_search used n nxt) \<noteq> 0"
proof
  assume "fst (id_search used n nxt) = 0"
  hence "cand nxt ` {..<n} \<subseteq> set ids" using id_search_none assms(1) by blast
  hence "card (cand nxt ` {..<n}) \<le> length ids"
    by (meson List.finite_set card_length card_mono le_trans)
  moreover have "card (cand nxt ` {..<n}) = n"
    using card_image [OF inj_on_subset [OF cand_inj, of "{..<n}" nxt]] assms(3) by auto
  ultimately show False using assms(2) by simp
qed

subsection \<open>Tables\<close>

lemma unique_idsI:
  "(\<And>i j. \<lbrakk>i < length xs; j < length xs; i \<noteq> j; used (xs ! i); used (xs ! j)\<rbrakk> \<Longrightarrow> ident (xs ! i) \<noteq> ident (xs ! j)) \<Longrightarrow>
   unique_ids used ident xs"
  by (simp add: unique_ids_def)

lemma unique_idsD:
  "\<lbrakk>unique_ids used ident xs; i < length xs; j < length xs; i \<noteq> j; used (xs ! i); used (xs ! j)\<rbrakk> \<Longrightarrow>
   ident (xs ! i) \<noteq> ident (xs ! j)"
  by (simp add: unique_ids_def)

lemma unique_ids_new:
  assumes "unique_ids used ident xs" "\<And>y. y \<in> set xs \<Longrightarrow> used y \<Longrightarrow> used x \<Longrightarrow> ident y \<noteq> ident x"
  shows "unique_ids used ident (xs[i := x])"
proof (rule unique_idsI)
  fix j k assume jk: "j < length (xs[i := x])" "k < length (xs[i := x])" "j \<noteq> k"
    "used (xs[i := x] ! j)" "used (xs[i := x] ! k)"
  show "ident (xs[i := x] ! j) \<noteq> ident (xs[i := x] ! k)"
    using jk unique_idsD [OF assms(1), of j k] assms(2) [of "xs ! j"] assms(2) [of "xs ! k"]
    by (auto simp: nth_update split: if_splits)
qed

lemma unique_ids_free: "\<lbrakk>unique_ids used ident xs; \<not> used x\<rbrakk> \<Longrightarrow> unique_ids used ident (xs[i := x])"
  by (rule unique_ids_new) auto

lemma unique_ids_same:
  assumes "unique_ids used ident xs" "used x = used (xs ! i)" "ident x = ident (xs ! i)"
  shows "unique_ids used ident (xs[i := x])"
proof (rule unique_idsI)
  fix j k assume jk: "j < length (xs[i := x])" "k < length (xs[i := x])" "j \<noteq> k"
    "used (xs[i := x] ! j)" "used (xs[i := x] ! k)"
  show "ident (xs[i := x] ! j) \<noteq> ident (xs[i := x] ! k)"
    using jk unique_idsD [OF assms(1), of j k] assms(2,3) by (simp add: nth_update split: if_splits)
qed

lemma unique_ids_map:
  "\<lbrakk>unique_ids used ident xs; \<And>x. used (f x) \<Longrightarrow> used x \<and> ident (f x) = ident x\<rbrakk> \<Longrightarrow> unique_ids used ident (map f xs)"
  by (auto simp: unique_ids_def)

lemma length_filter_update:
  "i < length xs \<Longrightarrow> length (filter P (xs[i := x])) + (if P (xs ! i) then 1 else 0) =
     length (filter P xs) + (if P x then 1 else 0)"
proof (induction xs arbitrary: i)
  case (Cons y ys)
  thus ?case by (cases i) auto
qed simp

lemma list_ex_update_same:
  "\<lbrakk>i < length xs; P x = P (xs ! i)\<rbrakk> \<Longrightarrow> list_ex P (xs[i := x]) = list_ex P xs"
proof (induction xs arbitrary: i)
  case (Cons y ys)
  thus ?case by (cases i) auto
qed simp

lemma owned_mono:
  "\<lbrakk>owned ss item; \<not> sub_in_use (ss ! i); i < length ss\<rbrakk> \<Longrightarrow> owned (ss[i := sub]) item"
  unfolding owned_def list_ex_iff by (metis in_set_conv_nth length_list_update nth_list_update_neq)

subsection \<open>Every operation keeps the table invariant\<close>

lemma unique_ids_replicate: "\<not> used x \<Longrightarrow> unique_ids used ident (replicate n x)"
  by (rule unique_idsI) simp

lemma zero_not_used [simp]: "\<not> sub_in_use zero_subscription" "\<not> mi_in_use zero_item"
  by (simp_all add: zero_subscription_def zero_item_def)

lemma init_table_inv: "table_inv mu_subscriptions_init"
  by (simp add: table_inv_def mu_subscriptions_init_def list_all_iff unique_ids_replicate)

lemma revise_counts_ok:
  assumes "revise_subscription_counts l k = (lt, ka)"
  shows "ka \<noteq> 0" "3 * unat ka \<le> unat lt"
proof -
  have b: "unat (0xFFFFFFFF div 3 :: u32) = 1431655765" by simp
  have ka: "ka = (let k' = (if k = 0 then 1 else k) in if 0xFFFFFFFF div 3 < k' then 0xFFFFFFFF div 3 else k')"
    using assms by (auto simp: revise_subscription_counts_def Let_def)
  thus "ka \<noteq> 0" by (auto simp: Let_def)
  have "unat ka \<le> 1431655765" using ka b by (auto simp: Let_def word_less_nat_alt not_less)
  hence m: "unat (ka * 3) = 3 * unat ka" by (simp add: unat_word_ariths)
  have "lt = (if l < ka * 3 then ka * 3 else l)"
    using assms by (auto simp: revise_subscription_counts_def Let_def)
  thus "3 * unat ka \<le> unat lt" using m by (auto simp: word_less_nat_alt not_less)
qed

lemma apply_parameters_ok:
  "\<lbrakk>subscription_id sub \<noteq> 0; sequence_number sub \<noteq> 0; length (rt_message (retransmit sub)) = MU_RETRANSMIT_BYTES;
    rt_message_len (retransmit sub) \<le> MU_RETRANSMIT_BYTES; event_inv (event_queue sub)\<rbrakk> \<Longrightarrow>
   sub_ok (mu_subscription_apply_parameters interval l k m p sub)"
  using revise_counts_ok [of l k]
  by (simp add: mu_subscription_apply_parameters_def sub_ok_def split: prod.split)

lemma zero_event_queue_inv: "event_inv zero_event_queue"
  by (simp add: event_inv_def zero_event_queue_def MU_MAX_EVENT_QUEUE_SIZE_def)

lemma apply_parameters_frame [simp]:
  "sub_in_use (mu_subscription_apply_parameters interval l k m p sub) = sub_in_use sub"
  "subscription_id (mu_subscription_apply_parameters interval l k m p sub) = subscription_id sub"
  "sub_session_id (mu_subscription_apply_parameters interval l k m p sub) = sub_session_id sub"
  "retransmit (mu_subscription_apply_parameters interval l k m p sub) = retransmit sub"
  "event_queue (mu_subscription_apply_parameters interval l k m p sub) = event_queue sub"
  by (simp_all add: mu_subscription_apply_parameters_def split: prod.split)

lemma allocate_subscription_id_fresh:
  assumes "length (subscriptions subs) = MU_MAX_SUBSCRIPTIONS" "allocate_subscription_id subs = (ident, subs')"
  shows "ident \<noteq> 0" "\<not> subscription_id_in_use subs ident" "\<exists>n. subs' = subs\<lparr>next_subscription_id := n\<rparr>"
proof -
  let ?r = "id_search (subscription_id_in_use subs) (MU_MAX_SUBSCRIPTIONS + 1) (next_subscription_id subs)"
  have e: "ident = fst ?r" and s: "subs' = subs\<lparr>next_subscription_id := snd ?r\<rparr>"
    using assms(2) by (auto simp: allocate_subscription_id_def split: prod.splits)
  have "{i. subscription_id_in_use subs i} \<subseteq> set (map subscription_id (subscriptions subs))"
    by (auto simp: subscription_id_in_use_def list_ex_iff)
  thus "ident \<noteq> 0" unfolding e using assms(1)
    by (intro id_search_found [of _ "map subscription_id (subscriptions subs)"]) (auto simp: MU_MAX_SUBSCRIPTIONS_def)
  thus "\<not> subscription_id_in_use subs ident" unfolding e by (rule id_search_unused)
  show "\<exists>n. subs' = subs\<lparr>next_subscription_id := n\<rparr>" using s by blast
qed

lemma allocate_monitored_item_id_fresh:
  assumes "length (monitored_items subs) = MU_MAX_MONITORED_ITEMS" "allocate_monitored_item_id subs = (ident, subs')"
  shows "ident \<noteq> 0" "\<not> monitored_item_id_in_use subs ident" "\<exists>n. subs' = subs\<lparr>next_monitored_item_id := n\<rparr>"
proof -
  let ?r = "id_search (monitored_item_id_in_use subs) (MU_MAX_MONITORED_ITEMS + 1) (next_monitored_item_id subs)"
  have e: "ident = fst ?r" and s: "subs' = subs\<lparr>next_monitored_item_id := snd ?r\<rparr>"
    using assms(2) by (auto simp: allocate_monitored_item_id_def split: prod.splits)
  have "{i. monitored_item_id_in_use subs i} \<subseteq> set (map monitored_item_id (monitored_items subs))"
    by (auto simp: monitored_item_id_in_use_def list_ex_iff)
  thus "ident \<noteq> 0" unfolding e using assms(1)
    by (intro id_search_found [of _ "map monitored_item_id (monitored_items subs)"]) (auto simp: MU_MAX_MONITORED_ITEMS_def)
  thus "\<not> monitored_item_id_in_use subs ident" unfolding e by (rule id_search_unused)
  show "\<exists>n. subs' = subs\<lparr>next_monitored_item_id := n\<rparr>" using s by blast
qed

lemma table_invD:
  assumes "table_inv subs"
  shows "length (subscriptions subs) = MU_MAX_SUBSCRIPTIONS" "length (monitored_items subs) = MU_MAX_MONITORED_ITEMS"
    "length (publish_queue subs) = MU_MAX_PUBLISH_REQUESTS"
    "unique_ids sub_in_use subscription_id (subscriptions subs)"
    "unique_ids mi_in_use monitored_item_id (monitored_items subs)"
    "list_all (\<lambda>sub. sub_in_use sub \<longrightarrow> sub_ok sub) (subscriptions subs)"
    "list_all (\<lambda>item. mi_in_use item \<longrightarrow> monitored_item_id item \<noteq> 0 \<and> owned (subscriptions subs) item) (monitored_items subs)"
    "unat (active_monitored_items_count subs) = length (filter mi_in_use (monitored_items subs))"
  using assms by (simp_all add: table_inv_def)

lemma create_table_inv:
  assumes "table_inv subs"
  shows "table_inv (snd (mu_subscription_create session interval l k m p enabled now subs))"
proof (cases "find_index (\<lambda>sub. \<not> sub_in_use sub) (subscriptions subs)")
  case None
  thus ?thesis using assms by (simp add: mu_subscription_create_def)
next
  case (Some i)
  note inv = table_invD [OF assms]
  have i: "i < length (subscriptions subs)" "\<not> sub_in_use (subscriptions subs ! i)"
    using find_index_SomeD [OF Some] by auto
  obtain ident subs' where a: "allocate_subscription_id subs = (ident, subs')" by fastforce
  note fr = allocate_subscription_id_fresh [OF inv(1) a]
  obtain n where s: "subs' = subs\<lparr>next_subscription_id := n\<rparr>" using fr(3) by blast
  define sub where "sub = (mu_subscription_apply_parameters interval l k m p (zero_subscription\<lparr>sub_in_use := True,
      subscription_id := ident, sub_session_id := session\<rparr>))\<lparr>publishing_enabled := enabled, sequence_number := 1,
      keep_alive_counter := 0, lifetime_counter := 0, next_publish_ms := now + ucast interval, more_notifications := False,
      retransmit := (retransmit zero_subscription)\<lparr>rt_valid := False\<rparr>\<rparr>"
  have r: "snd (mu_subscription_create session interval l k m p enabled now subs) =
      subs\<lparr>next_subscription_id := n, subscriptions := (subscriptions subs)[i := sub]\<rparr>"
    using Some a fr(1) s by (simp add: mu_subscription_create_def Let_def sub_def)
  have f: "subscription_id sub = ident" "sub_in_use sub" by (simp_all add: sub_def)
  have ok: "sub_ok sub"
    using revise_counts_ok [of l k] fr(1) zero_event_queue_inv
    by (simp add: sub_def sub_ok_def mu_subscription_apply_parameters_def zero_subscription_def split: prod.split)
  have u: "unique_ids sub_in_use subscription_id ((subscriptions subs)[i := sub])"
    using fr(2) f by (intro unique_ids_new [OF inv(4)]) (auto simp: subscription_id_in_use_def list_ex_iff)
  have o: "list_all (\<lambda>item. mi_in_use item \<longrightarrow> monitored_item_id item \<noteq> 0 \<and> owned ((subscriptions subs)[i := sub]) item)
      (monitored_items subs)"
    using inv(7) owned_mono [OF _ i(2) i(1)] by (auto simp: list_all_iff)
  show ?thesis unfolding r using inv u o ok list_all_update [OF inv(6), of sub i]
    by (simp add: table_inv_def)
qed

lemma update_subscription_table_inv:
  assumes "table_inv subs" "i < length (subscriptions subs)"
    and "sub_in_use (f (subscriptions subs ! i)) = sub_in_use (subscriptions subs ! i)"
    and "subscription_id (f (subscriptions subs ! i)) = subscription_id (subscriptions subs ! i)"
    and "sub_in_use (subscriptions subs ! i) \<Longrightarrow> sub_ok (subscriptions subs ! i) \<Longrightarrow> sub_ok (f (subscriptions subs ! i))"
  shows "table_inv (update_subscription i f subs)"
proof -
  note inv = table_invD [OF assms(1)]
  let ?ss = "(subscriptions subs)[i := f (subscriptions subs ! i)]"
  have ok: "sub_in_use (f (subscriptions subs ! i)) \<longrightarrow> sub_ok (f (subscriptions subs ! i))"
    using inv(6) assms(2,3,5) by (simp add: list_all_length)
  have o: "owned ?ss item = owned (subscriptions subs) item" for item
    unfolding owned_def using assms(2-4) by (intro list_ex_update_same) auto
  show ?thesis
    using inv unique_ids_same [OF inv(4), of "f (subscriptions subs ! i)" i] assms(3,4)
      list_all_update [OF inv(6), of "f (subscriptions subs ! i)" i] ok
    by (simp add: table_inv_def update_subscription_def o)
qed

lemma update_item_table_inv:
  assumes "table_inv subs" "i < length (monitored_items subs)"
    and "mi_in_use (f (monitored_items subs ! i)) = mi_in_use (monitored_items subs ! i)"
    and "monitored_item_id (f (monitored_items subs ! i)) = monitored_item_id (monitored_items subs ! i)"
    and "mi_subscription_id (f (monitored_items subs ! i)) = mi_subscription_id (monitored_items subs ! i)"
  shows "table_inv (update_item i f subs)"
proof -
  note inv = table_invD [OF assms(1)]
  let ?item = "f (monitored_items subs ! i)"
  have o: "mi_in_use ?item \<longrightarrow> monitored_item_id ?item \<noteq> 0 \<and> owned (subscriptions subs) ?item"
    using inv(7) assms by (simp add: list_all_length owned_def)
  show ?thesis
    using inv unique_ids_same [OF inv(5), of ?item i] assms(2-4) list_all_update [OF inv(7), of ?item i] o
      length_filter_update [OF assms(2), of mi_in_use ?item]
    by (simp add: table_inv_def update_item_def)
qed

lemma alloc_table_inv:
  assumes "table_inv subs" "subscription_id_in_use subs sid"
  shows "table_inv (snd (mu_monitored_item_alloc sid subs))"
proof (cases "find_index (\<lambda>item. \<not> mi_in_use item) (monitored_items subs)")
  case None
  thus ?thesis using assms by (simp add: mu_monitored_item_alloc_def)
next
  case (Some i)
  note inv = table_invD [OF assms(1)]
  have i: "i < length (monitored_items subs)" "\<not> mi_in_use (monitored_items subs ! i)"
    using find_index_SomeD [OF Some] by auto
  obtain ident subs' where a: "allocate_monitored_item_id subs = (ident, subs')" by fastforce
  note fr = allocate_monitored_item_id_fresh [OF inv(2) a]
  obtain n where s: "subs' = subs\<lparr>next_monitored_item_id := n\<rparr>" using fr(3) by blast
  let ?item = "zero_item\<lparr>mi_in_use := True, mi_subscription_id := sid, monitored_item_id := ident\<rparr>"
  have r: "snd (mu_monitored_item_alloc sid subs) = subs\<lparr>next_monitored_item_id := n,
      monitored_items := (monitored_items subs)[i := ?item], active_monitored_items_count := active_monitored_items_count subs + 1\<rparr>"
    using Some a fr(1) s by (simp add: mu_monitored_item_alloc_def Let_def)
  have u: "unique_ids mi_in_use monitored_item_id ((monitored_items subs)[i := ?item])"
    using fr(2) by (intro unique_ids_new [OF inv(5)]) (auto simp: monitored_item_id_in_use_def list_ex_iff)
  have o: "owned (subscriptions subs) ?item" using assms(2) by (simp add: owned_def subscription_id_in_use_def)
  have c: "length (filter mi_in_use ((monitored_items subs)[i := ?item])) = length (filter mi_in_use (monitored_items subs)) + 1"
    using length_filter_update [OF i(1), of mi_in_use ?item] i(2) by simp
  have "length (filter mi_in_use (monitored_items subs)) \<le> MU_MAX_MONITORED_ITEMS"
    using length_filter_le [of mi_in_use "monitored_items subs"] inv(2) by simp
  hence "unat (active_monitored_items_count subs + 1) = unat (active_monitored_items_count subs) + 1"
    using inv(8) by (subst unat_plus1_u32) (auto simp: MU_MAX_MONITORED_ITEMS_def)
  thus ?thesis unfolding r using inv u o c fr(1) list_all_update [OF inv(7), of ?item i]
    by (simp add: table_inv_def)
qed

lemma delete_items_fst:
  "fst (delete_items sid items active) =
     map (\<lambda>item. if mi_in_use item \<and> mi_subscription_id item = sid then zero_item else item) items"
  by (induction sid items active rule: delete_items.induct) (auto simp: split_beta Let_def)

lemma delete_items_snd:
  "length (filter (\<lambda>item. mi_in_use item \<and> mi_subscription_id item = sid) items) \<le> unat active \<Longrightarrow>
   unat (snd (delete_items sid items active)) =
     unat active - length (filter (\<lambda>item. mi_in_use item \<and> mi_subscription_id item = sid) items)"
proof (induction sid items active rule: delete_items.induct)
  case (2 sid item items active)
  show ?case
  proof (cases "mi_in_use item \<and> mi_subscription_id item = sid")
    case True
    hence p: "0 < active" using 2(3) by (simp add: word_less_nat_alt)
    hence u: "unat (active - 1) = unat active - 1" by (simp add: unat_sub word_le_nat_alt word_less_nat_alt Suc_le_eq)
    have "unat (snd (delete_items sid items (if 0 < active then active - 1 else active))) =
        unat active - 1 - length (filter (\<lambda>item. mi_in_use item \<and> mi_subscription_id item = sid) items)"
      using 2(1) [OF True] 2(3) True p u by auto
    thus ?thesis using True p by (simp add: split_beta Let_def)
  next
    case False
    thus ?thesis using 2(2) [OF False] 2(3) by (auto simp: split_beta Let_def)
  qed
qed simp

lemma mu_subscription_findD:
  "mu_subscription_find subs session sid = Some i \<Longrightarrow>
   i < length (subscriptions subs) \<and> sub_in_use (subscriptions subs ! i) \<and>
   sub_session_id (subscriptions subs ! i) = session \<and> subscription_id (subscriptions subs ! i) = sid"
  unfolding mu_subscription_find_def using find_index_SomeD by fastforce

lemma find_monitored_itemD:
  "find_monitored_item_in_subscription subs sid iid = Some i \<Longrightarrow>
   i < length (monitored_items subs) \<and> mi_in_use (monitored_items subs ! i) \<and>
   mi_subscription_id (monitored_items subs ! i) = sid \<and> monitored_item_id (monitored_items subs ! i) = iid"
  unfolding find_monitored_item_in_subscription_def using find_index_SomeD by fastforce

lemma filter_cleared:
  "filter mi_in_use (map (\<lambda>item. if mi_in_use item \<and> P item then zero_item else item) items) =
   filter (\<lambda>item. mi_in_use item \<and> \<not> P item) items"
  by (induction items) auto

lemma length_filter_split:
  "length (filter P xs) = length (filter (\<lambda>x. P x \<and> Q x) xs) + length (filter (\<lambda>x. P x \<and> \<not> Q x) xs)"
  by (induction xs) auto

lemma delete_table_inv:
  assumes "table_inv subs"
  shows "table_inv (snd (mu_subscription_delete session sid subs))"
proof (cases "mu_subscription_find subs session sid")
  case None
  thus ?thesis using assms by (simp add: mu_subscription_delete_def)
next
  case (Some i)
  note inv = table_invD [OF assms] and f = mu_subscription_findD [OF Some]
  let ?P = "\<lambda>item. mi_subscription_id item = sid"
  let ?items = "map (\<lambda>item. if mi_in_use item \<and> ?P item then zero_item else item) (monitored_items subs)"
  let ?ss = "(subscriptions subs)[i := zero_subscription]"
  obtain active where r: "snd (mu_subscription_delete session sid subs) =
      subs\<lparr>monitored_items := ?items, active_monitored_items_count := active, subscriptions := ?ss\<rparr>"
    and a: "active = snd (delete_items sid (monitored_items subs) (active_monitored_items_count subs))"
    using Some delete_items_fst [of sid "monitored_items subs" "active_monitored_items_count subs"]
    by (simp add: mu_subscription_delete_def split_beta Let_def)
  have split: "length (filter mi_in_use (monitored_items subs)) =
      length (filter (\<lambda>item. mi_in_use item \<and> ?P item) (monitored_items subs)) +
      length (filter (\<lambda>item. mi_in_use item \<and> \<not> ?P item) (monitored_items subs))"
    by (rule length_filter_split)
  have c: "unat active = length (filter mi_in_use ?items)"
    unfolding a filter_cleared using delete_items_snd [of sid "monitored_items subs" "active_monitored_items_count subs"] split inv(8)
    by simp
  have own: "owned ?ss item" if "owned (subscriptions subs) item" "mi_subscription_id item \<noteq> sid" for item
  proof -
    obtain j where j: "j < length (subscriptions subs)" "sub_in_use (subscriptions subs ! j)"
      "subscription_id (subscriptions subs ! j) = mi_subscription_id item"
      using \<open>owned (subscriptions subs) item\<close> by (auto simp: owned_def list_ex_length)
    hence "j \<noteq> i" using f that(2) by auto
    thus ?thesis using j by (auto simp: owned_def list_ex_length nth_update)
  qed
  have "list_all (\<lambda>item. mi_in_use item \<longrightarrow> monitored_item_id item \<noteq> 0 \<and> owned ?ss item) ?items"
    using inv(7) own by (auto simp: list_all_iff)
  moreover have "unique_ids mi_in_use monitored_item_id ?items" by (rule unique_ids_map [OF inv(5)]) (auto split: if_splits)
  ultimately show ?thesis unfolding r
    using inv c unique_ids_free [OF inv(4), of zero_subscription i] list_all_update [OF inv(6), of zero_subscription i]
    by (simp add: table_inv_def)
qed

lemma item_delete_table_inv:
  assumes "table_inv subs"
  shows "table_inv (snd (mu_monitored_item_delete sid iid subs))"
proof (cases "find_index (\<lambda>item. mi_in_use item \<and> mi_subscription_id item = sid \<and> monitored_item_id item = iid)
    (monitored_items subs)")
  case None
  thus ?thesis using assms by (simp add: mu_monitored_item_delete_def)
next
  case (Some i)
  note inv = table_invD [OF assms]
  have i: "i < length (monitored_items subs)" "mi_in_use (monitored_items subs ! i)" using find_index_SomeD [OF Some] by auto
  have c: "length (filter mi_in_use ((monitored_items subs)[i := zero_item])) + 1 = length (filter mi_in_use (monitored_items subs))"
    using length_filter_update [OF i(1), of mi_in_use zero_item] i(2) by simp
  hence "0 < unat (active_monitored_items_count subs)" using inv(8) by linarith
  hence p: "0 < active_monitored_items_count subs" by (simp add: word_less_nat_alt)
  hence "unat (active_monitored_items_count subs - 1) = unat (active_monitored_items_count subs) - 1"
    by (simp add: unat_sub word_le_nat_alt word_less_nat_alt Suc_le_eq)
  thus ?thesis using Some inv c p unique_ids_free [OF inv(5), of zero_item i] list_all_update [OF inv(7), of zero_item i]
    by (simp add: mu_monitored_item_delete_def table_inv_def)
qed

lemma acknowledge_table_inv: "table_inv subs \<Longrightarrow> table_inv (snd (mu_subscription_acknowledge session sid seq subs))"
  unfolding mu_subscription_acknowledge_def Let_def
  by (auto split: option.split intro!: update_subscription_table_inv dest!: mu_subscription_findD simp: sub_ok_def)

lemma resend_table_inv: "table_inv subs \<Longrightarrow> table_inv (snd (mu_subscription_request_resend_data session sid subs))"
  unfolding mu_subscription_request_resend_data_def
  by (auto split: option.split intro!: update_subscription_table_inv dest!: mu_subscription_findD simp: sub_ok_def)

lemma add_link_table_inv: "table_inv subs \<Longrightarrow> table_inv (snd (mu_monitored_item_add_trigger_link sid a b subs))"
  unfolding mu_monitored_item_add_trigger_link_def Let_def
  by (auto split: option.split intro!: update_item_table_inv dest!: find_monitored_itemD)

lemma remove_link_table_inv: "table_inv subs \<Longrightarrow> table_inv (snd (mu_monitored_item_remove_trigger_link sid a b subs))"
  unfolding mu_monitored_item_remove_trigger_link_def Let_def
  by (auto split: option.split intro!: update_item_table_inv dest!: find_monitored_itemD)

lemma publish_queue_table_inv:
  "table_inv subs \<Longrightarrow> length q = MU_MAX_PUBLISH_REQUESTS \<Longrightarrow> table_inv (subs\<lparr>publish_queue := q\<rparr>)"
  by (simp add: table_inv_def)

lemma enqueue_table_inv: "table_inv subs \<Longrightarrow> table_inv (snd (mu_publish_request_enqueue session rid handle now subs))"
  unfolding mu_publish_request_enqueue_def
  by (auto split: option.split intro!: publish_queue_table_inv simp: table_inv_def)

lemma dequeue_table_inv: "\<lbrakk>table_inv subs; publish_request_dequeue session subs = Some (req, subs')\<rbrakk> \<Longrightarrow> table_inv subs'"
  unfolding publish_request_dequeue_def
  by (auto split: option.splits intro!: publish_queue_table_inv simp: table_inv_def)

subsection \<open>The event queue\<close>

lemma length_event_list [simp]: "length (event_list q) = eq_count q"
  by (simp add: event_list_def)

lemma event_enqueue_correct:
  assumes "event_inv q"
  shows "event_inv (event_enqueue e q)"
    and "event_list (event_enqueue e q) =
      (if eq_count q < MU_MAX_EVENT_QUEUE_SIZE then event_list q @ [e] else tl (event_list q) @ [e])"
proof -
  let ?n = MU_MAX_EVENT_QUEUE_SIZE
  have l: "?n \<le> length (eq_queue q)" and h: "eq_head q < ?n" and c: "eq_count q \<le> ?n"
    and t: "eq_tail q = (eq_head q + eq_count q) mod ?n" and n: "0 < ?n"
    using assms by (auto simp: event_inv_def MU_MAX_EVENT_QUEUE_SIZE_def)
  have full: "\<not> eq_count q < ?n \<Longrightarrow> eq_count q = ?n \<and> eq_tail q = eq_head q" using c t h by simp
  show "event_inv (event_enqueue e q)"
  proof (cases "eq_count q < ?n")
    case True
    thus ?thesis using assms t n by (simp add: event_inv_def event_enqueue_def mod_Suc_eq)
  next
    case False
    moreover obtain m where "?n = Suc m" using n by (cases ?n) auto
    ultimately show ?thesis using assms full n
      by (simp add: event_inv_def event_enqueue_def mod_add_left_eq)
  qed
  show "event_list (event_enqueue e q) = (if eq_count q < ?n then event_list q @ [e] else tl (event_list q) @ [e])"
  proof (cases "eq_count q < ?n")
    case True
    thus ?thesis using ring_append [OF True l, of "eq_head q" e] by (simp add: event_list_def event_enqueue_def t)
  next
    case False
    thus ?thesis using ring_replace_oldest [OF h l, of e] full n by (simp add: event_list_def event_enqueue_def)
  qed
qed

interpretation events: bounded_queue event_inv event_list "\<lambda>_. MU_MAX_EVENT_QUEUE_SIZE" event_enqueue
proof unfold_locales
  fix q e assume "event_inv q"
  thus "length (event_list q) = MU_MAX_EVENT_QUEUE_SIZE \<Longrightarrow> length (event_list (event_enqueue e q)) = MU_MAX_EVENT_QUEUE_SIZE"
    using event_enqueue_correct(2) [of q e] by (simp add: MU_MAX_EVENT_QUEUE_SIZE_def del: length_event_list)
      (simp add: MU_MAX_EVENT_QUEUE_SIZE_def)
next
  fix q assume "event_inv q"
  thus "length (event_list q) \<le> MU_MAX_EVENT_QUEUE_SIZE" by (simp add: event_inv_def)
qed (simp_all add: event_enqueue_correct)

lemma trigger_event_table_inv: "table_inv subs \<Longrightarrow> table_inv (snd (mu_server_trigger_event event subs))"
proof -
  assume a: "table_inv subs"
  note inv = table_invD [OF a]
  let ?f = "\<lambda>sub. if sub_in_use sub then sub\<lparr>event_queue := event_enqueue event (event_queue sub)\<rparr> else sub"
  have o: "owned (map ?f ss) item = owned ss item" for ss item by (induction ss) (auto simp: owned_def)
  have "list_all (\<lambda>sub. sub_in_use sub \<longrightarrow> sub_ok sub) (map ?f (subscriptions subs))"
    using inv(6) by (auto simp: list_all_iff sub_ok_def event_enqueue_correct)
  moreover have "unique_ids sub_in_use subscription_id (map ?f (subscriptions subs))"
    by (rule unique_ids_map [OF inv(4)]) (auto split: if_splits)
  ultimately show ?thesis using inv by (simp add: table_inv_def mu_server_trigger_event_def o)
qed

subsection \<open>Sampling\<close>

lemma sample_loop_map:
  "left = length (filter mi_in_use items) \<Longrightarrow>
   sample_loop fp callbacks now left items =
     map (\<lambda>item. if mi_in_use item then sample_item fp callbacks now item else item) items"
proof (induction fp callbacks now left items rule: sample_loop.induct)
  case (2 fp callbacks now left item items)
  show ?case
  proof (cases "left = 0")
    case True
    hence "\<forall>x \<in> set (item # items). \<not> mi_in_use x" using 2(3) by (auto simp: filter_empty_conv split: if_splits)
    hence "map (\<lambda>item. if mi_in_use item then sample_item fp callbacks now item else item) (item # items) = item # items"
      by (intro map_idI) auto
    thus ?thesis using True by simp
  qed (use 2 in auto)
qed simp

text \<open>C32: The early exit of the sampling loop is sound: in tables that satisfy the invariant,
  stopping after as many items in use as the counter says samples exactly the items in
  use, each once, and leaves the free slots alone.\<close>

theorem sampling_visits_all:
  assumes "table_inv subs"
  shows "monitored_items (subscriptions_sample fp callbacks now subs) =
    map (\<lambda>item. if mi_in_use item then sample_item fp callbacks now item else item) (monitored_items subs)"
  using sample_loop_map table_invD(8) [OF assms] by (simp add: subscriptions_sample_def)

declare publish_timer_loop.simps [simp del]

declare shift_links.simps [simp del]

subsection \<open>The publishing timer\<close>

lemma publish_timer_loop_eq:
  "\<lbrakk>0 < interval; nxt \<le> now\<rbrakk> \<Longrightarrow>
   unat (publish_timer_loop interval now nxt) =
     min (2 ^ 64 - 1) (unat nxt + ((unat now - unat nxt) div unat interval + 1) * unat interval)"
proof (induction interval now nxt rule: publish_timer_loop.induct)
  case (1 interval now nxt)
  let ?i = "unat interval" and ?x = "unat nxt" and ?y = "unat now"
  have i: "0 < ?i" using 1(2) by (simp add: word_less_nat_alt)
  have xy: "?x \<le> ?y" using 1(3) by (simp add: word_le_nat_alt)
  have s: "(-1 - interval < nxt) \<longleftrightarrow> 2 ^ 64 - 1 < ?x + ?i"
    using unat_sub [of interval "-1"] unat_max_u64 unat_u64 [of interval] i by (auto simp: word_less_nat_alt)
  have u: "\<not> -1 - interval < nxt \<Longrightarrow> unat (nxt + interval) = ?x + ?i" using s by (simp add: unat_word_ariths)
  show ?case
  proof (cases "-1 - interval < nxt")
    case True
    have "?x + ?i \<le> ?x + ((?y - ?x) div ?i + 1) * ?i" by simp
    hence "min (2 ^ 64 - 1) (?x + ((?y - ?x) div ?i + 1) * ?i) = 2 ^ 64 - 1" using True s by simp
    thus ?thesis using True unat_max_u64 by (simp add: publish_timer_loop.simps [of interval])
  next
    case False
    note u = u [OF False]
    have nz: "\<not> (interval = 0 \<or> -1 - interval < nxt)" using False 1(2) by auto
    show ?thesis
    proof (cases "nxt + interval \<le> now")
      case True
      hence le: "?x + ?i \<le> ?y" by (simp add: word_le_nat_alt u)
      have "publish_timer_loop interval now nxt = publish_timer_loop interval now (nxt + interval)"
        using nz True by (simp add: publish_timer_loop.simps [of interval now nxt])
      moreover have "(?y - ?x) div ?i = (?y - (?x + ?i)) div ?i + 1" using le i by (simp add: le_div_geq)
      ultimately show ?thesis using 1(1) [OF nz refl True 1(2) True] u by (simp add: algebra_simps)
    next
      case F: False
      hence "?y - ?x < ?i" using xy by (simp add: word_le_nat_alt u)
      thus ?thesis using nz F u s by (simp add: publish_timer_loop.simps [of interval now nxt])
    qed
  qed
qed

text \<open>The division based step of the sampling timer computes what the loop of the
  publishing timer computes from the same state, for every clock value but the last.\<close>

theorem sample_timer_is_loop:
  assumes "next_sample_ms item \<le> now" "now \<noteq> -1"
  shows "next_sample_ms (advance_sample_timer now item) =
    publish_timer_loop (of_nat (sampling_step item)) now (next_sample_ms item)"
proof -
  have "sampling_step item < 2 ^ 64" using unat_u32 [of "sampling_interval_ms item"] by (simp add: sampling_step_def)
  hence s: "unat (of_nat (sampling_step item) :: u64) = sampling_step item" by (simp add: unat_of_nat_small)
  moreover have "0 < sampling_step item" by (simp add: sampling_step_def)
  ultimately have "(0 :: u64) < of_nat (sampling_step item)" by (simp add: word_less_nat_alt)
  hence "unat (next_sample_ms (advance_sample_timer now item)) =
      unat (publish_timer_loop (of_nat (sampling_step item)) now (next_sample_ms item))"
    using assms advance_sample_timer_eq [OF assms] by (simp add: publish_timer_loop_eq s)
  thus ?thesis by (simp only: word_unat_eq_iff)
qed

text \<open>C31: The publishing timer loop ends, and the next publishing time is the first point of
  the publishing grid after the current time, saturated at the largest tick.\<close>

theorem publish_timer_terminates:
  assumes "next_publish_ms sub \<le> now"
  shows "unat (next_publish_ms (advance_publish_timer now sub)) =
    min (2 ^ 64 - 1)
      (unat (next_publish_ms sub) +
       ((unat now - unat (next_publish_ms sub)) div max 1 (unat (publishing_interval_ms sub)) + 1) *
         max 1 (unat (publishing_interval_ms sub)))"
proof -
  define i :: u64 where "i = (if publishing_interval_ms sub = 0 then 1 else ucast (publishing_interval_ms sub))"
  have ui: "unat i = max 1 (unat (publishing_interval_ms sub))"
    using unat_u32 [of "publishing_interval_ms sub"]
    by (auto simp: i_def unsigned_ucast_eq take_bit_nat_eq_self_iff max_def unat_eq_zero not_le)
  hence "0 < i" by (simp add: word_less_nat_alt)
  thus ?thesis using publish_timer_loop_eq [OF _ assms, of i]
    by (simp add: advance_publish_timer_def Let_def i_def [symmetric] ui)
qed

subsection \<open>The oldest Publish request\<close>

lemma oldest_request_None:
  "oldest_request session i rs best = None \<longleftrightarrow> best = None \<and> (\<forall>r \<in> set rs. \<not> parked session r)"
  by (induction session i rs best rule: oldest_request.induct) (auto simp: parked_def split: option.splits)

lemma oldest_request_Some:
  "oldest_request session i rs best = Some (j, t) \<Longrightarrow>
   (\<forall>r \<in> set rs. parked session r \<longrightarrow> t \<le> enqueued_ms r) \<and> (\<forall>b u. best = Some (b, u) \<longrightarrow> t \<le> u) \<and>
   (best = Some (j, t) \<or>
    i \<le> j \<and> j < i + length rs \<and> parked session (rs ! (j - i)) \<and> enqueued_ms (rs ! (j - i)) = t \<and>
    (\<forall>k < j - i. parked session (rs ! k) \<longrightarrow> t < enqueued_ms (rs ! k)) \<and> (\<forall>b u. best = Some (b, u) \<longrightarrow> t < u))"
proof (induction session i rs best rule: oldest_request.induct)
  case (2 session i r rs best)
  show ?case
  proof (cases "parked session r")
    case False
    hence e: "oldest_request session (Suc i) rs best = Some (j, t)" using 2(3) by (auto simp: parked_def)
    note ih = 2(1) [OF _ e]
    show ?thesis using False ih by (auto simp: parked_def nth_Cons' Suc_diff_le split: if_splits)
  next
    case True
    let ?best = "case best of None \<Rightarrow> Some (i, enqueued_ms r) | Some (b, t) \<Rightarrow> if enqueued_ms r < t then Some (i, enqueued_ms r) else best"
    have e: "oldest_request session (Suc i) rs ?best = Some (j, t)" using 2(3) True by (auto simp: parked_def)
    note ih = 2(2) [OF _ e]
    show ?thesis using True ih by (auto simp: parked_def nth_Cons' split: if_splits option.splits)
  qed
qed simp

text \<open>C30: Publish requests.  A request is found exactly when the session has one parked; the
  one taken was parked first (at equal times, in the lower slot), its slot is freed and
  the other slots keep their requests.\<close>

theorem dequeue_takes_oldest:
  "(publish_request_dequeue session subs = None \<longleftrightarrow> (\<forall>r \<in> set (publish_queue subs). \<not> parked session r)) \<and>
   (\<forall>req subs'. publish_request_dequeue session subs = Some (req, subs') \<longrightarrow>
      (\<exists>i < length (publish_queue subs). req = publish_queue subs ! i \<and> parked session req \<and>
         (\<forall>r \<in> set (publish_queue subs). parked session r \<longrightarrow> enqueued_ms req \<le> enqueued_ms r) \<and>
         (\<forall>k < i. parked session (publish_queue subs ! k) \<longrightarrow> enqueued_ms req < enqueued_ms (publish_queue subs ! k)) \<and>
         subs' = subs\<lparr>publish_queue := (publish_queue subs)[i := zero_publish_request]\<rparr>))"
proof (intro conjI allI impI)
  show "publish_request_dequeue session subs = None \<longleftrightarrow> (\<forall>r \<in> set (publish_queue subs). \<not> parked session r)"
    using oldest_request_None [of session 0 "publish_queue subs" None]
    by (auto simp: publish_request_dequeue_def split: option.splits)
next
  fix req subs' assume "publish_request_dequeue session subs = Some (req, subs')"
  then obtain i t where e: "oldest_request session 0 (publish_queue subs) None = Some (i, t)"
    and r: "req = publish_queue subs ! i" "subs' = subs\<lparr>publish_queue := (publish_queue subs)[i := zero_publish_request]\<rparr>"
    by (auto simp: publish_request_dequeue_def split: option.splits prod.splits)
  show "\<exists>i < length (publish_queue subs). req = publish_queue subs ! i \<and> parked session req \<and>
         (\<forall>r \<in> set (publish_queue subs). parked session r \<longrightarrow> enqueued_ms req \<le> enqueued_ms r) \<and>
         (\<forall>k < i. parked session (publish_queue subs ! k) \<longrightarrow> enqueued_ms req < enqueued_ms (publish_queue subs ! k)) \<and>
         subs' = subs\<lparr>publish_queue := (publish_queue subs)[i := zero_publish_request]\<rparr>"
    using oldest_request_Some [OF e] r by (intro exI [of _ i]) auto
qed

subsection \<open>Retransmission\<close>

lemma find_index_update_same:
  "P x = P (xs ! i) \<Longrightarrow> find_index P (xs[i := x]) = find_index P xs"
proof (induction xs arbitrary: i)
  case (Cons y ys)
  thus ?case by (cases i) auto
qed simp

lemma find_after_update:
  assumes "mu_subscription_find subs session sid = Some i"
    and "sub_in_use (f (subscriptions subs ! i)) = sub_in_use (subscriptions subs ! i)"
    and "sub_session_id (f (subscriptions subs ! i)) = sub_session_id (subscriptions subs ! i)"
    and "subscription_id (f (subscriptions subs ! i)) = subscription_id (subscriptions subs ! i)"
  shows "mu_subscription_find (update_subscription i f subs) session sid = Some i"
    and "subscriptions (update_subscription i f subs) ! i = f (subscriptions subs ! i)"
  using assms mu_subscription_findD [OF assms(1)]
    find_index_update_same [of "\<lambda>sub. sub_in_use sub \<and> sub_session_id sub = session \<and> subscription_id sub = sid"
      "f (subscriptions subs ! i)" "subscriptions subs" i]
  by (simp_all add: mu_subscription_find_def update_subscription_def)

lemma store_retransmit_frame [simp]:
  "sub_in_use (store_retransmit seq t body sub) = sub_in_use sub"
  "sub_session_id (store_retransmit seq t body sub) = sub_session_id sub"
  "subscription_id (store_retransmit seq t body sub) = subscription_id sub"
  by (simp_all add: store_retransmit_def Let_def)

lemma store_retransmit_message:
  fixes seq :: u32 and t :: u64
  assumes "length body \<le> MU_RETRANSMIT_BYTES" "length (rt_message (retransmit sub)) = MU_RETRANSMIT_BYTES"
  defines "rt \<equiv> retransmit (store_retransmit seq t body sub)"
  shows "rt_valid rt" "rt_sequence_number rt = seq" "rt_message_len rt = length body" "take (length body) (rt_message rt) = body"
  using assms by (simp_all add: store_retransmit_def overwrite_def)


subsection \<open>Trigger links\<close>

lemma length_shift_links [simp]: "length (shift_links xs i c) = length xs"
  by (induction xs i c rule: shift_links.induct) (subst shift_links.simps, simp)

lemma shift_links_take:
  "\<lbrakk>i < c; c \<le> length xs\<rbrakk> \<Longrightarrow> take (c - 1) (shift_links xs i c) = take i xs @ drop (Suc i) (take c xs)"
proof (induction xs i c rule: shift_links.induct)
  case (1 xs i c)
  show ?case
  proof (cases "i + 1 < c")
    case True
    have "take (c - 1) (shift_links xs i c) = take (Suc i) (xs[i := xs ! (i + 1)]) @ drop (Suc (Suc i)) (take c (xs[i := xs ! (i + 1)]))"
      using 1(1) [OF True] True 1(3) by (simp add: shift_links.simps [of xs i])
    also have "\<dots> = take i xs @ (xs ! (i + 1)) # drop (Suc (Suc i)) (take c xs)"
      using True 1(3) by (simp add: take_Suc_conv_app_nth drop_take)
    also have "\<dots> = take i xs @ drop (Suc i) (take c xs)"
      using True 1(3) by (simp add: Cons_nth_drop_Suc [symmetric, of "Suc i" "take c xs"])
    finally show ?thesis .
  next
    case False
    hence "c = Suc i" using 1(2) by simp
    thus ?thesis by (simp add: shift_links.simps [of xs i])
  qed
qed

lemma remove1_find_index:
  "find_index (\<lambda>y. y = x) xs = Some i \<Longrightarrow> remove1 x xs = take i xs @ drop (Suc i) xs"
proof (induction xs arbitrary: i)
  case (Cons y ys)
  thus ?case by (auto split: if_splits)
qed simp

text \<open>C27: Trigger links.  The links of a triggering item are a list without repetition of at
  most \<open>MU_MAX_TRIGGER_LINKS\<close> item identifiers: adding appends a new link or reports that
  there is no room, removing deletes the link and keeps the order of the others.\<close>

theorem trigger_links_refine:
  assumes "find_monitored_item_in_subscription subs sid a = Some i" "find_monitored_item_in_subscription subs sid b = Some k"
    and "links_ok (monitored_items subs ! i)" "distinct (links (monitored_items subs ! i))"
  shows "let item = monitored_items subs ! i;
             (s, added) = mu_monitored_item_add_trigger_link sid a b subs;
             (s', removed) = mu_monitored_item_remove_trigger_link sid a b subs in
    (s, links (monitored_items added ! i)) =
       (if b \<in> set (links item) then (MU_STATUS_GOOD, links item)
        else if length (links item) = MU_MAX_TRIGGER_LINKS then (MU_STATUS_BAD_TOOMANYOPERATIONS, links item)
        else (MU_STATUS_GOOD, links item @ [b])) \<and>
    (s', links (monitored_items removed ! i)) =
       (if b \<in> set (links item) then (MU_STATUS_GOOD, remove1 b (links item))
        else (MU_STATUS_BAD_MONITOREDITEMIDINVALID, links item)) \<and>
    links_ok (monitored_items added ! i) \<and> links_ok (monitored_items removed ! i) \<and>
    distinct (links (monitored_items added ! i)) \<and> distinct (links (monitored_items removed ! i))"
proof -
  let ?item = "monitored_items subs ! i"
  let ?c = "triggered_count ?item" and ?xs = "triggered_items ?item"
  have i: "i < length (monitored_items subs)" using find_monitored_itemD [OF assms(1)] by simp
  have c: "?c \<le> length ?xs" "?c \<le> MU_MAX_TRIGGER_LINKS" "length ?xs = MU_MAX_TRIGGER_LINKS"
    using assms(3) by (auto simp: links_ok_def)
  have add: "?c < MU_MAX_TRIGGER_LINKS \<Longrightarrow> take (Suc ?c) (?xs[?c := b]) = links ?item @ [b]"
    using c by (simp add: take_Suc_conv_app_nth links_def)
  have rem: "take (?c - 1) ((shift_links ?xs j ?c)[?c - 1 := 0]) = remove1 b (links ?item)"
    if j: "find_index (\<lambda>l. l = b) (take ?c ?xs) = Some j" for j
    using shift_links_take [of j ?c ?xs] remove1_find_index [OF j] find_index_SomeD [OF j] c by (simp add: links_def)
  have ll: "length (links ?item) = ?c" using c by (simp add: links_def)
  have n: "find_index (\<lambda>l. l = b) (take ?c ?xs) = None \<longleftrightarrow> b \<notin> set (links ?item)"
    by (auto simp: find_index_None_iff links_def)
  show ?thesis
  proof (cases "b \<in> set (links ?item)")
    case True
    then obtain j where j: "find_index (\<lambda>l. l = b) (take ?c ?xs) = Some j" using n by (cases "find_index (\<lambda>l. l = b) (take ?c ?xs)") auto
    show ?thesis using True j rem [OF j] assms c i
      by (simp add: mu_monitored_item_add_trigger_link_def mu_monitored_item_remove_trigger_link_def Let_def update_item_def
          links_def [symmetric] links_ok_def) (simp add: links_def)
  next
    case False
    show ?thesis using False n add ll assms c i
      by (auto simp: mu_monitored_item_add_trigger_link_def mu_monitored_item_remove_trigger_link_def Let_def update_item_def
          links_ok_def links_def [of ?item, symmetric]) (auto simp: links_def)
  qed
qed

subsection \<open>Creation\<close>

lemma find_index_unique:
  "\<lbrakk>i < length xs; P (xs ! i); \<And>j. j < length xs \<Longrightarrow> P (xs ! j) \<Longrightarrow> j = i\<rbrakk> \<Longrightarrow> find_index P xs = Some i"
proof (cases "find_index P xs")
  case None
  thus "\<lbrakk>i < length xs; P (xs ! i)\<rbrakk> \<Longrightarrow> ?thesis" by (auto simp: find_index_None_iff)
next
  case (Some k)
  thus "(\<And>j. j < length xs \<Longrightarrow> P (xs ! j) \<Longrightarrow> j = i) \<Longrightarrow> ?thesis" using find_index_SomeD [OF Some] by auto
qed

lemma find_unique_subscription:
  assumes "table_inv subs" "i < length (subscriptions subs)" "sub_in_use (subscriptions subs ! i)"
  shows "mu_subscription_find subs (sub_session_id (subscriptions subs ! i)) (subscription_id (subscriptions subs ! i)) = Some i"
  unfolding mu_subscription_find_def
proof (rule find_index_unique)
  fix j assume "j < length (subscriptions subs)"
    "sub_in_use (subscriptions subs ! j) \<and> sub_session_id (subscriptions subs ! j) = sub_session_id (subscriptions subs ! i) \<and>
     subscription_id (subscriptions subs ! j) = subscription_id (subscriptions subs ! i)"
  thus "j = i" using unique_idsD [OF table_invD(4) [OF assms(1)], of j i] assms(2,3) by (cases "j = i") auto
qed (use assms in auto)

text \<open>C28: Creating a subscription fails only when every slot is taken, and then changes
  nothing.  Otherwise a free slot becomes a subscription of the session, with a nonzero
  identifier that no other subscription has and under which it is found, even after the
  identifier counter has wrapped around.\<close>

theorem subscription_create_succeeds:
  assumes "table_inv subs"
  shows "case mu_subscription_create session interval l k m p enabled now subs of
      (Inl s, subs') \<Rightarrow> s = MU_STATUS_BAD_TOOMANYSUBSCRIPTIONS \<and> list_all sub_in_use (subscriptions subs) \<and> subs' = subs
    | (Inr i, subs') \<Rightarrow> i < MU_MAX_SUBSCRIPTIONS \<and> \<not> sub_in_use (subscriptions subs ! i) \<and>
        (let sub = subscriptions subs' ! i in
           subscription_id sub \<noteq> 0 \<and> \<not> subscription_id_in_use subs (subscription_id sub) \<and>
           mu_subscription_find subs' session (subscription_id sub) = Some i)"
proof (cases "find_index (\<lambda>sub. \<not> sub_in_use sub) (subscriptions subs)")
  case None
  moreover have "list_all sub_in_use (subscriptions subs)" using None by (simp add: find_index_None_iff list_all_iff)
  ultimately show ?thesis by (simp add: mu_subscription_create_def)
next
  case (Some i)
  note inv = table_invD [OF assms]
  have i: "i < length (subscriptions subs)" "\<not> sub_in_use (subscriptions subs ! i)" using find_index_SomeD [OF Some] by auto
  obtain ident subs' where a: "allocate_subscription_id subs = (ident, subs')" by fastforce
  note fr = allocate_subscription_id_fresh [OF inv(1) a]
  obtain n where s: "subs' = subs\<lparr>next_subscription_id := n\<rparr>" using fr(3) by blast
  obtain sub where r: "mu_subscription_create session interval l k m p enabled now subs =
      (Inr i, subs\<lparr>next_subscription_id := n, subscriptions := (subscriptions subs)[i := sub]\<rparr>)"
    and f: "sub_in_use sub" "subscription_id sub = ident" "sub_session_id sub = session"
    using Some a fr(1) s by (auto simp: mu_subscription_create_def Let_def)
  let ?subs = "subs\<lparr>next_subscription_id := n, subscriptions := (subscriptions subs)[i := sub]\<rparr>"
  have "table_inv ?subs" using create_table_inv [OF assms, of session interval l k m p enabled now] by (simp add: r)
  hence "mu_subscription_find ?subs session ident = Some i" using find_unique_subscription [of ?subs i] i f by simp
  thus ?thesis using r fr f i inv(1) by simp
qed

text \<open>The event queue of a subscription, a ring of \<open>MU_MAX_EVENT_QUEUE_SIZE\<close> slots, is a
  first-in first-out list that drops its oldest event when a new one does not fit; after
  any number of events it holds the most recent ones, in order.\<close>

theorem event_queue_keeps_latest:
  assumes "event_inv q"
  shows "event_inv (fold event_enqueue es q) \<and>
    event_list (fold event_enqueue es q) =
      drop (length (event_list q) + length es - MU_MAX_EVENT_QUEUE_SIZE) (event_list q @ es)"
  using assms
proof (induction es rule: rev_induct)
  case Nil
  thus ?case using events.bounded by simp
next
  case (snoc e es)
  let ?q = "fold event_enqueue es q" and ?n = MU_MAX_EVENT_QUEUE_SIZE
  have inv: "event_inv ?q" and l: "event_list ?q = drop (length (event_list q) + length es - ?n) (event_list q @ es)"
    using snoc by auto
  have n: "eq_count ?q = min ?n (eq_count q + length es)" using events.length_fold_enq [OF snoc(2), of es] by simp
  have "event_list (event_enqueue e ?q) = (if eq_count ?q < ?n then event_list ?q @ [e] else tl (event_list ?q) @ [e])"
    by (rule event_enqueue_correct(2) [OF inv])
  also have "\<dots> = drop (length (event_list q) + length (es @ [e]) - ?n) (event_list q @ es @ [e])"
  proof (cases "eq_count ?q < ?n")
    case True
    hence "eq_count q + length es < ?n" using n by simp
    thus ?thesis using True l by simp
  next
    case False
    hence "?n \<le> eq_count q + length es" using n by simp
    hence le: "Suc (length (event_list q @ es) - ?n) \<le> length (event_list q @ es)"
      and k: "Suc (length (event_list q @ es) - ?n) = length (event_list q) + length (es @ [e]) - ?n"
      by (simp_all add: MU_MAX_EVENT_QUEUE_SIZE_def)
    have "tl (event_list ?q) @ [e] = drop (Suc (length (event_list q @ es) - ?n)) (event_list q @ es) @ [e]"
      unfolding l by (simp only: drop_Suc tl_drop length_append)
    also have "\<dots> = drop (Suc (length (event_list q @ es) - ?n)) ((event_list q @ es) @ [e])"
      using le by (simp only: drop_append [of _ "event_list q @ es"] diff_is_0_eq' drop_0)
    finally show ?thesis using False unfolding k by simp
  qed
  finally show ?case using event_enqueue_correct(1) [OF inv] by simp
qed

subsection \<open>Examples\<close>

lemma example_subs_inv: "table_inv example_subs"
  unfolding example_subs_def by (rule create_table_inv [OF init_table_inv])

theorem sampling_visits_all_witness:
  "monitored_items (subscriptions_sample example_fp (\<lambda>_ _. Inl 0) 0 mu_subscriptions_init) = monitored_items mu_subscriptions_init"
  using sampling_visits_all [OF init_table_inv, of example_fp "\<lambda>_ _. Inl 0" 0] by (simp add: mu_subscriptions_init_def)

theorem sample_timer_is_loop_witness:
  "next_sample_ms (advance_sample_timer 230 example_item) = publish_timer_loop 50 230 100"
  using sample_timer_is_loop [of example_item 230] by (simp add: example_item_def sampling_step_def)

theorem publish_timer_terminates_witness:
  "unat (next_publish_ms (advance_publish_timer 1030 (zero_subscription\<lparr>publishing_interval_ms := 100\<rparr>))) = 1100"
  using publish_timer_terminates [of "zero_subscription\<lparr>publishing_interval_ms := 100\<rparr>" 1030]
  by (simp add: zero_subscription_def)

theorem subscription_create_succeeds_witness:
  "\<not> subscription_id_in_use mu_subscriptions_init 1 \<and>
   (case mu_subscription_create 7 100 30 10 0 0 True 0 mu_subscriptions_init of
      (Inl s, subs') \<Rightarrow> s = MU_STATUS_BAD_TOOMANYSUBSCRIPTIONS | (Inr i, subs') \<Rightarrow> i < MU_MAX_SUBSCRIPTIONS)"
  using subscription_create_succeeds [OF init_table_inv, of 7 100 30 10 0 0 True 0]
  by (simp add: subscription_id_in_use_def mu_subscriptions_init_def list_ex_iff split: prod.splits sum.splits)

theorem event_queue_keeps_latest_witness:
  "event_list (fold event_enqueue [zero_event\<lparr>severity := 3\<rparr>] zero_event_queue) = [zero_event\<lparr>severity := 3\<rparr>]"
  using event_queue_keeps_latest [OF zero_event_queue_inv, of "[zero_event\<lparr>severity := 3\<rparr>]"]
  by (simp add: zero_event_queue_def event_list_def ring_def MU_MAX_EVENT_QUEUE_SIZE_def)

lemma example_subs_find: "mu_subscription_find example_subs 7 1 = Some 0"
  by code_simp


theorem trigger_links_refine_witness:
  "fst (mu_monitored_item_add_trigger_link 1 4 9 example_links) = MU_STATUS_GOOD \<and>
   links (monitored_items (snd (mu_monitored_item_add_trigger_link 1 4 9 example_links)) ! 0) = [9]"
proof -
  have f: "find_monitored_item_in_subscription example_links 1 4 = Some 0"
    "find_monitored_item_in_subscription example_links 1 9 = Some 1"
    by (simp_all add: find_monitored_item_in_subscription_def example_links_def)
  have l: "links (monitored_items example_links ! 0) = []" "links_ok (monitored_items example_links ! 0)"
    by (simp_all add: links_def links_ok_def example_links_def zero_item_def)
  show ?thesis using trigger_links_refine [OF f l(2)] l(1)
    by (simp add: Let_def split_beta MU_MAX_TRIGGER_LINKS_def)
qed

theorem dequeue_takes_oldest_witness:
  "\<exists>req subs'. publish_request_dequeue 7 example_queue = Some (req, subs') \<and> parked 7 req"
proof -
  have "\<exists>r \<in> set (publish_queue example_queue). parked 7 r" by (simp add: example_queue_def parked_def)
  thus ?thesis using dequeue_takes_oldest [of 7 example_queue]
    by (cases "publish_request_dequeue 7 example_queue") auto
qed

end
