(* ===== verification/Binary_Variant.thy ===== *)
theory Binary_Variant
  imports Binary_Values
begin

text \<open>
  Variants (\<^verbatim>\<open>src/encoding/binary_variant.c\<close>) and data values
  (\<^verbatim>\<open>src/encoding/binary_datavalue.c\<close>).  \<^verbatim>\<open>mu_binary_read_variant\<close> leaves
  \<^verbatim>\<open>is_array\<close> of the struct it fills as the caller had it; the model takes it as
  false, which is what the callers that zero the struct have.
\<close>

section \<open>Variants\<close>

definition read_localized_text :: "mu_localized_text rd" where
  "read_localized_text =
     rbind mu_binary_read_byte (\<lambda>lt_mask.
     rbind (if lt_mask AND 0x01 \<noteq> 0 then mu_binary_read_string else rreturn null_string) (\<lambda>loc.
     rbind (if lt_mask AND 0x02 \<noteq> 0 then mu_binary_read_string else rreturn null_string) (\<lambda>txt.
       rreturn \<lparr>lt_locale = loc, lt_text = txt\<rparr>)))"

definition rmap :: "('a \<Rightarrow> 'b) \<Rightarrow> 'a rd \<Rightarrow> 'b rd" where
  "rmap f m = rbind m (\<lambda>x. rreturn (f x))"

definition mu_binary_read_variant :: "mu_variant rd" where
  "mu_binary_read_variant =
     rbind mu_binary_read_byte (\<lambda>encoding_mask.
       let type = encoding_mask AND 0x3F in
       if encoding_mask AND 0x80 \<noteq> 0 \<or> encoding_mask AND 0x40 \<noteq> 0
       then rfail MU_STATUS_BAD_DECODINGERROR
       else if type = type_code MU_TYPE_NULL then rreturn VNull
       else if type = type_code MU_TYPE_BOOLEAN then rmap (\<lambda>x. VScalar (V_Boolean x)) mu_binary_read_boolean
       else if type = type_code MU_TYPE_SBYTE then rmap (\<lambda>x. VScalar (V_SByte x)) mu_binary_read_sbyte
       else if type = type_code MU_TYPE_BYTE then rmap (\<lambda>x. VScalar (V_Byte x)) mu_binary_read_byte
       else if type = type_code MU_TYPE_INT16 then rmap (\<lambda>x. VScalar (V_Int16 x)) mu_binary_read_int16
       else if type = type_code MU_TYPE_UINT16 then rmap (\<lambda>x. VScalar (V_UInt16 x)) mu_binary_read_uint16
       else if type = type_code MU_TYPE_INT32 then rmap (\<lambda>x. VScalar (V_Int32 x)) mu_binary_read_int32
       else if type = type_code MU_TYPE_UINT32 then rmap (\<lambda>x. VScalar (V_UInt32 x)) mu_binary_read_uint32
       else if type = type_code MU_TYPE_INT64 then rmap (\<lambda>x. VScalar (V_Int64 x)) mu_binary_read_int64
       else if type = type_code MU_TYPE_UINT64 then rmap (\<lambda>x. VScalar (V_UInt64 x)) mu_binary_read_uint64
       else if type = type_code MU_TYPE_FLOAT then rmap (\<lambda>x. VScalar (V_Float x)) mu_binary_read_float
       else if type = type_code MU_TYPE_DOUBLE then rmap (\<lambda>x. VScalar (V_Double x)) mu_binary_read_double
       else if type = type_code MU_TYPE_STRING then rmap (\<lambda>x. VScalar (V_String x)) mu_binary_read_string
       else if type = type_code MU_TYPE_BYTESTRING
       then rmap (\<lambda>x. VScalar (V_ByteString x)) mu_binary_read_bytestring
       else if type = type_code MU_TYPE_DATETIME then rmap (\<lambda>x. VScalar (V_DateTime x)) mu_binary_read_int64
       else if type = type_code MU_TYPE_STATUSCODE
       then rmap (\<lambda>x. VScalar (V_StatusCode x)) mu_binary_read_statuscode
       else if type = type_code MU_TYPE_NODEID then rmap (\<lambda>x. VScalar (V_NodeId x)) mu_binary_read_nodeid
       else if type = type_code MU_TYPE_QUALIFIEDNAME
       then rbind mu_binary_read_uint16 (\<lambda>ns. rbind mu_binary_read_string (\<lambda>name.
              rreturn (VScalar (V_QualifiedName \<lparr>qn_namespace_index = ns, qn_name = name\<rparr>))))
       else if type = type_code MU_TYPE_LOCALIZEDTEXT
       then rmap (\<lambda>x. VScalar (V_LocalizedText x)) read_localized_text
       else rfail MU_STATUS_BAD_DECODINGERROR)"

definition lt_mask_of :: "mu_localized_text \<Rightarrow> byte" where
  "lt_mask_of lt = (if 0 \<le> sint (str_length (lt_locale lt)) then 0x01 else 0) OR
                   (if 0 \<le> sint (str_length (lt_text lt)) then 0x02 else 0)"

fun write_scalar_value :: "mu_scalar \<Rightarrow> wr" where
  "write_scalar_value (V_Boolean x) = mu_binary_write_boolean x"
| "write_scalar_value (V_SByte x) = mu_binary_write_sbyte x"
| "write_scalar_value (V_Byte x) = mu_binary_write_byte x"
| "write_scalar_value (V_Int16 x) = mu_binary_write_int16 x"
| "write_scalar_value (V_UInt16 x) = mu_binary_write_uint16 x"
| "write_scalar_value (V_Int32 x) = mu_binary_write_int32 x"
| "write_scalar_value (V_UInt32 x) = mu_binary_write_uint32 x"
| "write_scalar_value (V_Int64 x) = mu_binary_write_int64 x"
| "write_scalar_value (V_UInt64 x) = mu_binary_write_uint64 x"
| "write_scalar_value (V_Float x) = mu_binary_write_float x"
| "write_scalar_value (V_Double x) = mu_binary_write_double x"
| "write_scalar_value (V_String x) = mu_binary_write_string x"
| "write_scalar_value (V_ByteString x) = mu_binary_write_bytestring x"
| "write_scalar_value (V_DateTime x) = mu_binary_write_int64 x"
| "write_scalar_value (V_StatusCode x) = mu_binary_write_statuscode x"
| "write_scalar_value (V_NodeId x) = mu_binary_write_nodeid x"
| "write_scalar_value (V_QualifiedName q) =
     wthen (mu_binary_write_uint16 (qn_namespace_index q)) (mu_binary_write_string (qn_name q))"
| "write_scalar_value (V_LocalizedText lt) =
     wthen (mu_binary_write_byte (lt_mask_of lt))
       (wthen (if lt_mask_of lt AND 0x01 \<noteq> 0 then mu_binary_write_string (lt_locale lt) else wreturn MU_STATUS_GOOD)
          (wthen (if lt_mask_of lt AND 0x02 \<noteq> 0 then mu_binary_write_string (lt_text lt) else wreturn MU_STATUS_GOOD)
             (wreturn MU_STATUS_GOOD)))"

text \<open>The in-memory strides of the 32-bit targets; zero for a type that the table
  has no entry for.\<close>

fun element_size :: "mu_builtin_type \<Rightarrow> nat" where
  "element_size MU_TYPE_BOOLEAN = 1"
| "element_size MU_TYPE_SBYTE = 1"
| "element_size MU_TYPE_BYTE = 1"
| "element_size MU_TYPE_INT16 = 2"
| "element_size MU_TYPE_UINT16 = 2"
| "element_size MU_TYPE_INT32 = 4"
| "element_size MU_TYPE_UINT32 = 4"
| "element_size MU_TYPE_INT64 = 8"
| "element_size MU_TYPE_UINT64 = 8"
| "element_size MU_TYPE_FLOAT = 4"
| "element_size MU_TYPE_DOUBLE = 8"
| "element_size MU_TYPE_STRING = 8"
| "element_size MU_TYPE_DATETIME = 8"
| "element_size MU_TYPE_BYTESTRING = 8"
| "element_size MU_TYPE_NODEID = 16"
| "element_size MU_TYPE_STATUSCODE = 4"
| "element_size MU_TYPE_QUALIFIEDNAME = 12"
| "element_size MU_TYPE_LOCALIZEDTEXT = 16"
| "element_size _ = 0"

fun mu_binary_write_variant :: "mu_variant \<Rightarrow> wr" where
  "mu_binary_write_variant VNull =
     wthen (mu_binary_write_byte (type_code MU_TYPE_NULL)) (wreturn MU_STATUS_GOOD)"
| "mu_binary_write_variant (VScalar v) =
     wthen (mu_binary_write_byte (type_code (scalar_type v))) (write_scalar_value v)"
| "mu_binary_write_variant (VArray t len ptr) =
     wthen (mu_binary_write_byte (type_code t OR 0x80))
       (if t = MU_TYPE_NULL then wreturn MU_STATUS_GOOD
        else wthen (mu_binary_write_int32 len)
          (if sint len < 0 \<or> ptr = None then wreturn MU_STATUS_GOOD
           else if element_size t = 0 then wreturn MU_STATUS_BAD_ENCODINGERROR
           else wseq (map (\<lambda>i. write_scalar_value (the ptr ! i)) [0..<nat (sint len)])))"
| "mu_binary_write_variant (VOpaque t) =
     wthen (mu_binary_write_byte (type_code t))
       (if t = MU_TYPE_NULL then wreturn MU_STATUS_GOOD else wreturn MU_STATUS_BAD_ENCODINGERROR)"

section \<open>Data values\<close>

text \<open>The decoder fills a struct of the caller: fields that the mask leaves out
  keep the caller's contents.\<close>

definition mu_binary_read_datavalue :: "mu_datavalue \<Rightarrow> mu_datavalue rd" where
  "mu_binary_read_datavalue value =
     rbind mu_binary_read_byte (\<lambda>mask.
     rbind (if mask AND 0x01 \<noteq> 0 then mu_binary_read_variant else rreturn (dv_value value)) (\<lambda>v.
     rbind (if mask AND 0x02 \<noteq> 0 then mu_binary_read_statuscode else rreturn (dv_status value)) (\<lambda>st.
     rbind (if mask AND 0x04 \<noteq> 0 then mu_binary_read_int64 else rreturn (source_timestamp value)) (\<lambda>src.
     rbind (if mask AND 0x10 \<noteq> 0 then mu_binary_read_uint16 else rreturn 0) (\<lambda>_.
     rbind (if mask AND 0x08 \<noteq> 0 then mu_binary_read_int64 else rreturn (server_timestamp value)) (\<lambda>srv.
     rbind (if mask AND 0x20 \<noteq> 0 then mu_binary_read_uint16 else rreturn 0) (\<lambda>_.
       rreturn \<lparr>dv_value = v, dv_status = st, source_timestamp = src, server_timestamp = srv,
                has_value = (mask AND 0x01 \<noteq> 0), has_status = (mask AND 0x02 \<noteq> 0),
                has_source_timestamp = (mask AND 0x04 \<noteq> 0),
                has_server_timestamp = (mask AND 0x08 \<noteq> 0)\<rparr>)))))))"

definition datavalue_mask :: "mu_datavalue \<Rightarrow> byte" where
  "datavalue_mask v = (if has_value v then 0x01 else 0) OR (if has_status v then 0x02 else 0) OR
     (if has_source_timestamp v then 0x04 else 0) OR (if has_server_timestamp v then 0x08 else 0)"

definition mu_binary_write_datavalue :: "mu_datavalue \<Rightarrow> wr" where
  "mu_binary_write_datavalue v =
     wthen (mu_binary_write_byte (datavalue_mask v))
    (wthen (if has_value v then mu_binary_write_variant (dv_value v) else wreturn MU_STATUS_GOOD)
    (wthen (if has_status v then mu_binary_write_statuscode (dv_status v) else wreturn MU_STATUS_GOOD)
    (wthen (if has_source_timestamp v then mu_binary_write_int64 (source_timestamp v) else wreturn MU_STATUS_GOOD)
    (wthen (if has_server_timestamp v then mu_binary_write_int64 (server_timestamp v) else wreturn MU_STATUS_GOOD)
       (wreturn MU_STATUS_GOOD)))))"

section \<open>Wire formats\<close>

definition valid_localized_text :: "mu_localized_text \<Rightarrow> bool" where
  "valid_localized_text lt \<longleftrightarrow> valid_string (lt_locale lt) \<and> valid_string (lt_text lt)"

definition enc_opt_string :: "mu_string \<Rightarrow> byte list" where
  "enc_opt_string s = (if 0 \<le> sint (str_length s) then enc_string s else [])"

fun valid_scalar :: "mu_scalar \<Rightarrow> bool" where
  "valid_scalar (V_String s) = valid_string s"
| "valid_scalar (V_ByteString s) = valid_string s"
| "valid_scalar (V_NodeId n) = valid_nodeid n"
| "valid_scalar (V_QualifiedName q) = valid_qualified_name q"
| "valid_scalar (V_LocalizedText lt) = valid_localized_text lt"
| "valid_scalar _ = True"

fun enc_scalar :: "mu_scalar \<Rightarrow> byte list" where
  "enc_scalar (V_Boolean x) = enc_bool x"
| "enc_scalar (V_SByte x) = [x]"
| "enc_scalar (V_Byte x) = [x]"
| "enc_scalar (V_Int16 x) = mu_binary_le_put_u16 x"
| "enc_scalar (V_UInt16 x) = mu_binary_le_put_u16 x"
| "enc_scalar (V_Int32 x) = mu_binary_le_put_u32 x"
| "enc_scalar (V_UInt32 x) = mu_binary_le_put_u32 x"
| "enc_scalar (V_Int64 x) = mu_binary_le_put_u64 x"
| "enc_scalar (V_UInt64 x) = mu_binary_le_put_u64 x"
| "enc_scalar (V_Float x) = mu_binary_le_put_u32 x"
| "enc_scalar (V_Double x) = mu_binary_le_put_u64 x"
| "enc_scalar (V_String x) = enc_string x"
| "enc_scalar (V_ByteString x) = enc_string x"
| "enc_scalar (V_DateTime x) = mu_binary_le_put_u64 x"
| "enc_scalar (V_StatusCode x) = mu_binary_le_put_u32 x"
| "enc_scalar (V_NodeId x) = enc_nodeid x"
| "enc_scalar (V_QualifiedName q) = enc_qualified_name q"
| "enc_scalar (V_LocalizedText lt) =
     lt_mask_of lt # enc_opt_string (lt_locale lt) @ enc_opt_string (lt_text lt)"

text \<open>Scalars can be read back; arrays are only ever written.\<close>

fun valid_variant :: "mu_variant \<Rightarrow> bool" where
  "valid_variant VNull = True"
| "valid_variant (VScalar v) = valid_scalar v"
| "valid_variant _ = False"

fun enc_variant :: "mu_variant \<Rightarrow> byte list" where
  "enc_variant VNull = [0]"
| "enc_variant (VScalar v) = type_code (scalar_type v) # enc_scalar v"
| "enc_variant (VArray t len ptr) = (type_code t OR 0x80) # mu_binary_le_put_u32 len @
     (case ptr of None \<Rightarrow> [] | Some xs \<Rightarrow> concat (map enc_scalar xs))"
| "enc_variant (VOpaque t) = [type_code t]"

definition valid_datavalue :: "mu_datavalue \<Rightarrow> mu_datavalue \<Rightarrow> bool" where
  "valid_datavalue old v \<longleftrightarrow>
     (if has_value v then valid_variant (dv_value v) else dv_value v = dv_value old) \<and>
     (has_status v \<or> dv_status v = dv_status old) \<and>
     (has_source_timestamp v \<or> source_timestamp v = source_timestamp old) \<and>
     (has_server_timestamp v \<or> server_timestamp v = server_timestamp old)"

definition enc_datavalue :: "mu_datavalue \<Rightarrow> byte list" where
  "enc_datavalue v = datavalue_mask v #
     (if has_value v then enc_variant (dv_value v) else []) @
     (if has_status v then mu_binary_le_put_u32 (dv_status v) else []) @
     (if has_source_timestamp v then mu_binary_le_put_u64 (source_timestamp v) else []) @
     (if has_server_timestamp v then mu_binary_le_put_u64 (server_timestamp v) else [])"

definition sample_datavalue :: mu_datavalue where
  "sample_datavalue = \<lparr>dv_value = VScalar (V_QualifiedName \<lparr>qn_namespace_index = 1, qn_name = mk_string [0x61, 0x62]\<rparr>),
     dv_status = 0, source_timestamp = 5, server_timestamp = 0, has_value = True, has_status = False,
     has_source_timestamp = True, has_server_timestamp = False\<rparr>"

section \<open>Safety\<close>

lemma decoder_step_map [safe_intros]: "decoder_step m \<Longrightarrow> decoder_step (rmap f m)"
  unfolding rmap_def by (intro safe_intros)

lemma decoder_step_read_localized_text [safe_intros]: "decoder_step read_localized_text"
  unfolding read_localized_text_def by (intro safe_intros)

lemma decoder_read_variant [safe_intros]: "decoder mu_binary_read_variant"
  unfolding mu_binary_read_variant_def Let_def by (intro safe_intros) simp_all

lemmas decoder_step_read_variant [safe_intros] = decoder_read_variant [THEN decoder_stepI]

lemma decoder_read_datavalue [safe_intros]: "decoder (mu_binary_read_datavalue old)"
  unfolding mu_binary_read_datavalue_def by (intro safe_intros)

lemma encoder_step_write_scalar_value [safe_intros]: "encoder_step (write_scalar_value v)"
  by (cases v) (auto intro!: safe_intros)

lemma encoder_write_variant [safe_intros]: "encoder (mu_binary_write_variant v)"
  by (cases v) (auto intro!: safe_intros)

lemmas encoder_step_write_variant [safe_intros] = encoder_write_variant [THEN encoder_stepI]

lemma encoder_write_datavalue [safe_intros]: "encoder (mu_binary_write_datavalue v)"
  unfolding mu_binary_write_datavalue_def by (intro safe_intros)

section \<open>Variants round-trip\<close>

lemma rd_accepts_map: "rd_accepts m bs x \<Longrightarrow> rd_accepts (rmap f m) bs (f x)"
  unfolding rmap_def by (rule rd_accepts_bind) (auto intro: rd_accepts_return)

lemma rd_accepts_skip: "rd_accepts (f d) bs y \<Longrightarrow> rd_accepts (rbind (rreturn d) f) bs y"
  by (rule rd_accepts_bind [OF rd_accepts_return]) auto

lemma wr_emits_skip: "wr_emits k bs \<Longrightarrow> wr_emits (wthen (wreturn MU_STATUS_GOOD) k) bs"
  by (rule wr_emits_wthen [OF wr_emits_return]) auto

lemma valid_string_neg: "valid_string s \<Longrightarrow> \<not> 0 \<le> sint (str_length s) \<Longrightarrow> s = null_string"
  by (erule valid_string_cases) auto

lemma rd_accepts_opt:
  assumes "c \<Longrightarrow> rd_accepts rdr e x" "\<not> c \<Longrightarrow> d = x" "rd_accepts (f x) bs y"
  shows "rd_accepts (rbind (if c then rdr else rreturn d) f) ((if c then e else []) @ bs) y"
  using assms by (cases c) (auto intro: rd_accepts_bind rd_accepts_skip)

lemma rd_accepts_opt_last:
  assumes "c \<Longrightarrow> rd_accepts rdr e x" "\<not> c \<Longrightarrow> d = x" "rd_accepts (f x) [] y"
  shows "rd_accepts (rbind (if c then rdr else rreturn d) f) (if c then e else []) y"
  using assms by (cases c) (auto intro: rd_accepts_bind rd_accepts_skip)

lemma wr_emits_opt:
  assumes "c \<Longrightarrow> wr_emits m e" "wr_emits k bs"
  shows "wr_emits (wthen (if c then m else wreturn MU_STATUS_GOOD) k) ((if c then e else []) @ bs)"
  using assms by (cases c) (auto intro: wr_emits_wthen wr_emits_skip)

lemma wr_emits_opt_last:
  assumes "c \<Longrightarrow> wr_emits m e" "wr_emits k []"
  shows "wr_emits (wthen (if c then m else wreturn MU_STATUS_GOOD) k) (if c then e else [])"
  using wr_emits_opt [OF assms] by simp

lemma lt_mask_bits:
  "lt_mask_of lt AND 0x01 \<noteq> 0 \<longleftrightarrow> 0 \<le> sint (str_length (lt_locale lt))"
  "lt_mask_of lt AND 0x02 \<noteq> 0 \<longleftrightarrow> 0 \<le> sint (str_length (lt_text lt))"
  by (simp_all add: lt_mask_of_def)

lemma rd_accepts_localized_text:
  "valid_localized_text lt \<Longrightarrow> rd_accepts read_localized_text
    (lt_mask_of lt # enc_opt_string (lt_locale lt) @ enc_opt_string (lt_text lt)) lt"
proof -
  assume "valid_localized_text lt"
  then have s: "valid_string (lt_locale lt)" "valid_string (lt_text lt)"
    by (simp_all add: valid_localized_text_def)
  have "rd_accepts
      (rbind (if 0 \<le> sint (str_length (lt_locale lt)) then mu_binary_read_string else rreturn null_string) (\<lambda>loc.
       rbind (if 0 \<le> sint (str_length (lt_text lt)) then mu_binary_read_string else rreturn null_string) (\<lambda>txt.
         rreturn \<lparr>lt_locale = loc, lt_text = txt\<rparr>)))
      (enc_opt_string (lt_locale lt) @ enc_opt_string (lt_text lt)) lt"
    unfolding enc_opt_string_def
    using s valid_string_neg [OF s(1)] valid_string_neg [OF s(2)]
    by (intro rd_accepts_opt [where x = "lt_locale lt"] rd_accepts_opt_last [where x = "lt_text lt"]
        rd_accepts_returnI)
       (simp_all add: c_string.rdr_accepts)
  then show ?thesis
    unfolding read_localized_text_def by (intro accepts_then_primitives(3)) (simp add: lt_mask_bits)
qed

lemma wr_emits_localized_text:
  "valid_localized_text lt \<Longrightarrow> wr_emits (write_scalar_value (V_LocalizedText lt))
    (lt_mask_of lt # enc_opt_string (lt_locale lt) @ enc_opt_string (lt_text lt))"
  unfolding write_scalar_value.simps enc_opt_string_def valid_localized_text_def lt_mask_bits
  by (intro emits_then_primitives(3) wr_emits_opt wr_emits_opt_last c_string.wrt_emits wr_emits_return)
     simp_all

lemma wr_emits_scalar: "valid_scalar v \<Longrightarrow> wr_emits (write_scalar_value v) (enc_scalar v)"
proof (cases v)
  case (V_LocalizedText lt)
  assume "valid_scalar v"
  then show ?thesis using V_LocalizedText wr_emits_localized_text by simp
qed (auto intro!: wire_intros simp: enc_qualified_name_def valid_qualified_name_def)

lemma rd_accepts_scalar:
  assumes "valid_scalar v"
  shows "rd_accepts mu_binary_read_variant (type_code (scalar_type v) # enc_scalar v) (VScalar v)"
proof (cases v)
  case (V_LocalizedText lt)
  then show ?thesis unfolding mu_binary_read_variant_def
    using assms rd_accepts_map [OF rd_accepts_localized_text, of lt "\<lambda>x. VScalar (V_LocalizedText x)"]
    by (intro accepts_then_primitives(3)) simp
next
  case (V_QualifiedName q)
  then show ?thesis unfolding mu_binary_read_variant_def
    using assms
    by (intro accepts_then_primitives(3))
       (auto intro!: wire_intros rd_accepts_returnI simp: enc_qualified_name_def valid_qualified_name_def)
qed (use assms in \<open>auto intro!: accepts_then_primitives(3) rd_accepts_map wire_intros
      simp: mu_binary_read_variant_def\<close>)

lemma rd_accepts_null: "rd_accepts mu_binary_read_variant [0] VNull"
  unfolding mu_binary_read_variant_def by (intro accepts_then_primitives(3)) (simp add: rd_accepts_return)

lemma codec_variant: "codec mu_binary_read_variant mu_binary_write_variant enc_variant valid_variant"
  unfolding codec_def codec_axioms_def
proof (intro conjI allI impI)
  fix v assume v: "valid_variant v"
  show "wr_emits (mu_binary_write_variant v) (enc_variant v)"
    using v by (cases v) (auto intro!: wire_intros wr_emits_scalar)
  show "rd_accepts mu_binary_read_variant (enc_variant v) v"
    using v by (cases v) (auto intro: rd_accepts_null rd_accepts_scalar)
qed (rule decoder_read_variant)

interpretation c_variant: codec mu_binary_read_variant mu_binary_write_variant enc_variant valid_variant
  by (rule codec_variant)

lemmas variant_wire [wire_intros] =
  c_variant.wrt_emits c_variant.emits_then c_variant.emits_last
  c_variant.rdr_accepts c_variant.accepts_then c_variant.accepts_last

text \<open>Arrays are written as the mask, the element count and the elements.\<close>

lemma wr_emits_wseq:
  "(\<And>x. x \<in> set xs \<Longrightarrow> wr_emits (f x) (e x)) \<Longrightarrow> wr_emits (wseq (map f xs)) (concat (map e xs))"
  by (induction xs) (auto intro: wr_emits_return wr_emits_wthen)

lemma element_size_scalar: "element_size (scalar_type v) \<noteq> 0"
  by (cases v) simp_all

lemma wr_emits_array:
  assumes "sint len = int (length xs)" "\<forall>x \<in> set xs. valid_scalar x \<and> scalar_type x = t"
    "t \<noteq> MU_TYPE_NULL" "element_size t \<noteq> 0"
  shows "wr_emits (mu_binary_write_variant (VArray t len (Some xs))) (enc_variant (VArray t len (Some xs)))"
proof -
  have "map (\<lambda>i. write_scalar_value (xs ! i)) [0..<length xs] = map write_scalar_value xs"
    by (rule nth_equalityI) simp_all
  moreover have "wr_emits (wseq (map write_scalar_value xs)) (concat (map enc_scalar xs))"
    using assms(2) by (intro wr_emits_wseq wr_emits_scalar) simp
  ultimately show ?thesis
    using assms(1,3,4) by (auto intro!: emits_then_primitives)
qed

section \<open>Data values round-trip\<close>

lemma datavalue_mask_bits:
  "datavalue_mask v AND 0x01 \<noteq> 0 \<longleftrightarrow> has_value v"
  "datavalue_mask v AND 0x02 \<noteq> 0 \<longleftrightarrow> has_status v"
  "datavalue_mask v AND 0x04 \<noteq> 0 \<longleftrightarrow> has_source_timestamp v"
  "datavalue_mask v AND 0x08 \<noteq> 0 \<longleftrightarrow> has_server_timestamp v"
  "datavalue_mask v AND 0x10 = 0" "datavalue_mask v AND 0x20 = 0"
  by (simp_all add: datavalue_mask_def)

lemma codec_datavalue:
  "codec (mu_binary_read_datavalue old) mu_binary_write_datavalue enc_datavalue (valid_datavalue old)"
  unfolding codec_def codec_axioms_def
proof (intro conjI allI impI)
  fix v assume v: "valid_datavalue old v"
  show "wr_emits (mu_binary_write_datavalue v) (enc_datavalue v)"
    unfolding mu_binary_write_datavalue_def enc_datavalue_def
    using v by (intro emits_then_primitives(3) wr_emits_opt wr_emits_opt_last wire_intros)
      (simp add: valid_datavalue_def)
  show "rd_accepts (mu_binary_read_datavalue old) (enc_datavalue v) v"
    unfolding mu_binary_read_datavalue_def enc_datavalue_def
  proof (rule accepts_then_primitives(3))
    show "rd_accepts
      (rbind (if datavalue_mask v AND 0x01 \<noteq> 0 then mu_binary_read_variant else rreturn (dv_value old)) (\<lambda>a.
       rbind (if datavalue_mask v AND 0x02 \<noteq> 0 then mu_binary_read_statuscode else rreturn (dv_status old)) (\<lambda>st.
       rbind (if datavalue_mask v AND 0x04 \<noteq> 0 then mu_binary_read_int64 else rreturn (source_timestamp old)) (\<lambda>src.
       rbind (if datavalue_mask v AND 0x10 \<noteq> 0 then mu_binary_read_uint16 else rreturn 0) (\<lambda>_.
       rbind (if datavalue_mask v AND 0x08 \<noteq> 0 then mu_binary_read_int64 else rreturn (server_timestamp old)) (\<lambda>srv.
       rbind (if datavalue_mask v AND 0x20 \<noteq> 0 then mu_binary_read_uint16 else rreturn 0) (\<lambda>_.
         rreturn \<lparr>dv_value = a, dv_status = st, source_timestamp = src, server_timestamp = srv,
                  has_value = (datavalue_mask v AND 0x01 \<noteq> 0), has_status = (datavalue_mask v AND 0x02 \<noteq> 0),
                  has_source_timestamp = (datavalue_mask v AND 0x04 \<noteq> 0),
                  has_server_timestamp = (datavalue_mask v AND 0x08 \<noteq> 0)\<rparr>)))))))
      ((if has_value v then enc_variant (dv_value v) else []) @
       (if has_status v then mu_binary_le_put_u32 (dv_status v) else []) @
       (if has_source_timestamp v then mu_binary_le_put_u64 (source_timestamp v) else []) @
       (if has_server_timestamp v then mu_binary_le_put_u64 (server_timestamp v) else [])) v"
      unfolding datavalue_mask_bits if_False simp_thms
      using v
      by (intro rd_accepts_opt [where x = "dv_value v"] rd_accepts_opt [where x = "dv_status v"]
            rd_accepts_opt [where x = "source_timestamp v"] rd_accepts_skip
            rd_accepts_opt_last [where x = "server_timestamp v"])
         (auto simp: valid_datavalue_def intro!: wire_intros rd_accepts_returnI)
  qed
qed (rule decoder_read_datavalue)

interpretation c_datavalue: codec "mu_binary_read_datavalue old" mu_binary_write_datavalue
    enc_datavalue "valid_datavalue old" for old
  by (rule codec_datavalue)

section \<open>Properties of the codec\<close>



text \<open>C11: decoding a DataValue is memory safe on arbitrary input: on any
  well-formed reader the buffer and its bounds are untouched and the cursor stays
  inside the declared span; a success is only reported by a reader that has not
  failed; and two readers whose remaining bytes agree decode the same value, so
  bytes outside the span have no influence.\<close>

theorem datavalue_decode_safe:
  assumes "rd_wf r" "mu_binary_read_datavalue old r = (res, r')"
  shows "rd_frame r r' \<and> (\<forall>x. res = Inr x \<longrightarrow> rd_ok r \<and>
     (\<forall>q. rd_ok q \<and> rd_rest q = rd_rest r \<longrightarrow> fst (mu_binary_read_datavalue old q) = Inr x))"
  by (rule decoder.safe [OF decoder_read_datavalue assms])

theorem datavalue_decode_safe_witness:
  "rd_wf (mu_binary_reader_init (Some [0x01, 0x0C, 0xFF]) 3) \<and>
   rd_frame (mu_binary_reader_init (Some [0x01, 0x0C, 0xFF]) 3)
     (snd (mu_binary_read_datavalue sample_datavalue (mu_binary_reader_init (Some [0x01, 0x0C, 0xFF]) 3)))"
proof -
  let ?r = "mu_binary_reader_init (Some [0x01, 0x0C, 0xFF]) 3"
  have wf: "rd_wf ?r" by (simp add: rd_wf_def mu_binary_reader_init_def)
  have "mu_binary_read_datavalue sample_datavalue ?r =
    (fst (mu_binary_read_datavalue sample_datavalue ?r), snd (mu_binary_read_datavalue sample_datavalue ?r))"
    by simp
  from datavalue_decode_safe [OF wf this] show ?thesis using wf by blast
qed

text \<open>C14: encoding a DataValue is memory safe and honest: on a live writer the
  bytes in front of the old cursor and behind the new one are unchanged, the
  cursor never passes the declared capacity, and Good is returned only when the
  complete encoding was stored.\<close>

theorem datavalue_encode_safe:
  assumes "wr_ok w" "wr_buffer w = Some b" "mu_binary_write_datavalue v w = (s, w')"
  shows "\<exists>b'. wr_buffer w' = Some b' \<and> length b' = length b \<and>
    wr_position w \<le> wr_position w' \<and> wr_position w' \<le> wr_length w \<and>
    (\<forall>i < length b. i < wr_position w \<or> wr_position w' \<le> i \<longrightarrow> b' ! i = b ! i) \<and>
    (valid_datavalue v v \<and> s = MU_STATUS_GOOD \<longrightarrow> w' = wr_put (enc_datavalue v) w)"
proof -
  have "wr_frame w w'"
    using encoder_step.put_frame [OF encoder_stepI [OF encoder_write_datavalue] assms(1,3)] .
  note frame = wr_frame_bytes [OF assms(1) this assms(2)]
  have "w' = wr_put (enc_datavalue v) w" if "valid_datavalue v v" "s = MU_STATUS_GOOD"
    using wr_emits_good [OF c_datavalue.wrt_emits [OF that(1)] assms(1)] assms(3) that(2) by blast
  then show ?thesis using frame by blast
qed

theorem datavalue_encode_safe_witness:
  "\<exists>s w'. mu_binary_write_datavalue sample_datavalue (mu_binary_writer_init (Some [1, 2, 3]) 2) = (s, w') \<and>
     (\<exists>b'. wr_buffer w' = Some b' \<and> length b' = 3 \<and> wr_position w' \<le> 2 \<and> b' ! 2 = 3)"
proof -
  let ?w = "mu_binary_writer_init (Some [1, 2, 3]) 2"
  have w: "wr_ok ?w" "wr_buffer ?w = Some [1, 2, 3]"
    by (simp_all add: wr_ok_def wr_wf_def mu_binary_writer_init_def)
  obtain s w' where run: "mu_binary_write_datavalue sample_datavalue ?w = (s, w')" by fastforce
  from datavalue_encode_safe [OF w run] obtain b' where "wr_buffer w' = Some b'" "length b' = 3"
    "wr_position w' \<le> wr_length ?w" "b' ! 2 = [1, 2, 3] ! 2 \<or> wr_position w' > 2" by force
  then show ?thesis using run by (auto simp: mu_binary_writer_init_def)
qed



end
