(* ===== verification/Service_Header.thy ===== *)
theory Service_Header
  imports Binary_Variant
begin

text \<open>
  The headers common to every service (\<^verbatim>\<open>src/services/service_header.c\<close>) and the Write
  request and response (\<^verbatim>\<open>src/services/write.c\<close>).
\<close>

record mu_request_header =
  authentication_token :: mu_nodeid
  rh_timestamp :: u64
  request_handle :: u32
  return_diagnostics :: u32
  audit_entry_id :: mu_string
  timeout_hint :: u32

record mu_response_header =
  resp_timestamp :: u64
  resp_request_handle :: u32
  service_result :: statuscode

definition mu_request_header_decode :: "mu_request_header rd" where
  "mu_request_header_decode =
     rbind mu_binary_read_nodeid (\<lambda>tok.
     rbind mu_binary_read_int64 (\<lambda>timestamp.
     rbind mu_binary_read_uint32 (\<lambda>handle.
     rbind mu_binary_read_uint32 (\<lambda>diagnostics.
     rbind mu_binary_read_string (\<lambda>audit.
     rbind mu_binary_read_uint32 (\<lambda>hint.
     rbind mu_binary_skip_extension_object (\<lambda>_.
       rreturn \<lparr>authentication_token = tok, rh_timestamp = timestamp, request_handle = handle,
                return_diagnostics = diagnostics, audit_entry_id = audit, timeout_hint = hint\<rparr>)))))))"

definition null_nodeid :: mu_nodeid where
  "null_nodeid = \<lparr>namespace_index = 0, nid_identifier = NumericId 0\<rparr>"

definition mu_response_header_encode :: "mu_response_header \<Rightarrow> wr" where
  "mu_response_header_encode header =
     wthen (mu_binary_write_int64 (resp_timestamp header))
     (wthen (mu_binary_write_uint32 (resp_request_handle header))
     (wthen (mu_binary_write_statuscode (service_result header))
     (wthen (mu_binary_write_byte 0)
     (wthen (mu_binary_write_int32 (-1))
        (mu_binary_write_extension_object_header null_nodeid 0)))))"

record mu_write_value =
  wv_node_id :: mu_nodeid
  wv_attribute_id :: u32
  wv_index_range :: mu_string
  wv_value :: mu_datavalue

text \<open>The data value is decoded into the caller's array slot, whose old contents \<open>old\<close> stay
  in the fields the message does not carry.\<close>

definition read_write_value :: "mu_datavalue \<Rightarrow> mu_write_value rd" where
  "read_write_value old =
     rbind mu_binary_read_nodeid (\<lambda>nid.
     rbind mu_binary_read_int32 (\<lambda>attr.
     rbind mu_binary_read_string (\<lambda>range.
     rbind (mu_binary_read_datavalue old) (\<lambda>v.
       rreturn \<lparr>wv_node_id = nid, wv_attribute_id = attr, wv_index_range = range, wv_value = v\<rparr>))))"

primrec read_write_values :: "mu_datavalue list \<Rightarrow> mu_write_value list rd" where
  "read_write_values [] = rreturn []"
| "read_write_values (old # olds) =
     rbind (read_write_value old) (\<lambda>v. rbind (read_write_values olds) (\<lambda>vs. rreturn (v # vs)))"

definition mu_write_request_decode :: "mu_datavalue list \<Rightarrow> mu_write_value list rd" where
  "mu_write_request_decode nodes_array =
     rbind mu_binary_read_int32 (\<lambda>count.
       if sint count < 0 then rreturn []
       else if length nodes_array < nat (sint count) then rfail MU_STATUS_BAD_TOOMANYOPERATIONS
       else read_write_values (take (nat (sint count)) nodes_array))"

definition mu_write_response_encode :: "statuscode list \<Rightarrow> wr" where
  "mu_write_response_encode results =
     wthen (mu_binary_write_int32 (of_nat (length results))) (wseq (map mu_binary_write_statuscode results))"

section \<open>Wire format\<close>

definition enc_response_header :: "mu_response_header \<Rightarrow> byte list" where
  "enc_response_header header =
     mu_binary_le_put_u64 (resp_timestamp header) @ mu_binary_le_put_u32 (resp_request_handle header) @
     mu_binary_le_put_u32 (service_result header) @ 0 # mu_binary_le_put_u32 (-1) @ [0, 0, 0]"

lemma decoder_request_header [safe_intros]: "decoder mu_request_header_decode"
  unfolding mu_request_header_decode_def by (intro safe_intros decoder_stepI)

lemma decoder_step_write_value [safe_intros]: "decoder_step (read_write_value old)"
  unfolding read_write_value_def by (intro safe_intros decoder_stepI)

lemma decoder_step_write_values [safe_intros]: "decoder_step (read_write_values olds)"
  by (induction olds) (auto intro!: safe_intros)

lemma decoder_write_request [safe_intros]: "decoder (mu_write_request_decode nodes_array)"
  unfolding mu_write_request_decode_def by (intro safe_intros) simp_all

lemma wr_emits_null_extension:
  "wr_emits (mu_binary_write_extension_object_header null_nodeid 0) [0, 0, 0]"
  using c_extension_object_header.wrt_emits [of "(null_nodeid, 0)"]
  by (simp add: valid_extension_object_header_def enc_extension_object_header_def null_nodeid_def valid_nodeid_def enc_nodeid_def)

lemma wr_emits_response_header: "wr_emits (mu_response_header_encode header) (enc_response_header header)"
  unfolding mu_response_header_encode_def enc_response_header_def 
  by (intro emits_then_primitives wr_emits_null_extension)

lemma wr_emits_write_response:
  "wr_emits (mu_write_response_encode results) (mu_binary_le_put_u32 (of_nat (length results)) @ concat (map mu_binary_le_put_u32 results))"
  unfolding mu_write_response_encode_def
  by (intro emits_then_primitives wr_emits_wseq emits_primitives)

end
