(* ===== verification/Notification.thy ===== *)
theory Notification
  imports Subscription Service_Header
begin

text \<open>
  Notification messages (\<^verbatim>\<open>src/services/subscription.c\<close>): which reports of a
  subscription's items are due, how many of them one Publish response carries, how they
  are written, and which of them are removed from the queues once the response is sent.
\<close>

section \<open>Which items report\<close>

definition monitored_item_reportable :: "mu_subscription \<Rightarrow> mu_monitored_item \<Rightarrow> bool" where
  "monitored_item_reportable sub item \<longleftrightarrow>
     mi_in_use item \<and> mi_subscription_id item = subscription_id sub \<and>
     (mi_pending item \<or> 0 < queue_count item) \<and> monitoring_mode item = MU_MONITORING_MODE_REPORTING"

definition monitored_item_in_subscription :: "mu_subscription \<Rightarrow> mu_monitored_item \<Rightarrow> bool" where
  "monitored_item_in_subscription sub item \<longleftrightarrow> mi_in_use item \<and> mi_subscription_id item = subscription_id sub"

definition monitored_item_reports_by_trigger :: "mu_monitored_item list \<Rightarrow> mu_subscription \<Rightarrow> mu_monitored_item \<Rightarrow> bool" where
  "monitored_item_reports_by_trigger items sub linked \<longleftrightarrow>
     (if \<not> monitored_item_in_subscription sub linked \<or> monitoring_mode linked \<noteq> MU_MONITORING_MODE_SAMPLING \<or>
         queue_count linked = 0 then False
      else list_ex (\<lambda>item. monitored_item_reportable sub item \<and> triggered_count item \<noteq> 0 \<and>
             monitored_item_id linked \<in> set (take (triggered_count item) (triggered_items item))) items)"

section \<open>Counting\<close>

text \<open>The result says whether all entries were counted.\<close>

primrec count_queue_entries :: "u32 \<Rightarrow> nat \<Rightarrow> nat \<Rightarrow> bool \<times> nat" where
  "count_queue_entries max_notifications 0 tally = (True, tally)"
| "count_queue_entries max_notifications (Suc n) tally =
    (if max_notifications \<noteq> 0 \<and> unat max_notifications \<le> tally then (False, tally)
     else count_queue_entries max_notifications n (tally + 1))"

fun count_items :: "(mu_monitored_item \<Rightarrow> bool) \<Rightarrow> u32 \<Rightarrow> mu_monitored_item list \<Rightarrow> nat \<Rightarrow> bool \<times> nat" where
  "count_items P max_notifications [] tally = (True, tally)"
| "count_items P max_notifications (item # items) tally =
    (if P item then
       (case count_queue_entries max_notifications (queue_count item) tally of
          (False, tally) \<Rightarrow> (False, tally)
        | (True, tally) \<Rightarrow> count_items P max_notifications items tally)
     else count_items P max_notifications items tally)"

definition count_reportable_items :: "mu_monitored_item list \<Rightarrow> mu_subscription \<Rightarrow> nat \<times> mu_subscription" where
  "count_reportable_items items sub =
    (let max_notifications = max_notifications_per_publish sub;
         sub = sub\<lparr>more_notifications := False\<rparr> in
     case count_items (monitored_item_reportable sub) max_notifications items 0 of
       (False, tally) \<Rightarrow> (tally, sub\<lparr>more_notifications := True\<rparr>)
     | (True, tally) \<Rightarrow>
         (case count_items (monitored_item_reports_by_trigger items sub) max_notifications items tally of
            (False, tally) \<Rightarrow> (tally, sub\<lparr>more_notifications := True\<rparr>)
          | (True, tally) \<Rightarrow> (tally, sub)))"

section \<open>Preparing the queues\<close>

definition prepare_reportable_queues :: "fp_ops \<Rightarrow> mu_subscription \<Rightarrow> mu_monitored_item list \<Rightarrow> mu_monitored_item list" where
  "prepare_reportable_queues fp sub items =
     map (\<lambda>item. if monitored_item_in_subscription sub item \<and> monitoring_mode item \<noteq> MU_MONITORING_MODE_DISABLED
                 then monitored_item_prepare_pending_queue fp item else item) items"

definition resend_item :: "fp_ops \<Rightarrow> read_callbacks \<Rightarrow> mu_monitored_item \<Rightarrow> mu_monitored_item" where
  "resend_item fp callbacks item =
    (let (status, cur) = read_monitored_item_value callbacks item;
         (cur, item) =
           (if status = MU_STATUS_GOOD then (cur, item\<lparr>last_value := cur, last_status := status, mi_has_value := True\<rparr>)
            else if mi_has_value item then (last_value item, item\<lparr>last_status := status\<rparr>)
            else (VNull, item\<lparr>last_value := VNull, last_status := status, mi_has_value := True\<rparr>)) in
     monitored_item_enqueue_report fp cur status item)"

definition enqueue_resend_data ::
    "fp_ops \<Rightarrow> read_callbacks \<Rightarrow> mu_subscription \<Rightarrow> mu_monitored_item list \<Rightarrow> mu_monitored_item list \<times> mu_subscription" where
  "enqueue_resend_data fp callbacks sub items =
    (if \<not> resend_data_pending sub then (items, sub)
     else (map (\<lambda>item. if \<not> monitored_item_in_subscription sub item \<or> monitoring_mode item \<noteq> MU_MONITORING_MODE_REPORTING
                       then item else resend_item fp callbacks item) items,
           sub\<lparr>resend_data_pending := False\<rparr>))"

section \<open>Removing what was reported\<close>

fun drain_reportable :: "mu_subscription \<Rightarrow> mu_monitored_item list \<Rightarrow> nat \<Rightarrow> mu_monitored_item list \<times> nat" where
  "drain_reportable sub [] remaining = ([], remaining)"
| "drain_reportable sub (item # items) remaining =
    (if remaining = 0 then (item # items, 0)
     else if \<not> monitored_item_reportable sub item then
       (let (items, remaining) = drain_reportable sub items remaining in (item # items, remaining))
     else
       (let (item, remaining) = monitored_item_drain_reported_entries remaining item;
            (items, remaining) = drain_reportable sub items remaining in (item # items, remaining)))"

fun drain_flagged :: "bool list \<Rightarrow> mu_monitored_item list \<Rightarrow> nat \<Rightarrow> mu_monitored_item list \<times> nat" where
  "drain_flagged (flag # flags) (item # items) remaining =
    (if remaining = 0 then (item # items, 0)
     else
       (let (item, remaining) = (if flag then monitored_item_drain_reported_entries remaining item else (item, remaining));
            (items, remaining) = drain_flagged flags items remaining in (item # items, remaining)))"
| "drain_flagged flags items remaining = (items, remaining)"

definition clear_reported_items :: "mu_subscription \<Rightarrow> nat \<Rightarrow> mu_monitored_item list \<Rightarrow> mu_monitored_item list" where
  "clear_reported_items sub report_count items =
    (let triggered = map (monitored_item_reports_by_trigger items sub) items;
         (items, remaining) = drain_reportable sub items report_count in
     fst (drain_flagged triggered items remaining))"

section \<open>Writing\<close>

definition MU_ID_DATACHANGENOTIFICATION_ENCODING_DEFAULTBINARY :: u32 where
  "MU_ID_DATACHANGENOTIFICATION_ENCODING_DEFAULTBINARY = 811"

definition backpatch_int32 :: "byte list \<Rightarrow> nat \<Rightarrow> u32 \<Rightarrow> byte list" where
  "backpatch_int32 buffer position value =
     buffer[position := ucast (value AND 0xFF), position + 1 := ucast (drop_bit 8 value AND 0xFF),
            position + 2 := ucast (drop_bit 16 value AND 0xFF), position + 3 := ucast (drop_bit 24 value AND 0xFF)]"

definition report_datavalue :: "queue_entry \<Rightarrow> mu_datavalue" where
  "report_datavalue e = \<lparr>dv_value = qe_value e, dv_status = (if qe_status e \<noteq> MU_STATUS_GOOD then qe_status e else 0),
     source_timestamp = 0, server_timestamp = 0, has_value = True, has_status = (qe_status e \<noteq> MU_STATUS_GOOD),
     has_source_timestamp = False, has_server_timestamp = False\<rparr>"

definition write_report :: "mu_monitored_item \<Rightarrow> queue_entry \<Rightarrow> wr" where
  "write_report item e =
     wthen (mu_binary_write_uint32 (client_handle item)) (mu_binary_write_datavalue (report_datavalue e))"

text \<open>The loop over the ring of one item: the writes in order and the reports still to be
  written.\<close>

fun queued_writes :: "mu_monitored_item \<Rightarrow> nat \<Rightarrow> nat \<Rightarrow> nat \<Rightarrow> nat \<Rightarrow> wr list \<times> nat" where
  "queued_writes item n 0 entry_index report_count = ([], report_count)"
| "queued_writes item n (Suc q) entry_index report_count =
    (if report_count = 0 then ([], 0)
     else let (ws, rest) = queued_writes item n q (monitored_item_queue_next entry_index n) (report_count - 1) in
          (write_report item (mi_queue item ! entry_index) # ws, rest))"

fun item_writes :: "(mu_monitored_item \<Rightarrow> bool) \<Rightarrow> mu_monitored_item list \<Rightarrow> nat \<Rightarrow> wr list \<times> nat" where
  "item_writes P [] report_count = ([], report_count)"
| "item_writes P (item # items) report_count =
    (if \<not> P item then item_writes P items report_count
     else let (ws, report_count) = queued_writes item (effective_size (mi_queue_size item)) (queue_count item)
                                     (queue_head item) report_count;
              (ws', report_count) = item_writes P items report_count in
          (ws @ ws', report_count))"

definition write_data_change_notification :: "mu_monitored_item list \<Rightarrow> mu_subscription \<Rightarrow> nat \<Rightarrow> wr" where
  "write_data_change_notification items sub report_count =
    (let (ws, left) = item_writes (monitored_item_reportable sub) items report_count;
         (ws', _) = (if left = 0 then ([], 0)
                     else item_writes (monitored_item_reports_by_trigger items sub) items left) in
     wthen (mu_binary_write_nodeid (ns0 MU_ID_DATACHANGENOTIFICATION_ENCODING_DEFAULTBINARY))
     (wthen (mu_binary_write_byte 1) (\<lambda>w.
       let length_pos = wr_position w in
       wthen (mu_binary_write_int32 0) (\<lambda>w.
         let body_start = wr_position w in
         wthen (mu_binary_write_int32 (of_nat report_count))
         (wthen (wseq (ws @ ws'))
         (wthen (mu_binary_write_int32 0) (\<lambda>w.
           let body_length = wr_position w - body_start in
           if 0x7FFFFFFF < body_length then (MU_STATUS_BAD_RESPONSETOOLARGE, w)
           else (MU_STATUS_GOOD,
                 w\<lparr>wr_buffer := map_option (\<lambda>b. backpatch_int32 b length_pos (of_nat body_length)) (wr_buffer w)\<rparr>)))) w) w)))"

definition event_item :: "mu_subscription \<Rightarrow> mu_monitored_item \<Rightarrow> bool" where
  "event_item sub item \<longleftrightarrow> mi_in_use item \<and> mi_subscription_id item = subscription_id sub \<and> attribute_id item = 12 \<and>
     monitoring_mode item = MU_MONITORING_MODE_REPORTING"

definition event_field :: "mu_event_notification \<Rightarrow> byte \<Rightarrow> mu_variant" where
  "event_field ev field_type =
    (if field_type = 1 then VScalar (V_ByteString (event_id ev))
     else if field_type = 2 then VScalar (V_NodeId (event_type ev))
     else if field_type = 3 then VScalar (V_DateTime (event_time ev))
     else if field_type = 4 then VScalar (V_LocalizedText \<lparr>lt_locale = null_string, lt_text = event_message ev\<rparr>)
     else if field_type = 5 then VScalar (V_UInt16 (severity ev))
     else VNull)"

definition write_event :: "mu_monitored_item \<Rightarrow> mu_event_notification \<Rightarrow> wr" where
  "write_event item ev =
     wthen (mu_binary_write_uint32 (client_handle item))
     (wthen (mu_binary_write_int32 (of_nat (select_clauses_count item)))
       (wseq (map (\<lambda>c. mu_binary_write_variant (event_field ev c)) (take (select_clauses_count item) (select_clauses item)))))"

text \<open>The events of the queue from index \<open>idx\<close> on.\<close>

primrec event_writes :: "mu_monitored_item \<Rightarrow> mu_event_queue \<Rightarrow> nat \<Rightarrow> nat \<Rightarrow> wr list" where
  "event_writes item q 0 idx = []"
| "event_writes item q (Suc k) idx =
     write_event item (eq_queue q ! idx) # event_writes item q k ((idx + 1) mod MU_MAX_EVENT_QUEUE_SIZE)"

definition write_event_notification_list :: "mu_monitored_item list \<Rightarrow> mu_subscription \<Rightarrow> wr" where
  "write_event_notification_list items sub w =
    (let type_id = ns0 914;
         q = event_queue sub;
         event_items = filter (event_item sub) items in
     if length event_items = 0 then mu_binary_write_extension_object_header type_id 0 w
     else
     let sub_w = mu_binary_writer_init (Some (replicate 1024 0)) 1024;
         (s, sub_w) = wthen (mu_binary_write_int32 (of_nat (length event_items * eq_count q)))
           (wseq (concat (map (\<lambda>item. event_writes item q (eq_count q) (eq_head q)) event_items))) sub_w in
     if s \<noteq> MU_STATUS_GOOD then (s, w)
     else
       wthen (mu_binary_write_extension_object_header type_id (wr_position sub_w)) (\<lambda>w.
         if wr_length w < wr_position w + wr_position sub_w then (MU_STATUS_BAD_OUTOFMEMORY, w)
         else (MU_STATUS_GOOD, wr_put (take (wr_position sub_w) (the (wr_buffer sub_w))) w)) w)"


definition MU_ID_PUBLISHRESPONSE :: u32 where "MU_ID_PUBLISHRESPONSE = 829"

definition write_publish_response_prefix :: "u32 \<Rightarrow> wr" where
  "write_publish_response_prefix handle =
     wthen (mu_binary_write_nodeid (ns0 MU_ID_PUBLISHRESPONSE))
       (mu_response_header_encode \<lparr>resp_timestamp = 0, resp_request_handle = handle, service_result = MU_STATUS_GOOD\<rparr>)"

text \<open>The three parts of the response: up to the notification message, the message that a
  Republish would repeat, and the acknowledgement results.\<close>

definition publish_head :: "mu_subscription \<Rightarrow> mu_publish_request \<Rightarrow> bool \<Rightarrow> wr" where
  "publish_head sub request include_data =
     wthen (write_publish_response_prefix (pr_request_handle request))
     (wthen (mu_binary_write_uint32 (subscription_id sub))
     (wthen (mu_binary_write_int32 0)
            (mu_binary_write_boolean (include_data \<and> more_notifications sub))))"

definition publish_message :: "mu_monitored_item list \<Rightarrow> mu_subscription \<Rightarrow> u32 \<Rightarrow> bool \<Rightarrow> nat \<Rightarrow> u64 \<Rightarrow> wr" where
  "publish_message items sub seq include_data report_count publish_time =
    (let data = include_data \<and> 0 < report_count;
         events = include_data \<and> 0 < eq_count (event_queue sub);
         notification_data_count = (if data then 1 else 0) + (if events then 1 else 0) in
     wthen (mu_binary_write_uint32 seq)
     (wthen (mu_binary_write_int64 publish_time)
     (wthen (mu_binary_write_int32 notification_data_count)
     (wthen (if data then write_data_change_notification items sub report_count else wreturn MU_STATUS_GOOD)
            (if events then write_event_notification_list items sub else wreturn MU_STATUS_GOOD)))))"

definition publish_tail :: "mu_publish_request \<Rightarrow> wr" where
  "publish_tail request =
    (let acks = (if MU_MAX_PUBLISH_ACKS < unat (ack_count request) then MU_MAX_PUBLISH_ACKS else unat (ack_count request)) in
     wthen (mu_binary_write_int32 (of_nat acks))
     (wthen (wseq (map mu_binary_write_statuscode (take acks (ack_results request))))
            (mu_binary_write_int32 0)))"

text \<open>The result is the status, or the length of the response and the span of the message
  in it, with the buffer.\<close>

definition build_publish_response ::
    "mu_monitored_item list \<Rightarrow> mu_subscription \<Rightarrow> mu_publish_request \<Rightarrow> u32 \<Rightarrow> bool \<Rightarrow> nat \<Rightarrow> u64 \<Rightarrow> byte list \<Rightarrow>
     (statuscode + nat \<times> nat \<times> nat) \<times> byte list" where
  "build_publish_response items sub request seq include_data report_count publish_time buffer =
    (let w = mu_binary_writer_init (Some buffer) (length buffer);
         (s, w) = publish_head sub request include_data w in
     if s \<noteq> MU_STATUS_GOOD then (Inl s, the (wr_buffer w))
     else
     let message_start = wr_position w;
         (s, w) = publish_message items sub seq include_data report_count publish_time w in
     if s \<noteq> MU_STATUS_GOOD then (Inl s, the (wr_buffer w))
     else
     let message_end = wr_position w;
         (s, w) = publish_tail request w in
     if s \<noteq> MU_STATUS_GOOD then (Inl s, the (wr_buffer w))
     else (Inr (wr_position w, message_start, message_end), the (wr_buffer w)))"

text \<open>The queued reports of the selected items, each with its item, in the order in which
  they are written.\<close>

definition queued_reports :: "mu_monitored_item list \<Rightarrow> (mu_monitored_item \<times> queue_entry) list" where
  "queued_reports items = concat (map (\<lambda>item. map (Pair item) (queue_list item)) items)"

definition due_reports :: "mu_monitored_item list \<Rightarrow> mu_subscription \<Rightarrow> (mu_monitored_item \<times> queue_entry) list" where
  "due_reports items sub =
     queued_reports (filter (monitored_item_reportable sub) items) @
     queued_reports (filter (monitored_item_reports_by_trigger items sub) items)"

text \<open>The queued reports at the flagged positions.\<close>

definition flagged :: "bool list \<Rightarrow> mu_monitored_item list \<Rightarrow> queue_entry list" where
  "flagged flags items = concat (map (\<lambda>(flag, item). if flag then queue_list item else []) (zip flags items))"

text \<open>A length that is patched in after the body has been written.\<close>

definition counted :: "wr \<Rightarrow> wr" where
  "counted k w =
    (let length_pos = wr_position w in
     wthen (mu_binary_write_int32 0) (\<lambda>w.
       let body_start = wr_position w in
       wthen k (\<lambda>w.
         let body_length = wr_position w - body_start in
         if 0x7FFFFFFF < body_length then (MU_STATUS_BAD_RESPONSETOOLARGE, w)
         else (MU_STATUS_GOOD,
               w\<lparr>wr_buffer := map_option (\<lambda>b. backpatch_int32 b length_pos (of_nat body_length)) (wr_buffer w)\<rparr>)) w) w)"

definition enc_report :: "mu_monitored_item \<times> queue_entry \<Rightarrow> byte list" where
  "enc_report = (\<lambda>(item, e). mu_binary_le_put_u32 (client_handle item) @ enc_datavalue (report_datavalue e))"

definition data_change_body :: "(mu_monitored_item \<times> queue_entry) list \<Rightarrow> byte list" where
  "data_change_body rs = mu_binary_le_put_u32 (of_nat (length rs)) @ concat (map enc_report rs) @ mu_binary_le_put_u32 0"

definition enc_data_change :: "(mu_monitored_item \<times> queue_entry) list \<Rightarrow> byte list" where
  "enc_data_change rs = enc_nodeid (ns0 MU_ID_DATACHANGENOTIFICATION_ENCODING_DEFAULTBINARY) @
     1 # mu_binary_le_put_u32 (of_nat (length (data_change_body rs))) @ data_change_body rs"

definition event_fields :: "mu_monitored_item \<Rightarrow> mu_event_notification \<Rightarrow> mu_variant list" where
  "event_fields item ev = map (event_field ev) (take (select_clauses_count item) (select_clauses item))"

definition enc_event :: "mu_monitored_item \<times> mu_event_notification \<Rightarrow> byte list" where
  "enc_event = (\<lambda>(item, ev). mu_binary_le_put_u32 (client_handle item) @
     mu_binary_le_put_u32 (of_nat (select_clauses_count item)) @ concat (map enc_variant (event_fields item ev)))"

definition due_events :: "mu_monitored_item list \<Rightarrow> mu_subscription \<Rightarrow> (mu_monitored_item \<times> mu_event_notification) list" where
  "due_events items sub =
     concat (map (\<lambda>item. map (Pair item) (event_list (event_queue sub))) (filter (event_item sub) items))"

definition event_body :: "(mu_monitored_item \<times> mu_event_notification) list \<Rightarrow> byte list" where
  "event_body es = mu_binary_le_put_u32 (of_nat (length es)) @ concat (map enc_event es)"

definition enc_events :: "mu_monitored_item list \<Rightarrow> mu_subscription \<Rightarrow> byte list" where
  "enc_events items sub =
    (if filter (event_item sub) items = [] then enc_extension_object_header (ns0 914, 0)
     else enc_extension_object_header (ns0 914, length (event_body (due_events items sub))) @ event_body (due_events items sub))"

definition enc_publish_head :: "mu_subscription \<Rightarrow> mu_publish_request \<Rightarrow> bool \<Rightarrow> byte list" where
  "enc_publish_head sub request include_data =
     enc_nodeid (ns0 MU_ID_PUBLISHRESPONSE) @
     enc_response_header \<lparr>resp_timestamp = 0, resp_request_handle = pr_request_handle request, service_result = MU_STATUS_GOOD\<rparr> @
     mu_binary_le_put_u32 (subscription_id sub) @ mu_binary_le_put_u32 0 @ enc_bool (include_data \<and> more_notifications sub)"

definition enc_publish_message :: "mu_monitored_item list \<Rightarrow> mu_subscription \<Rightarrow> u32 \<Rightarrow> bool \<Rightarrow> nat \<Rightarrow> u64 \<Rightarrow> byte list" where
  "enc_publish_message items sub seq include_data n publish_time =
    (let data = include_data \<and> 0 < n; events = include_data \<and> 0 < eq_count (event_queue sub) in
     mu_binary_le_put_u32 seq @ mu_binary_le_put_u64 publish_time @
     mu_binary_le_put_u32 ((if data then 1 else 0) + (if events then 1 else 0)) @
     (if data then enc_data_change (take n (due_reports items sub)) else []) @
     (if events then enc_events items sub else []))"

definition enc_publish_tail :: "mu_publish_request \<Rightarrow> byte list" where
  "enc_publish_tail request =
    (let acks = min MU_MAX_PUBLISH_ACKS (unat (ack_count request)) in
     mu_binary_le_put_u32 (of_nat acks) @ concat (map mu_binary_le_put_u32 (take acks (ack_results request))) @
     mu_binary_le_put_u32 0)"

text \<open>What the response relies on: well-formed queues and values that can be encoded.\<close>

definition publishable :: "mu_monitored_item list \<Rightarrow> mu_subscription \<Rightarrow> nat \<Rightarrow> bool" where
  "publishable items sub n \<longleftrightarrow>
     list_all (\<lambda>item. mi_in_use item \<longrightarrow> queue_inv item) items \<and> event_inv (event_queue sub) \<and>
     n \<le> length (due_reports items sub) \<and>
     list_all (\<lambda>(item, e). valid_variant (qe_value e)) (take n (due_reports items sub)) \<and>
     length (data_change_body (take n (due_reports items sub))) \<le> 0x7FFFFFFF \<and>
     list_all (\<lambda>(item, ev). list_all valid_variant (event_fields item ev)) (due_events items sub) \<and>
     length (event_body (due_events items sub)) \<le> 1024"

definition example_reporting :: "mu_monitored_item list" where
  "example_reporting =
     [monitored_item_enqueue_report example_fp (VScalar (V_Byte 7)) MU_STATUS_GOOD
        (example_item\<lparr>mi_subscription_id := 1, monitored_item_id := 4, client_handle := 9\<rparr>)]"

definition example_sub :: mu_subscription where
  "example_sub = zero_subscription\<lparr>sub_in_use := True, subscription_id := 1, sequence_number := 1\<rparr>"

section \<open>The reports of a subscription\<close>

lemma length_queued_reports: "length (queued_reports items) = sum_list (map queue_count items)"
  by (induction items) (auto simp: queued_reports_def)

lemma queued_reports_simps [simp]:
  "queued_reports [] = []"
  "queued_reports (item # items) = map (Pair item) (queue_list item) @ queued_reports items"
  by (simp_all add: queued_reports_def)

subsection \<open>Counting\<close>

lemma count_queue_entries_eq:
  "m = 0 \<or> t \<le> unat m \<Longrightarrow>
   count_queue_entries m n t = (if m = 0 \<or> t + n \<le> unat m then (True, t + n) else (False, unat m))"
proof (induction n arbitrary: t)
  case (Suc n)
  show ?case
  proof (cases "m \<noteq> 0 \<and> unat m \<le> t")
    case False
    hence "m = 0 \<or> t + 1 \<le> unat m" using Suc(2) by auto
    thus ?thesis using Suc(1) [of "t + 1"] False by auto
  qed (use Suc(2) in auto)
qed auto

lemma count_items_eq:
  "m = 0 \<or> t \<le> unat m \<Longrightarrow>
   count_items P m items t =
     (if m = 0 \<or> t + length (queued_reports (filter P items)) \<le> unat m
      then (True, t + length (queued_reports (filter P items))) else (False, unat m))"
proof (induction items arbitrary: t)
  case (Cons item items)
  show ?case
  proof (cases "P item \<and> (m = 0 \<or> t + queue_count item \<le> unat m)")
    case True
    thus ?thesis using Cons(1) [of "t + queue_count item"] Cons(2) by (auto simp: count_queue_entries_eq)
  next
    case False
    thus ?thesis using Cons by (auto simp: count_queue_entries_eq)
  qed
qed simp

lemma reportable_more [simp]: "monitored_item_reportable (sub\<lparr>more_notifications := b\<rparr>) = monitored_item_reportable sub"
  by (simp add: monitored_item_reportable_def fun_eq_iff)

lemma by_trigger_more [simp]:
  "monitored_item_reports_by_trigger items (sub\<lparr>more_notifications := b\<rparr>) = monitored_item_reports_by_trigger items sub"
  by (simp add: monitored_item_reports_by_trigger_def monitored_item_in_subscription_def fun_eq_iff)

lemma count_reportable_items_eq:
  "count_reportable_items items sub =
    (let n = length (due_reports items sub); m = max_notifications_per_publish sub in
     if m = 0 \<or> n \<le> unat m then (n, sub\<lparr>more_notifications := False\<rparr>)
     else (unat m, sub\<lparr>more_notifications := True\<rparr>))"
  by (auto simp: count_reportable_items_def Let_def count_items_eq due_reports_def)

subsection \<open>Writing\<close>

lemma effective_size_inv: "queue_inv item \<Longrightarrow> effective_size (mi_queue_size item) = mi_queue_size item"
  by (simp add: effective_size_def queue_inv_def Let_def)

lemma ring_Cons: "ring xs h (Suc c) n = xs ! (h mod n) # ring xs (Suc h) c n"
  by (simp add: ring_def upt_conv_Cons map_Suc_upt [symmetric] del: upt_Suc)

lemma ring_mod: "ring xs (h mod n) c n = ring xs h c n"
  by (simp add: ring_def mod_add_left_eq)

lemma queued_writes_eq:
  "h < n \<Longrightarrow> queued_writes item n q h r = (map (write_report item) (take r (ring (mi_queue item) h q n)), r - q)"
proof (induction item n q h r rule: queued_writes.induct)
  case (2 item n q h r)
  show ?case
  proof (cases r)
    case (Suc k)
    have "Suc h mod n < n" using 2(2) by simp
    thus ?thesis using 2(1) 2(2) Suc by (simp add: queue_next_mod ring_Cons ring_mod)
  qed simp
qed (simp add: ring_def)

lemma item_writes_eq:
  "list_all (\<lambda>item. P item \<longrightarrow> queue_inv item) items \<Longrightarrow>
   item_writes P items r =
     (map (\<lambda>(item, e). write_report item e) (take r (queued_reports (filter P items))),
      r - length (queued_reports (filter P items)))"
proof (induction P items r rule: item_writes.induct)
  case (2 P item items r)
  show ?case
  proof (cases "P item")
    case True
    hence i: "queue_inv item" using 2(3) by simp
    hence h: "queue_head item < mi_queue_size item" by (simp add: queue_inv_def)
    have "queued_writes item (effective_size (mi_queue_size item)) (queue_count item) (queue_head item) r =
        (map (write_report item) (take r (queue_list item)), r - queue_count item)"
      using queued_writes_eq [OF h] by (simp add: effective_size_inv [OF i] queue_list_def)
    thus ?thesis using True 2(2) [of "(map (write_report item) (take r (queue_list item)), r - queue_count item)"
        "map (write_report item) (take r (queue_list item))" "r - queue_count item"] 2(3)
      by (simp add: take_map)
  next
    case False
    thus ?thesis using 2(1,3) by simp
  qed
qed simp

subsection \<open>Draining\<close>

lemma flagged_simps [simp]:
  "flagged [] items = []" "flagged flags [] = []"
  "flagged (flag # flags) (item # items) = (if flag then queue_list item else []) @ flagged flags items"
  by (simp_all add: flagged_def)

lemma flagged_filter: "flagged (map P items) items = map snd (queued_reports (filter P items))"
  by (induction items) (auto simp: comp_def)

lemma drain_reportable_flagged:
  "drain_reportable sub items r = drain_flagged (map (monitored_item_reportable sub) items) items r"
  by (induction sub items r rule: drain_reportable.induct) (auto split: prod.splits)

lemma flagged_cong:
  assumes "length flags = length xs" "length ys = length xs" "\<And>k. \<lbrakk>k < length xs; flags ! k\<rbrakk> \<Longrightarrow> ys ! k = xs ! k"
  shows "flagged flags ys = flagged flags xs"
  unfolding flagged_def using assms by (intro arg_cong [of _ _ concat] nth_equalityI) auto

lemma keep_refl:
  "list_all2 (\<lambda>f x. f \<longrightarrow> Q x) fs xs \<Longrightarrow> list_all2 (\<lambda>f (x, y). if f then Q y else y = x) fs (zip xs xs)"
  by (induction fs xs rule: list_all2_induct) auto

lemma drain_flagged_correct:
  "\<lbrakk>list_all2 (\<lambda>flag item. flag \<longrightarrow> queue_inv item) flags items; drain_flagged flags items r = (items', r')\<rbrakk> \<Longrightarrow>
   flagged flags items' = drop r (flagged flags items) \<and> r' = r - length (flagged flags items) \<and>
   list_all2 (\<lambda>flag (item, item'). if flag then queue_inv item' else item' = item) flags (zip items items') \<and>
   length items' = length items"
proof (induction flags items r arbitrary: items' r' rule: drain_flagged.induct)
  case (1 flag flags item items r)
  show ?case
  proof (cases "r = 0")
    case True
    thus ?thesis using 1(3) keep_refl [OF 1(2)] by simp
  next
    case False
    obtain item1 r1 where d: "(if flag then monitored_item_drain_reported_entries r item else (item, r)) = (item1, r1)" by fastforce
    obtain items2 r2 where e: "drain_flagged flags items r1 = (items2, r2)" by fastforce
    have res: "items' = item1 # items2" "r' = r2" using 1(3) False d e by simp_all
    have a: "list_all2 (\<lambda>flag item. flag \<longrightarrow> queue_inv item) flags items" using 1(2) by simp
    have ih: "flagged flags items2 = drop r1 (flagged flags items)" "r2 = r1 - length (flagged flags items)"
      "list_all2 (\<lambda>flag (item, item'). if flag then queue_inv item' else item' = item) flags (zip items items2)"
      "length items2 = length items"
      using 1(1) [OF False d [symmetric] refl a e] by auto
    show ?thesis
    proof (cases flag)
      case True
      hence i: "queue_inv item" using 1(2) by simp
      have "queue_list item1 = drop r (queue_list item)" "r1 = r - queue_count item" "queue_inv item1"
        using drain_reported [OF i, of r] d True by simp_all
      thus ?thesis using res ih True by simp
    next
      case F: False
      thus ?thesis using res ih d by simp
    qed
  qed
qed auto

text \<open>C8: One Publish response.  Of the reports that are due, the items in reporting mode first
  and then the sampling items released by a trigger, the response carries as many as the
  subscription allows, from the oldest on, and says whether more are left; after it has
  been sent exactly these reports are gone from the queues and the others are kept in
  order.\<close>

theorem published_reports_drained:
  assumes "list_all (\<lambda>item. mi_in_use item \<longrightarrow> queue_inv item) items"
    and "count_reportable_items items sub = (n, sub')"
  shows "n = (if max_notifications_per_publish sub = 0 then length (due_reports items sub)
              else min (unat (max_notifications_per_publish sub)) (length (due_reports items sub))) \<and>
    more_notifications sub' = (n < length (due_reports items sub)) \<and>
    fst (item_writes (monitored_item_reportable sub) items n) @
      fst (item_writes (monitored_item_reports_by_trigger items sub) items
             (snd (item_writes (monitored_item_reportable sub) items n))) =
      map (\<lambda>(item, e). write_report item e) (take n (due_reports items sub)) \<and>
    flagged (map (monitored_item_reportable sub) items) (clear_reported_items sub n items) @
      flagged (map (monitored_item_reports_by_trigger items sub) items) (clear_reported_items sub n items) =
      map snd (drop n (due_reports items sub))"
proof -
  let ?R = "monitored_item_reportable sub" and ?T = "monitored_item_reports_by_trigger items sub"
  have R: "list_all (\<lambda>item. ?R item \<longrightarrow> queue_inv item) items" and T: "list_all (\<lambda>item. ?T item \<longrightarrow> queue_inv item) items"
    using assms(1) by (auto simp: list_all_iff monitored_item_reportable_def monitored_item_reports_by_trigger_def
        monitored_item_in_subscription_def split: if_splits)
  have RT: "\<not> (?R item \<and> ?T item)" for item
    by (auto simp: monitored_item_reportable_def monitored_item_reports_by_trigger_def split: if_splits)
  obtain items1 r1 where d1: "drain_flagged (map ?R items) items n = (items1, r1)" by fastforce
  obtain items2 r2 where d2: "drain_flagged (map ?T items) items1 r1 = (items2, r2)" by fastforce
  have c: "clear_reported_items sub n items = items2"
    using d1 d2 by (simp add: clear_reported_items_def drain_reportable_flagged)
  have i1: "list_all2 (\<lambda>flag item. flag \<longrightarrow> queue_inv item) (map ?R items) items"
    using R by (auto simp: list_all2_conv_all_nth list_all_length)
  note k1 = drain_flagged_correct [OF i1 d1]
  have same1: "\<And>k. \<lbrakk>k < length items; ?T (items ! k)\<rbrakk> \<Longrightarrow> items1 ! k = items ! k"
    using k1 RT by (auto simp: list_all2_conv_all_nth split: if_splits)
  have i2: "list_all2 (\<lambda>flag item. flag \<longrightarrow> queue_inv item) (map ?T items) items1"
    using T same1 k1 by (auto simp: list_all2_conv_all_nth list_all_length)
  note k2 = drain_flagged_correct [OF i2 d2]
  have same2: "\<And>k. \<lbrakk>k < length items; ?R (items ! k)\<rbrakk> \<Longrightarrow> items2 ! k = items1 ! k"
    using k2 k1 RT by (auto simp: list_all2_conv_all_nth split: if_splits)
  have f1: "flagged (map ?R items) items2 = flagged (map ?R items) items1"
    using same2 k1 k2 by (intro flagged_cong) auto
  have f2: "flagged (map ?T items) items1 = flagged (map ?T items) items"
    using same1 k1 by (intro flagged_cong) auto
  have "flagged (map ?R items) items2 @ flagged (map ?T items) items2 = map snd (drop n (due_reports items sub))"
    using k1 k2 f1 f2 by (simp add: flagged_filter due_reports_def drop_map)
  thus ?thesis
    using assms(2) item_writes_eq [OF R] item_writes_eq [OF T]
    by (auto simp: c count_reportable_items_eq Let_def due_reports_def split: if_splits)
qed

subsection \<open>Wire format\<close>

lemma wthen_assoc: "wthen (wthen a b) c = wthen a (wthen b c)"
  by (auto simp: wthen_def fun_eq_iff split: prod.split)

lemma put_u32_bytes:
  "mu_binary_le_put_u32 v = [ucast (v AND 0xFF), ucast (drop_bit 8 v AND 0xFF), ucast (drop_bit 16 v AND 0xFF),
     ucast (drop_bit 24 v AND 0xFF)]"
  by (simp add: mu_binary_le_put_u32_def)

lemma backpatch_append:
  "backpatch_int32 (xs @ z0 # z1 # z2 # z3 # ys) (length xs) v = xs @ mu_binary_le_put_u32 v @ ys"
  unfolding backpatch_int32_def put_u32_bytes by (simp add: list_update_append numeral_3_eq_3)

lemma backpatch_overwrite:
  assumes "p + length (as @ zs @ bs) \<le> length b" "length zs = 4"
  shows "backpatch_int32 (overwrite b p (as @ zs @ bs)) (p + length as) v = overwrite b p (as @ mu_binary_le_put_u32 v @ bs)"
proof -
  obtain z0 z1 z2 z3 where z: "zs = [z0, z1, z2, z3]"
    using assms(2) by (auto simp: numeral_eq_Suc length_Suc_conv)
  have l: "length (take p b @ as) = p + length as" using assms(1) by simp
  have "overwrite b p (as @ zs @ bs) = (take p b @ as) @ z0 # z1 # z2 # z3 # (bs @ drop (p + length (as @ zs @ bs)) b)"
    by (simp add: overwrite_def z)
  hence "backpatch_int32 (overwrite b p (as @ zs @ bs)) (length (take p b @ as)) v =
      (take p b @ as) @ mu_binary_le_put_u32 v @ (bs @ drop (p + length (as @ zs @ bs)) b)"
    by (simp only: backpatch_append)
  thus ?thesis unfolding l by (simp add: overwrite_def z put_u32_bytes)
qed

lemma wr_emits_counted:
  assumes k: "wr_emits k bs" and l: "length bs \<le> 0x7FFFFFFF"
  shows "wr_emits (counted k) (mu_binary_le_put_u32 (of_nat (length bs)) @ bs)"
  unfolding wr_emits_def
proof (intro allI impI conjI)
  fix w assume ok: "wr_ok w"
  let ?z = "mu_binary_le_put_u32 0"
  have i: "wr_emits (mu_binary_write_int32 0) ?z" by (intro emits_primitives)
  {
    assume room: "length (mu_binary_le_put_u32 (of_nat (length bs)) @ bs) \<le> wr_room w"
    hence r: "4 + length bs \<le> wr_room w" by simp
    have 1: "mu_binary_write_int32 0 w = (MU_STATUS_GOOD, wr_put ?z w)" using i ok r by (simp add: wr_emits_def)
    have ok1: "wr_ok (wr_put ?z w)" using ok r by (intro wr_ok_put) simp_all
    have 2: "k (wr_put ?z w) = (MU_STATUS_GOOD, wr_put bs (wr_put ?z w))"
      using k ok1 r by (simp add: wr_emits_def)
    have p: "wr_put bs (wr_put ?z w) = wr_put (?z @ bs) w" using ok r by (intro wr_put_put) simp_all
    obtain b where b: "wr_buffer w = Some b" "wr_position w + (4 + length bs) \<le> length b"
      using ok r by (auto simp: wr_ok_def wr_wf_def wr_room_def split: option.splits)
    have "backpatch_int32 (overwrite b (wr_position w) (?z @ bs)) (wr_position w) (of_nat (length bs)) =
        overwrite b (wr_position w) (mu_binary_le_put_u32 (of_nat (length bs)) @ bs)"
      using backpatch_overwrite [of "wr_position w" "[]" ?z bs b] b by simp
    thus "counted k w = (MU_STATUS_GOOD, wr_put (mu_binary_le_put_u32 (of_nat (length bs)) @ bs) w)"
      using 1 2 p b l by (simp add: counted_def wthen_def Let_def wr_put_def)
  next
    assume room: "wr_room w < length (mu_binary_le_put_u32 (of_nat (length bs)) @ bs)"
    show "fst (counted k w) \<noteq> MU_STATUS_GOOD"
    proof (cases "wr_room w < 4")
      case True
      hence "fst (mu_binary_write_int32 0 w) \<noteq> MU_STATUS_GOOD" using i ok by (simp add: wr_emits_def)
      thus ?thesis by (auto simp: counted_def wthen_def split: prod.split)
    next
      case False
      have 1: "mu_binary_write_int32 0 w = (MU_STATUS_GOOD, wr_put ?z w)" using i ok False by (simp add: wr_emits_def)
      have ok1: "wr_ok (wr_put ?z w)" using ok False by (intro wr_ok_put) simp_all
      have "fst (k (wr_put ?z w)) \<noteq> MU_STATUS_GOOD" using k ok1 room False by (simp add: wr_emits_def)
      thus ?thesis using 1 by (auto simp: counted_def wthen_def split: prod.split)
    qed
  }
qed

lemma wr_emits_report:
  "valid_variant (qe_value e) \<Longrightarrow> wr_emits (write_report item e) (enc_report (item, e))"
  using c_datavalue.wrt_emits [of "report_datavalue e" "report_datavalue e"]
  unfolding write_report_def enc_report_def prod.case
  by (intro emits_then_primitives) (simp add: valid_datavalue_def report_datavalue_def)

lemma valid_ns0 [simp]: "valid_nodeid (ns0 i)"
  by (simp add: ns0_def valid_nodeid_def)

lemma write_data_change_counted:
  assumes "list_all (\<lambda>item. mi_in_use item \<longrightarrow> queue_inv item) items" "n \<le> length (due_reports items sub)"
  shows "write_data_change_notification items sub n =
    wthen (mu_binary_write_nodeid (ns0 MU_ID_DATACHANGENOTIFICATION_ENCODING_DEFAULTBINARY))
     (wthen (mu_binary_write_byte 1) (counted
       (wthen (mu_binary_write_int32 (of_nat n))
       (wthen (wseq (map (\<lambda>(item, e). write_report item e) (take n (due_reports items sub))))
              (mu_binary_write_int32 0)))))"
proof -
  let ?R = "monitored_item_reportable sub" and ?T = "monitored_item_reports_by_trigger items sub"
  have R: "list_all (\<lambda>item. ?R item \<longrightarrow> queue_inv item) items" and T: "list_all (\<lambda>item. ?T item \<longrightarrow> queue_inv item) items"
    using assms(1) by (auto simp: list_all_iff monitored_item_reportable_def monitored_item_reports_by_trigger_def
        monitored_item_in_subscription_def split: if_splits)
  have "fst (item_writes ?R items n) @ fst (if snd (item_writes ?R items n) = 0 then ([], 0)
      else item_writes ?T items (snd (item_writes ?R items n))) =
      map (\<lambda>(item, e). write_report item e) (take n (due_reports items sub))"
    by (simp add: item_writes_eq [OF R] item_writes_eq [OF T] due_reports_def)
  thus ?thesis
    by (simp add: write_data_change_notification_def counted_def [abs_def] Let_def split_beta wthen_assoc)
qed

lemma wr_emits_data_change:
  assumes "list_all (\<lambda>item. mi_in_use item \<longrightarrow> queue_inv item) items" "n \<le> length (due_reports items sub)"
    and "list_all (\<lambda>(item, e). valid_variant (qe_value e)) (take n (due_reports items sub))"
    and "length (data_change_body (take n (due_reports items sub))) \<le> 0x7FFFFFFF"
  shows "wr_emits (write_data_change_notification items sub n) (enc_data_change (take n (due_reports items sub)))"
proof -
  let ?rs = "take n (due_reports items sub)"
  have l: "length ?rs = n" using assms(2) by simp
  have s: "wr_emits (wseq (map (\<lambda>(item, e). write_report item e) ?rs)) (concat (map enc_report ?rs))"
    using assms(3) by (intro wr_emits_wseq) (auto simp: list_all_iff intro!: wr_emits_report)
  have "wr_emits (wthen (mu_binary_write_int32 (of_nat n)) (wthen (wseq (map (\<lambda>(item, e). write_report item e) ?rs))
      (mu_binary_write_int32 0))) (data_change_body ?rs)"
    unfolding data_change_body_def l
    by (intro emits_then_primitives wr_emits_wthen [OF s emits_primitives(6) refl])
  hence c: "wr_emits (counted (wthen (mu_binary_write_int32 (of_nat n)) (wthen (wseq (map (\<lambda>(item, e). write_report item e) ?rs))
      (mu_binary_write_int32 0)))) (mu_binary_le_put_u32 (of_nat (length (data_change_body ?rs))) @ data_change_body ?rs)"
    using assms(4) by (rule wr_emits_counted)
  show ?thesis
    unfolding write_data_change_counted [OF assms(1,2)] enc_data_change_def
    by (intro wr_emits_wthen [OF wr_emits_nodeid emits_then_primitives(3) refl] valid_ns0 c)
qed

subsection \<open>Events\<close>

lemma event_writes_ring:
  "idx < MU_MAX_EVENT_QUEUE_SIZE \<Longrightarrow>
   event_writes item q k idx = map (write_event item) (ring (eq_queue q) idx k MU_MAX_EVENT_QUEUE_SIZE)"
proof (induction k arbitrary: idx)
  case (Suc k)
  have "(idx + 1) mod MU_MAX_EVENT_QUEUE_SIZE < MU_MAX_EVENT_QUEUE_SIZE" using Suc(2) by simp
  thus ?case using Suc by (simp add: ring_Cons ring_mod)
qed (simp add: ring_def)

lemma wr_emits_event:
  "list_all valid_variant (event_fields item ev) \<Longrightarrow> wr_emits (write_event item ev) (enc_event (item, ev))"
  unfolding write_event_def enc_event_def prod.case event_fields_def map_map
  by (intro emits_then_primitives wr_emits_wseq) (auto simp: list_all_iff comp_def intro!: c_variant.wrt_emits)

lemma length_pairs: "length (concat (map (\<lambda>x. map (Pair x) es) xs)) = length xs * length es"
  by (induction xs) auto

lemma length_due_events:
  "length (due_events items sub) = length (filter (event_item sub) items) * eq_count (event_queue sub)"
  by (simp add: due_events_def length_pairs)

lemma wr_emits_events:
  assumes q: "event_inv (event_queue sub)"
    and v: "list_all (\<lambda>(item, ev). list_all valid_variant (event_fields item ev)) (due_events items sub)"
    and l: "length (event_body (due_events items sub)) \<le> 1024"
  shows "wr_emits (write_event_notification_list items sub) (enc_events items sub)"
proof (cases "filter (event_item sub) items = []")
  case True
  thus ?thesis
    using c_extension_object_header.wrt_emits [of "(ns0 914, 0)"]
    by (simp add: write_event_notification_list_def [abs_def] Let_def enc_events_def valid_extension_object_header_def)
next
  case False
  let ?es = "due_events items sub" and ?w = "mu_binary_writer_init (Some (replicate 1024 0)) 1024"
  let ?m = "wthen (mu_binary_write_int32 (of_nat (length (filter (event_item sub) items) * eq_count (event_queue sub))))
     (wseq (concat (map (\<lambda>item. event_writes item (event_queue sub) (eq_count (event_queue sub)) (eq_head (event_queue sub)))
        (filter (event_item sub) items))))"
  have h: "eq_head (event_queue sub) < MU_MAX_EVENT_QUEUE_SIZE" using q by (simp add: event_inv_def)
  have e: "concat (map (\<lambda>item. event_writes item (event_queue sub) (eq_count (event_queue sub)) (eq_head (event_queue sub)))
        (filter (event_item sub) items)) = map (\<lambda>(item, ev). write_event item ev) ?es"
    by (simp add: event_writes_ring [OF h] due_events_def map_concat comp_def event_list_def)
  have m: "wr_emits ?m (event_body ?es)"
    unfolding e event_body_def length_due_events
    using v by (intro emits_then_primitives wr_emits_wseq) (auto simp: list_all_iff intro!: wr_emits_event)
  have ok: "wr_ok ?w" by (simp add: wr_ok_def wr_wf_def mu_binary_writer_init_def)
  define sw where "sw = wr_put (event_body ?es) ?w"
  have r: "?m ?w = (MU_STATUS_GOOD, sw)"
    unfolding sw_def using m ok l by (simp add: wr_emits_def wr_room_def mu_binary_writer_init_def)
  have p: "wr_position sw = length (event_body ?es)" by (simp add: sw_def mu_binary_writer_init_def)
  have t: "take (length (event_body ?es)) (the (wr_buffer sw)) = event_body ?es"
    by (simp add: sw_def mu_binary_writer_init_def overwrite_def wr_put_def)
  have x: "wr_emits (mu_binary_write_extension_object_header (ns0 914) (length (event_body ?es)))
      (enc_extension_object_header (ns0 914, length (event_body ?es)))"
    using c_extension_object_header.wrt_emits [of "(ns0 914, length (event_body ?es))"] l
    by (simp add: valid_extension_object_header_def)
  have k: "wr_emits (\<lambda>w. if wr_length w < wr_position w + length (event_body ?es) then (MU_STATUS_BAD_OUTOFMEMORY, w)
      else (MU_STATUS_GOOD, wr_put (event_body ?es) w)) (event_body ?es)"
    by (auto simp: wr_emits_def wr_room_def wr_ok_def wr_wf_def)
  have "write_event_notification_list items sub =
      wthen (mu_binary_write_extension_object_header (ns0 914) (length (event_body ?es)))
        (\<lambda>w. if wr_length w < wr_position w + length (event_body ?es) then (MU_STATUS_BAD_OUTOFMEMORY, w)
             else (MU_STATUS_GOOD, wr_put (event_body ?es) w))"
    using False r by (simp add: write_event_notification_list_def [abs_def] Let_def p t cong: if_cong)
  thus ?thesis using False wr_emits_wthen [OF x k refl] by (simp add: enc_events_def)
qed

subsection \<open>The whole response\<close>

lemma wr_emits_publish_head: "wr_emits (publish_head sub request include_data) (enc_publish_head sub request include_data)"
proof -
  have "wr_emits (write_publish_response_prefix (pr_request_handle request))
     (enc_nodeid (ns0 MU_ID_PUBLISHRESPONSE) @
      enc_response_header \<lparr>resp_timestamp = 0, resp_request_handle = pr_request_handle request, service_result = MU_STATUS_GOOD\<rparr>)"
    unfolding write_publish_response_prefix_def
    by (intro wr_emits_wthen [OF wr_emits_nodeid wr_emits_response_header refl] valid_ns0)
  moreover have "wr_emits (wthen (mu_binary_write_uint32 (subscription_id sub))
     (wthen (mu_binary_write_int32 0) (mu_binary_write_boolean (include_data \<and> more_notifications sub))))
     (mu_binary_le_put_u32 (subscription_id sub) @ mu_binary_le_put_u32 0 @ enc_bool (include_data \<and> more_notifications sub))"
    by (intro emits_then_primitives emits_primitives)
  ultimately show ?thesis unfolding publish_head_def by (rule wr_emits_wthen) (simp add: enc_publish_head_def)
qed

lemma wr_emits_if: "(c \<Longrightarrow> wr_emits m bs) \<Longrightarrow> wr_emits (if c then m else wreturn MU_STATUS_GOOD) (if c then bs else [])"
  by (simp add: wr_emits_return)

lemma wr_emits_publish_message:
  "publishable items sub n \<Longrightarrow>
   wr_emits (publish_message items sub seq include_data n t) (enc_publish_message items sub seq include_data n t)"
  unfolding publish_message_def enc_publish_message_def Let_def publishable_def
  by (intro emits_then_primitives wr_emits_wthen [OF wr_emits_if wr_emits_if refl]) (simp_all add: wr_emits_data_change wr_emits_events)

lemma wr_emits_publish_tail: "wr_emits (publish_tail request) (enc_publish_tail request)"
proof -
  let ?acks = "min MU_MAX_PUBLISH_ACKS (unat (ack_count request))"
  have s: "wr_emits (wseq (map mu_binary_write_statuscode (take ?acks (ack_results request))))
      (concat (map mu_binary_le_put_u32 (take ?acks (ack_results request))))"
    by (intro wr_emits_wseq emits_primitives)
  have "publish_tail request = wthen (mu_binary_write_int32 (of_nat ?acks))
     (wthen (wseq (map mu_binary_write_statuscode (take ?acks (ack_results request)))) (mu_binary_write_int32 0))"
    by (simp add: publish_tail_def Let_def min_def)
  thus ?thesis unfolding enc_publish_tail_def Let_def
    by (simp only:) (intro emits_then_primitives wr_emits_wthen [OF s emits_primitives(6) refl])
qed

lemma emits_good:
  "\<lbrakk>wr_emits m bs; wr_ok w; m w = (MU_STATUS_GOOD, w')\<rbrakk> \<Longrightarrow> length bs \<le> wr_room w \<and> w' = wr_put bs w"
  unfolding wr_emits_def by (cases "length bs \<le> wr_room w") (auto simp: not_le)

text \<open>The Publish response.  When it fits the buffer it is the response header, the
  notification message and the acknowledgement results, written from the start of the
  buffer, and the reported span is that of the notification message; when it does not fit
  the call fails.\<close>

lemma publish_response_layout:
  assumes "publishable items sub n"
  shows "let head = enc_publish_head sub request include_data;
             message = enc_publish_message items sub seq include_data n t;
             response = head @ message @ enc_publish_tail request;
             (result, buffer') = build_publish_response items sub request seq include_data n t buffer in
    if length response \<le> length buffer
    then result = Inr (length response, length head, length (head @ message)) \<and> buffer' = overwrite buffer 0 response
    else \<exists>s. result = Inl s \<and> s \<noteq> MU_STATUS_GOOD"
proof -
  let ?H = "enc_publish_head sub request include_data" and ?M = "enc_publish_message items sub seq include_data n t"
    and ?T = "enc_publish_tail request" and ?w = "mu_binary_writer_init (Some buffer) (length buffer)"
  have ok: "wr_ok ?w" by (simp add: wr_ok_def wr_wf_def mu_binary_writer_init_def)
  have r: "wr_room ?w = length buffer" by (simp add: wr_room_def mu_binary_writer_init_def)
  note e = wr_emits_publish_head [of sub request include_data] wr_emits_publish_message [OF assms, of seq include_data t]
    wr_emits_publish_tail [of request]
  show ?thesis
  proof (cases "length (?H @ ?M @ ?T) \<le> length buffer")
    case True
    have h: "publish_head sub request include_data ?w = (MU_STATUS_GOOD, wr_put ?H ?w)"
      using e(1) ok r True by (simp add: wr_emits_def)
    have ok1: "wr_ok (wr_put ?H ?w)" using ok r True by (intro wr_ok_put) simp_all
    have m: "publish_message items sub seq include_data n t (wr_put ?H ?w) = (MU_STATUS_GOOD, wr_put ?M (wr_put ?H ?w))"
      using e(2) ok1 r True by (simp add: wr_emits_def)
    have p: "wr_put ?M (wr_put ?H ?w) = wr_put (?H @ ?M) ?w" using ok r True by (intro wr_put_put) simp_all
    have ok2: "wr_ok (wr_put (?H @ ?M) ?w)" using ok r True by (intro wr_ok_put) simp_all
    have t: "publish_tail request (wr_put (?H @ ?M) ?w) = (MU_STATUS_GOOD, wr_put ?T (wr_put (?H @ ?M) ?w))"
      using e(3) ok2 r True by (simp add: wr_emits_def)
    have q: "wr_put ?T (wr_put (?H @ ?M) ?w) = wr_put ((?H @ ?M) @ ?T) ?w" using ok r True by (intro wr_put_put) simp_all
    show ?thesis using True h m [unfolded p] t [unfolded q]
      by (simp add: build_publish_response_def Let_def) (simp add: mu_binary_writer_init_def wr_put_def)
  next
    case False
    obtain s w where b: "publish_head sub request include_data ?w = (s, w)" by fastforce
    show ?thesis
    proof (cases "s = MU_STATUS_GOOD")
      case True
      hence hl: "length ?H \<le> length buffer" and w: "w = wr_put ?H ?w" using b emits_good [OF e(1) ok] r by auto
      have ok1: "wr_ok (wr_put ?H ?w)" using ok r hl by (intro wr_ok_put) simp_all
      obtain s2 w2 where m: "publish_message items sub seq include_data n t w = (s2, w2)" by fastforce
      show ?thesis
      proof (cases "s2 = MU_STATUS_GOOD")
        case g: True
        hence ml: "length ?M \<le> length buffer - length ?H" and w2: "w2 = wr_put ?M (wr_put ?H ?w)"
          using m emits_good [OF e(2) ok1] r w by auto
        have ok2: "wr_ok w2" unfolding w2 using r ml by (intro wr_ok_put [OF ok1]) simp
        have "wr_room w2 < length ?T" unfolding w2 using r False ml hl by simp
        hence "fst (publish_tail request w2) \<noteq> MU_STATUS_GOOD" using e(3) ok2 by (simp add: wr_emits_def)
        thus ?thesis using False b True m g by (auto simp: build_publish_response_def Let_def split: prod.split)
      qed (use False b True m in \<open>simp add: build_publish_response_def Let_def\<close>)
    qed (use False b in \<open>simp add: build_publish_response_def Let_def\<close>)
  qed
qed

subsection \<open>Examples\<close>

lemma example_sub_max: "max_notifications_per_publish example_sub = 0"
  by (simp add: example_sub_def zero_subscription_def)

lemma example_due:
  "queue_inv (hd example_reporting)"
  "due_reports example_reporting example_sub =
     [(hd example_reporting, \<lparr>qe_value = VScalar (V_Byte 7), qe_status = MU_STATUS_GOOD\<rparr>)]"
proof -
  let ?item = "example_item\<lparr>mi_subscription_id := 1, monitored_item_id := 4, client_handle := 9\<rparr>"
  have i: "queue_inv ?item" using example_item_inv by (simp add: queue_inv_def)
  have q: "queue_list (hd example_reporting) = [\<lparr>qe_value = VScalar (V_Byte 7), qe_status = MU_STATUS_GOOD\<rparr>]"
    using enqueue_report_list [OF i, of example_fp "VScalar (V_Byte 7)" MU_STATUS_GOOD]
    by (simp add: example_reporting_def bounded_enqueue_def queue_list_def ring_def example_item_def zero_item_def)
  show "queue_inv (hd example_reporting)" using enqueue_report_inv [OF i] by (simp add: example_reporting_def)
  have r: "monitored_item_reportable example_sub (hd example_reporting)" "\<not> monitored_item_reports_by_trigger example_reporting example_sub (hd example_reporting)"
    by code_simp+
  have e: "example_reporting = [hd example_reporting]" by (simp add: example_reporting_def)
  show "due_reports example_reporting example_sub = [(hd example_reporting, \<lparr>qe_value = VScalar (V_Byte 7), qe_status = MU_STATUS_GOOD\<rparr>)]"
    unfolding due_reports_def using r q by (subst e, subst (3) e) simp
qed

lemma example_publishable: "publishable example_reporting example_sub 1"
proof -
  have e: "list_all (\<lambda>item. mi_in_use item \<longrightarrow> queue_inv item) example_reporting"
    using example_due(1) by (simp add: example_reporting_def)
  have d: "due_events example_reporting example_sub = []"
    by (simp add: due_events_def example_reporting_def event_item_def example_item_def zero_item_def)
  have q: "event_inv (event_queue example_sub)"
    using zero_event_queue_inv by (simp add: example_sub_def zero_subscription_def)
  show ?thesis unfolding publishable_def d example_due(2) using e q
    by (simp add: data_change_body_def event_body_def enc_report_def enc_datavalue_def report_datavalue_def)
qed

theorem published_reports_drained_witness:
  "fst (count_reportable_items example_reporting example_sub) = 1 \<and>
   flagged (map (monitored_item_reportable example_sub) example_reporting) (clear_reported_items example_sub 1 example_reporting) @
   flagged (map (monitored_item_reports_by_trigger example_reporting example_sub) example_reporting)
     (clear_reported_items example_sub 1 example_reporting) = []"
proof -
  have e: "list_all (\<lambda>item. mi_in_use item \<longrightarrow> queue_inv item) example_reporting"
    using example_publishable by (simp add: publishable_def)
  have c: "count_reportable_items example_reporting example_sub = (1, example_sub\<lparr>more_notifications := False\<rparr>)"
    using example_sub_max by (simp add: count_reportable_items_eq Let_def example_due(2))
  show ?thesis
    using published_reports_drained [OF e c, THEN conjunct2, THEN conjunct2, THEN conjunct2]
    unfolding c example_due(2) by (simp only: fst_conv One_nat_def drop_Suc_Cons drop_0 list.map simp_thms)
qed

end
