(* ===== verification/Dynamic_Space.thy ===== *)
theory Dynamic_Space
  imports Address_Space "HOL-Library.Multiset"
begin

text \<open>
  The storage of nodes and references that clients add at run time
  (\<^verbatim>\<open>mu_dynamic_address_space_t\<close> of \<^verbatim>\<open>src/core/server_internal.h\<close> and the
  \<^verbatim>\<open>mu_dynamic_*\<close> functions of \<^verbatim>\<open>src/services/node_management.c\<close>).  The entries live in
  fixed arrays; the bytes of their strings are copied into one storage row per array slot and
  kind of string.  A string in a slot is a length and a pointer to a row, \<^term>\<open>Some k\<close> for
  row \<open>k\<close>; what it means is the bytes the pointer leads to.  An entry is deleted by moving the last one
  into its slot.

  The arrays implement two lists of entries by value: this is the interface \<open>slot_table\<close>,
  interpreted for the nodes and for the references.
\<close>

section \<open>State\<close>

definition MU_MAX_DYNAMIC_NODES :: nat where "MU_MAX_DYNAMIC_NODES = 32"
definition MU_MAX_DYNAMIC_REFERENCES :: nat where "MU_MAX_DYNAMIC_REFERENCES = 64"
definition MU_MAX_DYNAMIC_BROWSE_NAME_LENGTH :: nat where "MU_MAX_DYNAMIC_BROWSE_NAME_LENGTH = 64"
definition MU_MAX_DYNAMIC_DISPLAY_NAME_LENGTH :: nat where "MU_MAX_DYNAMIC_DISPLAY_NAME_LENGTH = 64"
definition MU_MAX_DYNAMIC_STRING_NODEID_LENGTH :: nat where "MU_MAX_DYNAMIC_STRING_NODEID_LENGTH = 64"
definition MU_MAX_DYNAMIC_REFERENCE_STRING_NODEID_LENGTH :: nat where
  "MU_MAX_DYNAMIC_REFERENCE_STRING_NODEID_LENGTH = MU_MAX_DYNAMIC_STRING_NODEID_LENGTH"

type_synonym storage = "byte list list"

record slot_string =
  sl_length :: u32
  sl_pointer :: "nat option"

datatype slot_identifier = SlotNumeric u32 | SlotString slot_string | SlotGuid | SlotOpaque

record slot_nodeid =
  sl_namespace :: u16
  sl_identifier :: slot_identifier

record slot_node =
  sn_node_id :: slot_nodeid
  sn_node_class :: u32
  sn_browse_name :: slot_string
  sn_display_name :: slot_string

record mu_dynamic_reference =
  dr_source :: slot_nodeid
  dr_type :: slot_nodeid
  dr_target :: slot_nodeid
  dr_forward :: bool

record mu_dynamic_address_space =
  dyn_nodes :: "slot_node list"
  browse_name_storage :: storage
  display_name_storage :: storage
  string_nodeid_storage :: storage
  nodes_count :: nat
  dyn_references :: "mu_dynamic_reference list"
  reference_source_storage :: storage
  reference_type_storage :: storage
  reference_target_storage :: storage
  references_count :: nat

text \<open>\<^verbatim>\<open>memset\<close> of the whole struct.\<close>

definition zero_slot_string :: slot_string where
  "zero_slot_string = \<lparr>sl_length = 0, sl_pointer = None\<rparr>"

definition zero_slot_nodeid :: slot_nodeid where
  "zero_slot_nodeid = \<lparr>sl_namespace = 0, sl_identifier = SlotNumeric 0\<rparr>"

definition zero_dynamic_space :: mu_dynamic_address_space where
  "zero_dynamic_space =
    (let row = replicate 64 0 in
     \<lparr>dyn_nodes = replicate MU_MAX_DYNAMIC_NODES \<lparr>sn_node_id = zero_slot_nodeid, sn_node_class = 0,
        sn_browse_name = zero_slot_string, sn_display_name = zero_slot_string\<rparr>,
      browse_name_storage = replicate MU_MAX_DYNAMIC_NODES row, display_name_storage = replicate MU_MAX_DYNAMIC_NODES row,
      string_nodeid_storage = replicate MU_MAX_DYNAMIC_NODES row, nodes_count = 0,
      dyn_references = replicate MU_MAX_DYNAMIC_REFERENCES \<lparr>dr_source = zero_slot_nodeid, dr_type = zero_slot_nodeid,
        dr_target = zero_slot_nodeid, dr_forward = False\<rparr>,
      reference_source_storage = replicate MU_MAX_DYNAMIC_REFERENCES row,
      reference_type_storage = replicate MU_MAX_DYNAMIC_REFERENCES row,
      reference_target_storage = replicate MU_MAX_DYNAMIC_REFERENCES row, references_count = 0\<rparr>)"

section \<open>Following the pointers\<close>

definition load_string :: "storage \<Rightarrow> slot_string \<Rightarrow> mu_string" where
  "load_string store s =
     \<lparr>str_length = sl_length s, str_data = map_option (\<lambda>k. take (nat (sint (sl_length s))) (store ! k)) (sl_pointer s)\<rparr>"

definition load_nodeid :: "storage \<Rightarrow> slot_nodeid \<Rightarrow> mu_nodeid" where
  "load_nodeid store n =
     \<lparr>namespace_index = sl_namespace n, nid_identifier = (case sl_identifier n of
        SlotNumeric i \<Rightarrow> NumericId i | SlotString s \<Rightarrow> StringId (load_string store s)
      | SlotGuid \<Rightarrow> GuidId | SlotOpaque \<Rightarrow> OpaqueId)\<rparr>"

section \<open>Copying\<close>

definition mu_dynamic_string_fits :: "mu_string \<Rightarrow> nat \<Rightarrow> bool" where
  "mu_dynamic_string_fits name max_length \<longleftrightarrow>
     str_length name = -1 \<or> 0 \<le> sint (str_length name) \<and> nat (sint (str_length name)) \<le> max_length"

definition mu_dynamic_string_copy :: "nat \<Rightarrow> mu_string \<Rightarrow> storage \<Rightarrow> slot_string \<times> storage" where
  "mu_dynamic_string_copy k source store =
    (if str_length source = -1 then (\<lparr>sl_length = -1, sl_pointer = None\<rparr>, store)
     else (\<lparr>sl_length = str_length source, sl_pointer = Some k\<rparr>,
           if 0 < sint (str_length source)
           then store[k := overwrite (store ! k) 0 (take (nat (sint (str_length source))) (the (str_data source)))]
           else store))"

definition nodeid_string_fits :: "mu_nodeid \<Rightarrow> nat \<Rightarrow> bool" where
  "nodeid_string_fits nid max_length =
    (case nid_identifier nid of StringId s \<Rightarrow> mu_dynamic_string_fits s max_length | _ \<Rightarrow> True)"

definition mu_dynamic_string_nodeid_fits :: "mu_nodeid \<Rightarrow> bool" where
  "mu_dynamic_string_nodeid_fits nid = nodeid_string_fits nid MU_MAX_DYNAMIC_STRING_NODEID_LENGTH"

definition mu_dynamic_reference_string_nodeid_fits :: "mu_nodeid \<Rightarrow> bool" where
  "mu_dynamic_reference_string_nodeid_fits nid = nodeid_string_fits nid MU_MAX_DYNAMIC_REFERENCE_STRING_NODEID_LENGTH"

definition mu_dynamic_nodeid_copy :: "nat \<Rightarrow> mu_nodeid \<Rightarrow> storage \<Rightarrow> slot_nodeid \<times> storage" where
  "mu_dynamic_nodeid_copy k source store =
    (case nid_identifier source of
       StringId s \<Rightarrow> (case mu_dynamic_string_copy k s store of (t, store) \<Rightarrow>
         (\<lparr>sl_namespace = namespace_index source, sl_identifier = SlotString t\<rparr>, store))
     | NumericId i \<Rightarrow> (\<lparr>sl_namespace = namespace_index source, sl_identifier = SlotNumeric i\<rparr>, store)
     | GuidId \<Rightarrow> (\<lparr>sl_namespace = namespace_index source, sl_identifier = SlotGuid\<rparr>, store)
     | OpaqueId \<Rightarrow> (\<lparr>sl_namespace = namespace_index source, sl_identifier = SlotOpaque\<rparr>, store))"

section \<open>Nodes\<close>

text \<open>The part of \<^verbatim>\<open>mu_add_nodes_process\<close> that fills the next free slot.\<close>

definition dynamic_add_node :: "mu_nodeid \<Rightarrow> u32 \<Rightarrow> mu_string \<Rightarrow> mu_string \<Rightarrow> mu_dynamic_address_space \<Rightarrow> mu_dynamic_address_space" where
  "dynamic_add_node new_id cls browse display space =
    (let idx = nodes_count space;
         (nid, ids) = mu_dynamic_nodeid_copy idx new_id (string_nodeid_storage space);
         (b, bs) = mu_dynamic_string_copy idx browse (browse_name_storage space);
         (d, ds) = mu_dynamic_string_copy idx display (display_name_storage space) in
     space\<lparr>nodes_count := idx + 1,
       dyn_nodes := (dyn_nodes space)[idx := \<lparr>sn_node_id = nid, sn_node_class = cls, sn_browse_name = b, sn_display_name = d\<rparr>],
       string_nodeid_storage := ids, browse_name_storage := bs, display_name_storage := ds\<rparr>)"

text \<open>The string part of \<^verbatim>\<open>mu_dynamic_node_move\<close>: the bytes go from row to row and the pointer
  is redirected.\<close>

definition move_string :: "nat \<Rightarrow> nat \<Rightarrow> slot_string \<Rightarrow> storage \<Rightarrow> slot_string \<times> storage" where
  "move_string dest source s store =
    (if sl_length s = -1 then (s\<lparr>sl_pointer := None\<rparr>, store)
     else (s\<lparr>sl_pointer := Some dest\<rparr>,
           if 0 < sint (sl_length s)
           then store[dest := overwrite (store ! dest) 0 (take (nat (sint (sl_length s))) (store ! source))]
           else store))"

definition mu_dynamic_node_move :: "nat \<Rightarrow> nat \<Rightarrow> mu_dynamic_address_space \<Rightarrow> mu_dynamic_address_space" where
  "mu_dynamic_node_move dest source space =
    (let moved = dyn_nodes space ! source;
         (nid, ids) = (case sl_identifier (sn_node_id moved) of
             SlotString s \<Rightarrow> (case move_string dest source s (string_nodeid_storage space) of (t, store) \<Rightarrow>
               ((sn_node_id moved)\<lparr>sl_identifier := SlotString t\<rparr>, store))
           | _ \<Rightarrow> (sn_node_id moved, string_nodeid_storage space));
         (b, bs) = move_string dest source (sn_browse_name moved) (browse_name_storage space);
         (d, ds) = move_string dest source (sn_display_name moved) (display_name_storage space) in
     space\<lparr>dyn_nodes := (dyn_nodes space)[dest := moved\<lparr>sn_node_id := nid, sn_browse_name := b, sn_display_name := d\<rparr>],
       string_nodeid_storage := ids, browse_name_storage := bs, display_name_storage := ds\<rparr>)"

definition dynamic_remove_node :: "nat \<Rightarrow> mu_dynamic_address_space \<Rightarrow> mu_dynamic_address_space" where
  "dynamic_remove_node j space =
    (let last = nodes_count space - 1; space = space\<lparr>nodes_count := last\<rparr> in
     if j \<noteq> last then mu_dynamic_node_move j last space else space)"

section \<open>References\<close>

definition mu_dynamic_reference_copy ::
    "nat \<Rightarrow> mu_nodeid \<Rightarrow> mu_nodeid \<Rightarrow> bool \<Rightarrow> mu_nodeid \<Rightarrow> mu_dynamic_address_space \<Rightarrow> mu_dynamic_address_space" where
  "mu_dynamic_reference_copy idx source typ forward target space =
    (let (s, ss) = mu_dynamic_nodeid_copy idx source (reference_source_storage space);
         (t, ts) = mu_dynamic_nodeid_copy idx typ (reference_type_storage space);
         (g, gs) = mu_dynamic_nodeid_copy idx target (reference_target_storage space) in
     space\<lparr>dyn_references := (dyn_references space)[idx := \<lparr>dr_source = s, dr_type = t, dr_target = g, dr_forward = forward\<rparr>],
       reference_source_storage := ss, reference_type_storage := ts, reference_target_storage := gs\<rparr>)"

definition dynamic_add_reference ::
    "mu_nodeid \<Rightarrow> mu_nodeid \<Rightarrow> bool \<Rightarrow> mu_nodeid \<Rightarrow> mu_dynamic_address_space \<Rightarrow> mu_dynamic_address_space" where
  "dynamic_add_reference source typ forward target space =
    (let idx = references_count space in
     mu_dynamic_reference_copy idx source typ forward target (space\<lparr>references_count := idx + 1\<rparr>))"

definition mu_dynamic_reference_move :: "nat \<Rightarrow> nat \<Rightarrow> mu_dynamic_address_space \<Rightarrow> mu_dynamic_address_space" where
  "mu_dynamic_reference_move dest source space =
    (let moved = dyn_references space ! source in
     mu_dynamic_reference_copy dest (load_nodeid (reference_source_storage space) (dr_source moved))
       (load_nodeid (reference_type_storage space) (dr_type moved)) (dr_forward moved)
       (load_nodeid (reference_target_storage space) (dr_target moved)) space)"

definition dynamic_remove_reference :: "nat \<Rightarrow> mu_dynamic_address_space \<Rightarrow> mu_dynamic_address_space" where
  "dynamic_remove_reference j space =
    (let last = references_count space - 1; space = space\<lparr>references_count := last\<rparr> in
     if j \<noteq> last then mu_dynamic_reference_move j last space else space)"

section \<open>The entries by value\<close>

record dyn_node =
  dn_id :: mu_nodeid
  dn_class :: u32
  dn_browse :: mu_string
  dn_display :: mu_string

record dyn_reference =
  de_source :: mu_nodeid
  de_ref :: mu_reference

definition load_node :: "mu_dynamic_address_space \<Rightarrow> slot_node \<Rightarrow> dyn_node" where
  "load_node space n = \<lparr>dn_id = load_nodeid (string_nodeid_storage space) (sn_node_id n), dn_class = sn_node_class n,
     dn_browse = load_string (browse_name_storage space) (sn_browse_name n),
     dn_display = load_string (display_name_storage space) (sn_display_name n)\<rparr>"

definition load_reference :: "mu_dynamic_address_space \<Rightarrow> mu_dynamic_reference \<Rightarrow> dyn_reference" where
  "load_reference space r = \<lparr>de_source = load_nodeid (reference_source_storage space) (dr_source r),
     de_ref = \<lparr>reference_type_id = load_nodeid (reference_type_storage space) (dr_type r),
       target_id = load_nodeid (reference_target_storage space) (dr_target r), is_forward = dr_forward r\<rparr>\<rparr>"

definition node_entries :: "mu_dynamic_address_space \<Rightarrow> dyn_node list" where
  "node_entries space = map (load_node space) (take (nodes_count space) (dyn_nodes space))"

definition reference_entries :: "mu_dynamic_address_space \<Rightarrow> dyn_reference list" where
  "reference_entries space = map (load_reference space) (take (references_count space) (dyn_references space))"

text \<open>The abstract counterpart of moving the last entry into a slot.\<close>

definition swap_remove :: "nat \<Rightarrow> 'a list \<Rightarrow> 'a list" where
  "swap_remove j xs = butlast (xs[j := last xs])"

section \<open>The invariant\<close>

text \<open>A string in slot \<open>k\<close> is null or points to its own row.\<close>

definition string_in :: "nat \<Rightarrow> slot_string \<Rightarrow> bool" where
  "string_in k s \<longleftrightarrow> sl_length s = -1 \<and> sl_pointer s = None \<or>
     0 \<le> sint (sl_length s) \<and> sint (sl_length s) \<le> 64 \<and> sl_pointer s = Some k"

definition nodeid_in :: "nat \<Rightarrow> slot_nodeid \<Rightarrow> bool" where
  "nodeid_in k n = (case sl_identifier n of SlotNumeric _ \<Rightarrow> True | SlotString s \<Rightarrow> string_in k s | _ \<Rightarrow> False)"

definition storage_ok :: "nat \<Rightarrow> storage \<Rightarrow> bool" where
  "storage_ok n store \<longleftrightarrow> length store = n \<and> list_all (\<lambda>row. length row = 64) store"

definition dyn_inv :: "mu_dynamic_address_space \<Rightarrow> bool" where
  "dyn_inv space \<longleftrightarrow> length (dyn_nodes space) = MU_MAX_DYNAMIC_NODES \<and> nodes_count space \<le> MU_MAX_DYNAMIC_NODES \<and>
     storage_ok MU_MAX_DYNAMIC_NODES (browse_name_storage space) \<and> storage_ok MU_MAX_DYNAMIC_NODES (display_name_storage space) \<and>
     storage_ok MU_MAX_DYNAMIC_NODES (string_nodeid_storage space) \<and>
     (\<forall>k < nodes_count space. nodeid_in k (sn_node_id (dyn_nodes space ! k)) \<and> string_in k (sn_browse_name (dyn_nodes space ! k)) \<and>
        string_in k (sn_display_name (dyn_nodes space ! k))) \<and>
     length (dyn_references space) = MU_MAX_DYNAMIC_REFERENCES \<and> references_count space \<le> MU_MAX_DYNAMIC_REFERENCES \<and>
     storage_ok MU_MAX_DYNAMIC_REFERENCES (reference_source_storage space) \<and>
     storage_ok MU_MAX_DYNAMIC_REFERENCES (reference_type_storage space) \<and>
     storage_ok MU_MAX_DYNAMIC_REFERENCES (reference_target_storage space) \<and>
     (\<forall>k < references_count space. nodeid_in k (dr_source (dyn_references space ! k)) \<and>
        nodeid_in k (dr_type (dyn_references space ! k)) \<and> nodeid_in k (dr_target (dyn_references space ! k)))"

text \<open>What adding and moving have in common: an entry by value is stored in slot \<open>k\<close>.\<close>

definition put_node :: "nat \<Rightarrow> dyn_node \<Rightarrow> mu_dynamic_address_space \<Rightarrow> mu_dynamic_address_space" where
  "put_node k x space =
    (case mu_dynamic_nodeid_copy k (dn_id x) (string_nodeid_storage space) of (nid, ids) \<Rightarrow>
     case mu_dynamic_string_copy k (dn_browse x) (browse_name_storage space) of (b, bs) \<Rightarrow>
     case mu_dynamic_string_copy k (dn_display x) (display_name_storage space) of (d, ds) \<Rightarrow>
     space\<lparr>dyn_nodes := (dyn_nodes space)[k := \<lparr>sn_node_id = nid, sn_node_class = dn_class x, sn_browse_name = b, sn_display_name = d\<rparr>],
       string_nodeid_storage := ids, browse_name_storage := bs, display_name_storage := ds\<rparr>)"

definition put_reference :: "nat \<Rightarrow> dyn_reference \<Rightarrow> mu_dynamic_address_space \<Rightarrow> mu_dynamic_address_space" where
  "put_reference k x = mu_dynamic_reference_copy k (de_source x) (reference_type_id (de_ref x)) (is_forward (de_ref x)) (target_id (de_ref x))"

definition node_in :: "nat \<Rightarrow> slot_node \<Rightarrow> bool" where
  "node_in k n \<longleftrightarrow> nodeid_in k (sn_node_id n) \<and> string_in k (sn_browse_name n) \<and> string_in k (sn_display_name n)"

definition reference_in :: "nat \<Rightarrow> mu_dynamic_reference \<Rightarrow> bool" where
  "reference_in k r \<longleftrightarrow> nodeid_in k (dr_source r) \<and> nodeid_in k (dr_type r) \<and> nodeid_in k (dr_target r)"

text \<open>Entries that the storage can hold.\<close>

definition node_fits :: "dyn_node \<Rightarrow> bool" where
  "node_fits x \<longleftrightarrow> valid_nodeid (dn_id x) \<and> mu_dynamic_string_nodeid_fits (dn_id x) \<and>
     valid_string (dn_browse x) \<and> mu_dynamic_string_fits (dn_browse x) MU_MAX_DYNAMIC_BROWSE_NAME_LENGTH \<and>
     valid_string (dn_display x) \<and> mu_dynamic_string_fits (dn_display x) MU_MAX_DYNAMIC_DISPLAY_NAME_LENGTH"

definition reference_fits :: "dyn_reference \<Rightarrow> bool" where
  "reference_fits x \<longleftrightarrow> (\<forall>n \<in> {de_source x, reference_type_id (de_ref x), target_id (de_ref x)}.
     valid_nodeid n \<and> mu_dynamic_reference_string_nodeid_fits n)"

definition add_node_entry :: "dyn_node \<Rightarrow> mu_dynamic_address_space \<Rightarrow> mu_dynamic_address_space" where
  "add_node_entry x = dynamic_add_node (dn_id x) (dn_class x) (dn_browse x) (dn_display x)"

definition add_reference_entry :: "dyn_reference \<Rightarrow> mu_dynamic_address_space \<Rightarrow> mu_dynamic_address_space" where
  "add_reference_entry x = dynamic_add_reference (de_source x) (reference_type_id (de_ref x)) (is_forward (de_ref x)) (target_id (de_ref x))"

section \<open>The interface of a slot table\<close>

locale slot_table =
  fixes inv :: "'s \<Rightarrow> bool" and entries :: "'s \<Rightarrow> 'a list" and add :: "'a \<Rightarrow> 's \<Rightarrow> 's" and remove :: "nat \<Rightarrow> 's \<Rightarrow> 's"
    and capacity :: nat and fits :: "'a \<Rightarrow> bool"
  assumes bounded: "inv s \<Longrightarrow> length (entries s) \<le> capacity"
    and inv_add: "\<lbrakk>inv s; length (entries s) < capacity; fits x\<rbrakk> \<Longrightarrow> inv (add x s)"
    and entries_add: "\<lbrakk>inv s; length (entries s) < capacity; fits x\<rbrakk> \<Longrightarrow> entries (add x s) = entries s @ [x]"
    and inv_remove: "\<lbrakk>inv s; j < length (entries s)\<rbrakk> \<Longrightarrow> inv (remove j s)"
    and entries_remove: "\<lbrakk>inv s; j < length (entries s)\<rbrakk> \<Longrightarrow> entries (remove j s) = swap_remove j (entries s)"
begin

text \<open>Removing what was just added gives the old entries back.\<close>

lemma remove_added:
  "\<lbrakk>inv s; length (entries s) < capacity; fits x\<rbrakk> \<Longrightarrow> entries (remove (length (entries s)) (add x s)) = entries s"
  by (simp add: entries_remove inv_add entries_add swap_remove_def)

end

section \<open>Lists\<close>

lemma length_swap_remove [simp]: "length (swap_remove j xs) = length xs - 1"
  by (simp add: swap_remove_def)

lemma nth_swap_remove:
  "i < length xs - 1 \<Longrightarrow> swap_remove j xs ! i = (if i = j then last xs else xs ! i)"
  by (simp add: swap_remove_def nth_butlast nth_list_update)

lemma mset_swap_remove:
  assumes "j < length xs"
  shows "mset (swap_remove j xs) = mset xs - {#xs ! j#}"
proof -
  obtain ys y where xs: "xs = ys @ [y]" using assms by (cases xs rule: rev_cases) auto
  show ?thesis
  proof (cases "j < length ys")
    case True
    then have "swap_remove j xs = ys[j := y]" by (simp add: xs swap_remove_def list_update_append1 butlast_append)
    then show ?thesis using True by (simp add: xs mset_update nth_append)
  next
    case False
    then show ?thesis using assms by (simp add: xs swap_remove_def nth_append list_update_append less_Suc_eq)
  qed
qed

section \<open>Strings and node ids in storage\<close>

lemma valid_string_iff:
  "valid_string s \<longleftrightarrow> s = null_string \<or>
     0 \<le> sint (str_length s) \<and> sint (str_length s) \<le> 4096 \<and> (\<exists>bs. str_data s = Some bs \<and> length bs = nat (sint (str_length s)))"
proof
  assume "valid_string s"
  then show "s = null_string \<or> 0 \<le> sint (str_length s) \<and> sint (str_length s) \<le> 4096 \<and>
      (\<exists>bs. str_data s = Some bs \<and> length bs = nat (sint (str_length s)))"
    by (auto simp: valid_string_def MU_MAX_ENCODED_STRING_LENGTH_def sint_of_nat_small split: option.splits)
next
  have "x = of_nat (nat (sint x))" if "0 \<le> sint x" for x :: u32
    using that by (simp add: of_int_of_nat [symmetric] flip: word_of_int_nat)
  moreover assume "s = null_string \<or> 0 \<le> sint (str_length s) \<and> sint (str_length s) \<le> 4096 \<and>
      (\<exists>bs. str_data s = Some bs \<and> length bs = nat (sint (str_length s)))"
  ultimately show "valid_string s" by (auto simp: valid_string_def MU_MAX_ENCODED_STRING_LENGTH_def)
qed

lemma storage_okD: "\<lbrakk>storage_ok n store; k < n\<rbrakk> \<Longrightarrow> length (store ! k) = 64"
  by (simp add: storage_ok_def list_all_length)

lemma storage_ok_update: "\<lbrakk>storage_ok n store; length row = 64\<rbrakk> \<Longrightarrow> storage_ok n (store[k := row])"
  by (auto simp: storage_ok_def list_all_length nth_update)

lemma string_copy_stored:
  assumes "mu_dynamic_string_copy k s store = (t, store')" "valid_string s" "mu_dynamic_string_fits s 64"
    "storage_ok n store" "k < n"
  shows "string_in k t" "storage_ok n store'" "load_string store' t = s"
proof -
  note row = storage_okD [OF assms(4,5)] and len = assms(4) [unfolded storage_ok_def]
  show "string_in k t" using assms by (auto simp: mu_dynamic_string_copy_def string_in_def mu_dynamic_string_fits_def split: if_splits)
  show "storage_ok n store'"
    using assms row by (auto simp: mu_dynamic_string_copy_def mu_dynamic_string_fits_def valid_string_iff intro!: storage_ok_update split: if_splits)
  show "load_string store' t = s"
    using assms row len
    by (cases s) (auto simp: mu_dynamic_string_copy_def mu_dynamic_string_fits_def valid_string_iff load_string_def null_string_def
      overwrite_def split: if_splits)
qed

lemma string_copy_others:
  "\<lbrakk>mu_dynamic_string_copy k s store = (t, store'); string_in j u; j \<noteq> k\<rbrakk> \<Longrightarrow> load_string store' u = load_string store u"
  by (auto simp: mu_dynamic_string_copy_def string_in_def load_string_def split: if_splits)

lemma nodeid_copy_stored:
  assumes "mu_dynamic_nodeid_copy k s store = (t, store')" "valid_nodeid s" "nodeid_string_fits s 64" "storage_ok n store" "k < n"
  shows "nodeid_in k t" "storage_ok n store'" "load_nodeid store' t = s"
  using assms string_copy_stored [of k _ store _ store' n]
  by (cases s; auto simp: mu_dynamic_nodeid_copy_def valid_nodeid_def nodeid_string_fits_def nodeid_in_def load_nodeid_def
    split: mu_identifier.splits prod.splits)+

lemma nodeid_copy_others:
  "\<lbrakk>mu_dynamic_nodeid_copy k s store = (t, store'); nodeid_in j u; j \<noteq> k\<rbrakk> \<Longrightarrow> load_nodeid store' u = load_nodeid store u"
  using string_copy_others [of k _ store _ store' j]
  by (auto simp: mu_dynamic_nodeid_copy_def nodeid_in_def load_nodeid_def split: mu_identifier.splits slot_identifier.splits prod.splits)

text \<open>What is in storage can be copied to another slot.\<close>

lemma load_string_valid:
  "\<lbrakk>string_in j u; storage_ok n store; j < n\<rbrakk> \<Longrightarrow> valid_string (load_string store u) \<and> mu_dynamic_string_fits (load_string store u) 64"
  using storage_okD [of n store j] by (auto simp: string_in_def valid_string_iff load_string_def mu_dynamic_string_fits_def null_string_def)

lemma load_nodeid_valid:
  "\<lbrakk>nodeid_in j u; storage_ok n store; j < n\<rbrakk> \<Longrightarrow> valid_nodeid (load_nodeid store u) \<and> nodeid_string_fits (load_nodeid store u) 64"
  using load_string_valid [of j _ n store]
  by (auto simp: nodeid_in_def valid_nodeid_def load_nodeid_def nodeid_string_fits_def split: slot_identifier.splits)

lemma move_string_copy:
  "string_in j u \<Longrightarrow> move_string k j u store = mu_dynamic_string_copy k (load_string store u) store"
  by (cases u) (auto simp: string_in_def move_string_def mu_dynamic_string_copy_def load_string_def)

section \<open>Entries in their slots\<close>

lemmas dyn_limits = MU_MAX_DYNAMIC_NODES_def MU_MAX_DYNAMIC_REFERENCES_def MU_MAX_DYNAMIC_BROWSE_NAME_LENGTH_def
  MU_MAX_DYNAMIC_DISPLAY_NAME_LENGTH_def MU_MAX_DYNAMIC_STRING_NODEID_LENGTH_def
  MU_MAX_DYNAMIC_REFERENCE_STRING_NODEID_LENGTH_def

definition node_storage_ok :: "mu_dynamic_address_space \<Rightarrow> bool" where
  "node_storage_ok space \<longleftrightarrow> length (dyn_nodes space) = 32 \<and> storage_ok 32 (browse_name_storage space) \<and>
     storage_ok 32 (display_name_storage space) \<and> storage_ok 32 (string_nodeid_storage space)"

definition reference_storage_ok :: "mu_dynamic_address_space \<Rightarrow> bool" where
  "reference_storage_ok space \<longleftrightarrow> length (dyn_references space) = 64 \<and> storage_ok 64 (reference_source_storage space) \<and>
     storage_ok 64 (reference_type_storage space) \<and> storage_ok 64 (reference_target_storage space)"

lemma dyn_inv_alt:
  "dyn_inv space \<longleftrightarrow>
     (node_storage_ok space \<and> nodes_count space \<le> 32 \<and> (\<forall>k < nodes_count space. node_in k (dyn_nodes space ! k))) \<and>
     (reference_storage_ok space \<and> references_count space \<le> 64 \<and>
      (\<forall>k < references_count space. reference_in k (dyn_references space ! k)))"
  unfolding dyn_inv_def node_storage_ok_def reference_storage_ok_def node_in_def reference_in_def dyn_limits by blast

lemma put_node_stored:
  assumes "node_storage_ok space" "k < 32" "node_fits x"
  shows "node_storage_ok (put_node k x space)" "node_in k (dyn_nodes (put_node k x space) ! k)"
    "load_node (put_node k x space) (dyn_nodes (put_node k x space) ! k) = x"
proof -
  obtain nid ids where n: "mu_dynamic_nodeid_copy k (dn_id x) (string_nodeid_storage space) = (nid, ids)" by fastforce
  obtain b bs where b: "mu_dynamic_string_copy k (dn_browse x) (browse_name_storage space) = (b, bs)" by fastforce
  obtain d ds where d: "mu_dynamic_string_copy k (dn_display x) (display_name_storage space) = (d, ds)" by fastforce
  have ok: "storage_ok 32 (browse_name_storage space)" "storage_ok 32 (display_name_storage space)"
    "storage_ok 32 (string_nodeid_storage space)" "length (dyn_nodes space) = 32"
    using assms(1) by (auto simp: node_storage_ok_def)
  have fits: "valid_nodeid (dn_id x)" "nodeid_string_fits (dn_id x) 64" "valid_string (dn_browse x)"
    "mu_dynamic_string_fits (dn_browse x) 64" "valid_string (dn_display x)" "mu_dynamic_string_fits (dn_display x) 64"
    using assms(3) by (auto simp: node_fits_def mu_dynamic_string_nodeid_fits_def dyn_limits)
  note n' = nodeid_copy_stored [OF n fits(1,2) ok(3) assms(2)] and b' = string_copy_stored [OF b fits(3,4) ok(1) assms(2)]
    and d' = string_copy_stored [OF d fits(5,6) ok(2) assms(2)]
  show "node_storage_ok (put_node k x space)" "node_in k (dyn_nodes (put_node k x space) ! k)"
    "load_node (put_node k x space) (dyn_nodes (put_node k x space) ! k) = x"
    using n' b' d' ok(4) assms(2) by (simp_all add: put_node_def n b d node_storage_ok_def node_in_def load_node_def)
qed

lemma put_node_others:
  assumes "node_in j u" "j \<noteq> k"
  shows "load_node (put_node k x space) u = load_node space u" "dyn_nodes (put_node k x space) ! j = dyn_nodes space ! j"
proof -
  obtain nid ids where n: "mu_dynamic_nodeid_copy k (dn_id x) (string_nodeid_storage space) = (nid, ids)" by fastforce
  obtain b bs where b: "mu_dynamic_string_copy k (dn_browse x) (browse_name_storage space) = (b, bs)" by fastforce
  obtain d ds where d: "mu_dynamic_string_copy k (dn_display x) (display_name_storage space) = (d, ds)" by fastforce
  show "load_node (put_node k x space) u = load_node space u" "dyn_nodes (put_node k x space) ! j = dyn_nodes space ! j"
    using assms nodeid_copy_others [OF n, of j] string_copy_others [OF b, of j] string_copy_others [OF d, of j]
    by (simp_all add: put_node_def n b d load_node_def node_in_def)
qed

lemma put_node_frame [simp]:
  "nodes_count (put_node k x space) = nodes_count space" "length (dyn_nodes (put_node k x space)) = length (dyn_nodes space)"
  "references_count (put_node k x space) = references_count space" "dyn_references (put_node k x space) = dyn_references space"
  "reference_source_storage (put_node k x space) = reference_source_storage space"
  "reference_type_storage (put_node k x space) = reference_type_storage space"
  "reference_target_storage (put_node k x space) = reference_target_storage space"
  by (simp_all add: put_node_def split: prod.splits)

lemma put_reference_stored:
  assumes "reference_storage_ok space" "k < 64" "reference_fits x"
  shows "reference_storage_ok (put_reference k x space)" "reference_in k (dyn_references (put_reference k x space) ! k)"
    "load_reference (put_reference k x space) (dyn_references (put_reference k x space) ! k) = x"
proof -
  obtain s ss where s: "mu_dynamic_nodeid_copy k (de_source x) (reference_source_storage space) = (s, ss)" by fastforce
  obtain t ts where t: "mu_dynamic_nodeid_copy k (reference_type_id (de_ref x)) (reference_type_storage space) = (t, ts)" by fastforce
  obtain g gs where g: "mu_dynamic_nodeid_copy k (target_id (de_ref x)) (reference_target_storage space) = (g, gs)" by fastforce
  have ok: "storage_ok 64 (reference_source_storage space)" "storage_ok 64 (reference_type_storage space)"
    "storage_ok 64 (reference_target_storage space)" "length (dyn_references space) = 64"
    using assms(1) by (auto simp: reference_storage_ok_def)
  have fits: "valid_nodeid (de_source x)" "nodeid_string_fits (de_source x) 64" "valid_nodeid (reference_type_id (de_ref x))"
    "nodeid_string_fits (reference_type_id (de_ref x)) 64" "valid_nodeid (target_id (de_ref x))" "nodeid_string_fits (target_id (de_ref x)) 64"
    using assms(3) by (auto simp: reference_fits_def mu_dynamic_reference_string_nodeid_fits_def dyn_limits)
  note s' = nodeid_copy_stored [OF s fits(1,2) ok(1) assms(2)] and t' = nodeid_copy_stored [OF t fits(3,4) ok(2) assms(2)]
    and g' = nodeid_copy_stored [OF g fits(5,6) ok(3) assms(2)]
  show "reference_storage_ok (put_reference k x space)" "reference_in k (dyn_references (put_reference k x space) ! k)"
    "load_reference (put_reference k x space) (dyn_references (put_reference k x space) ! k) = x"
    using s' t' g' ok(4) assms(2)
    by (simp_all add: put_reference_def mu_dynamic_reference_copy_def s t g reference_storage_ok_def reference_in_def load_reference_def)
qed

lemma put_reference_others:
  assumes "reference_in j u" "j \<noteq> k"
  shows "load_reference (put_reference k x space) u = load_reference space u"
    "dyn_references (put_reference k x space) ! j = dyn_references space ! j"
proof -
  obtain s ss where s: "mu_dynamic_nodeid_copy k (de_source x) (reference_source_storage space) = (s, ss)" by fastforce
  obtain t ts where t: "mu_dynamic_nodeid_copy k (reference_type_id (de_ref x)) (reference_type_storage space) = (t, ts)" by fastforce
  obtain g gs where g: "mu_dynamic_nodeid_copy k (target_id (de_ref x)) (reference_target_storage space) = (g, gs)" by fastforce
  show "load_reference (put_reference k x space) u = load_reference space u"
    "dyn_references (put_reference k x space) ! j = dyn_references space ! j"
    using assms nodeid_copy_others [OF s, of j] nodeid_copy_others [OF t, of j] nodeid_copy_others [OF g, of j]
    by (simp_all add: put_reference_def mu_dynamic_reference_copy_def s t g load_reference_def reference_in_def)
qed

lemma put_reference_frame [simp]:
  "nodes_count (put_reference k x space) = nodes_count space" "dyn_nodes (put_reference k x space) = dyn_nodes space"
  "references_count (put_reference k x space) = references_count space"
  "length (dyn_references (put_reference k x space)) = length (dyn_references space)"
  "browse_name_storage (put_reference k x space) = browse_name_storage space"
  "display_name_storage (put_reference k x space) = display_name_storage space"
  "string_nodeid_storage (put_reference k x space) = string_nodeid_storage space"
  by (simp_all add: put_reference_def mu_dynamic_reference_copy_def Let_def split: prod.splits)

section \<open>The operations store entries by value\<close>

lemma add_node_entry_put:
  "add_node_entry x space = (put_node (nodes_count space) x space)\<lparr>nodes_count := nodes_count space + 1\<rparr>"
  by (simp add: add_node_entry_def dynamic_add_node_def put_node_def Let_def split: prod.splits)

lemma add_reference_entry_put:
  "add_reference_entry x space = (put_reference (references_count space) x space)\<lparr>references_count := references_count space + 1\<rparr>"
  by (simp add: add_reference_entry_def dynamic_add_reference_def put_reference_def mu_dynamic_reference_copy_def Let_def split: prod.splits)

lemma move_nodeid_copy:
  "nodeid_in j n \<Longrightarrow>
   (case sl_identifier n of SlotString s \<Rightarrow> (case move_string k j s store of (t, store) \<Rightarrow> (n\<lparr>sl_identifier := SlotString t\<rparr>, store)) | _ \<Rightarrow> (n, store)) =
   mu_dynamic_nodeid_copy k (load_nodeid store n) store"
  by (cases n) (auto simp: nodeid_in_def mu_dynamic_nodeid_copy_def load_nodeid_def move_string_copy split: slot_identifier.splits)

lemma slot_node_update:
  "n\<lparr>sn_node_id := i, sn_browse_name := b, sn_display_name := d\<rparr> =
   \<lparr>sn_node_id = i, sn_node_class = sn_node_class n, sn_browse_name = b, sn_display_name = d\<rparr>"
  by (cases n) simp

lemma node_move_put:
  "node_in j (dyn_nodes space ! j) \<Longrightarrow> mu_dynamic_node_move k j space = put_node k (load_node space (dyn_nodes space ! j)) space"
  by (simp add: mu_dynamic_node_move_def put_node_def node_in_def move_nodeid_copy move_string_copy load_node_def slot_node_update Let_def split: prod.splits)

lemma reference_move_put:
  "mu_dynamic_reference_move k j space = put_reference k (load_reference space (dyn_references space ! j)) space"
  by (simp add: mu_dynamic_reference_move_def put_reference_def load_reference_def Let_def)

lemma load_node_fits: "\<lbrakk>node_storage_ok space; node_in j u; j < 32\<rbrakk> \<Longrightarrow> node_fits (load_node space u)"
  using load_nodeid_valid [of j "sn_node_id u" 32] load_string_valid [of j _ 32]
  by (simp add: node_storage_ok_def node_in_def node_fits_def load_node_def mu_dynamic_string_nodeid_fits_def dyn_limits)

lemma load_reference_fits: "\<lbrakk>reference_storage_ok space; reference_in j u; j < 64\<rbrakk> \<Longrightarrow> reference_fits (load_reference space u)"
  using load_nodeid_valid [of j _ 64]
  by (simp add: reference_storage_ok_def reference_in_def reference_fits_def load_reference_def
    mu_dynamic_reference_string_nodeid_fits_def dyn_limits)

section \<open>The tables implement lists by value\<close>

lemma length_entries [simp]:
  "dyn_inv space \<Longrightarrow> length (node_entries space) = nodes_count space"
  "dyn_inv space \<Longrightarrow> length (reference_entries space) = references_count space"
  by (simp_all add: node_entries_def reference_entries_def dyn_inv_def min_def)

lemma nth_entries:
  "\<lbrakk>k < nodes_count space; nodes_count space \<le> length (dyn_nodes space)\<rbrakk> \<Longrightarrow> node_entries space ! k = load_node space (dyn_nodes space ! k)"
  "\<lbrakk>k < references_count space; references_count space \<le> length (dyn_references space)\<rbrakk> \<Longrightarrow>
     reference_entries space ! k = load_reference space (dyn_references space ! k)"
  by (simp_all add: node_entries_def reference_entries_def)

text \<open>The node part and the reference part of the space are independent.\<close>

definition nodes_inv :: "mu_dynamic_address_space \<Rightarrow> bool" where
  "nodes_inv space \<longleftrightarrow> node_storage_ok space \<and> nodes_count space \<le> 32 \<and> (\<forall>k < nodes_count space. node_in k (dyn_nodes space ! k))"

definition references_inv :: "mu_dynamic_address_space \<Rightarrow> bool" where
  "references_inv space \<longleftrightarrow> reference_storage_ok space \<and> references_count space \<le> 64 \<and>
     (\<forall>k < references_count space. reference_in k (dyn_references space ! k))"

lemma dyn_inv_parts: "dyn_inv space \<longleftrightarrow> nodes_inv space \<and> references_inv space"
  by (simp add: dyn_inv_alt nodes_inv_def references_inv_def)

lemma nodes_put:
  assumes inv: "nodes_inv space" and k: "k < 32" and x: "node_fits x"
    and c: "c \<le> 32" "\<And>j. j < c \<Longrightarrow> j = k \<or> j < nodes_count space"
  defines "space' \<equiv> (put_node k x space)\<lparr>nodes_count := c\<rparr>"
  shows "nodes_inv space'" "j < c \<Longrightarrow> node_entries space' ! j = (if j = k then x else node_entries space ! j)"
proof -
  have ok: "node_storage_ok space" and ins: "\<And>j. j < nodes_count space \<Longrightarrow> node_in j (dyn_nodes space ! j)"
    and le: "nodes_count space \<le> 32"
    using inv by (auto simp: nodes_inv_def)
  note new = put_node_stored [OF ok k x]
  have same: "load_node space' n = load_node (put_node k x space) n" for n by (simp add: space'_def load_node_def)
  have "node_in i (dyn_nodes space' ! i)" if "i < c" for i
    using c(2) [OF that] new(2) ins put_node_others [of i "dyn_nodes space ! i" k] by (cases "i = k") (auto simp: space'_def)
  then show "nodes_inv space'"
    using c(1) new(1) by (simp add: nodes_inv_def space'_def node_storage_ok_def)
  show "j < c \<Longrightarrow> node_entries space' ! j = (if j = k then x else node_entries space ! j)"
    using c(1) c(2) [of j] ok le new(3) ins [of j] put_node_others [of j "dyn_nodes space ! j" k x space] same
    by (auto simp: nth_entries node_storage_ok_def space'_def)
qed

lemma references_put:
  assumes inv: "references_inv space" and k: "k < 64" and x: "reference_fits x"
    and c: "c \<le> 64" "\<And>j. j < c \<Longrightarrow> j = k \<or> j < references_count space"
  defines "space' \<equiv> (put_reference k x space)\<lparr>references_count := c\<rparr>"
  shows "references_inv space'"
    "j < c \<Longrightarrow> reference_entries space' ! j = (if j = k then x else reference_entries space ! j)"
proof -
  have ok: "reference_storage_ok space" and ins: "\<And>j. j < references_count space \<Longrightarrow> reference_in j (dyn_references space ! j)"
    and le: "references_count space \<le> 64"
    using inv by (auto simp: references_inv_def)
  note new = put_reference_stored [OF ok k x]
  have same: "load_reference space' n = load_reference (put_reference k x space) n" for n by (simp add: space'_def load_reference_def)
  have "reference_in i (dyn_references space' ! i)" if "i < c" for i
    using c(2) [OF that] new(2) ins put_reference_others [of i "dyn_references space ! i" k] by (cases "i = k") (auto simp: space'_def)
  then show "references_inv space'"
    using c(1) new(1) by (simp add: references_inv_def space'_def reference_storage_ok_def)
  show "j < c \<Longrightarrow> reference_entries space' ! j = (if j = k then x else reference_entries space ! j)"
    using c(1) c(2) [of j] ok le new(3) ins [of j] put_reference_others [of j "dyn_references space ! j" k x space] same
    by (auto simp: nth_entries reference_storage_ok_def space'_def)
qed

text \<open>A removal stores the last entry in the freed slot and shortens the table; when the freed
  slot is the last one only the count changes.\<close>

lemma remove_node_put:
  assumes "nodes_inv space" "j < nodes_count space"
  shows "dynamic_remove_node j space =
    (if j = nodes_count space - 1 then space\<lparr>nodes_count := nodes_count space - 1\<rparr>
     else (put_node j (last (node_entries space)) space)\<lparr>nodes_count := nodes_count space - 1\<rparr>)"
proof -
  let ?l = "nodes_count space - 1"
  have l: "?l < nodes_count space" "nodes_count space \<le> length (dyn_nodes space)" "node_in ?l (dyn_nodes space ! ?l)"
    using assms by (auto simp: nodes_inv_def node_storage_ok_def)
  have "length (node_entries space) = nodes_count space" using l by (simp add: node_entries_def)
  then have "last (node_entries space) = load_node space (dyn_nodes space ! ?l)"
    using l by (subst last_conv_nth) (auto simp: nth_entries simp flip: length_0_conv)
  moreover have "put_node j x (space\<lparr>nodes_count := ?l\<rparr>) = (put_node j x space)\<lparr>nodes_count := ?l\<rparr>" for x
    by (simp add: put_node_def split: prod.splits)
  moreover have "load_node (space\<lparr>nodes_count := ?l\<rparr>) = load_node space" by (simp add: load_node_def fun_eq_iff)
  ultimately show ?thesis using l by (simp add: dynamic_remove_node_def Let_def node_move_put)
qed

lemma remove_reference_put:
  assumes "references_inv space" "j < references_count space"
  shows "dynamic_remove_reference j space =
    (if j = references_count space - 1 then space\<lparr>references_count := references_count space - 1\<rparr>
     else (put_reference j (last (reference_entries space)) space)\<lparr>references_count := references_count space - 1\<rparr>)"
proof -
  let ?l = "references_count space - 1"
  have l: "?l < references_count space" "references_count space \<le> length (dyn_references space)"
    using assms by (auto simp: references_inv_def reference_storage_ok_def)
  have "length (reference_entries space) = references_count space" using l by (simp add: reference_entries_def)
  then have "last (reference_entries space) = load_reference space (dyn_references space ! ?l)"
    using l by (subst last_conv_nth) (auto simp: nth_entries simp flip: length_0_conv)
  moreover have "put_reference j x (space\<lparr>references_count := ?l\<rparr>) = (put_reference j x space)\<lparr>references_count := ?l\<rparr>" for x
    by (simp add: put_reference_def mu_dynamic_reference_copy_def split: prod.splits)
  moreover have "load_reference (space\<lparr>references_count := ?l\<rparr>) = load_reference space" by (simp add: load_reference_def fun_eq_iff)
  ultimately show ?thesis by (simp add: dynamic_remove_reference_def Let_def reference_move_put)
qed

lemma nodes_inv_cong:
  "references_inv (put_node k x space) = references_inv space"
  "references_inv (space\<lparr>nodes_count := c\<rparr>) = references_inv space"
  "nodes_inv (put_reference k y space) = nodes_inv space"
  "nodes_inv (space\<lparr>references_count := c\<rparr>) = nodes_inv space"
  by (simp_all add: nodes_inv_def references_inv_def reference_storage_ok_def node_storage_ok_def)

lemma entries_cong:
  "reference_entries (put_node k x space) = reference_entries space"
  "reference_entries (space\<lparr>nodes_count := c\<rparr>) = reference_entries space"
  "node_entries (put_reference k y space) = node_entries space"
  "node_entries (space\<lparr>references_count := c\<rparr>) = node_entries space"
  by (simp_all add: node_entries_def reference_entries_def load_node_def load_reference_def)

lemma dyn_inv_length: "dyn_inv space \<Longrightarrow> nodes_count space \<le> 32 \<and> references_count space \<le> 64"
  by (simp add: dyn_inv_alt)

lemma node_table_add:
  assumes "dyn_inv space" "length (node_entries space) < MU_MAX_DYNAMIC_NODES" "node_fits x"
  shows "dyn_inv (add_node_entry x space)" "node_entries (add_node_entry x space) = node_entries space @ [x]"
proof -
  let ?n = "nodes_count space"
  have len: "?n < 32" "?n + 1 \<le> 32" and inv: "nodes_inv space" and sub: "\<And>j. j < ?n + 1 \<Longrightarrow> j = ?n \<or> j < ?n"
    using assms by (auto simp: dyn_limits dyn_inv_parts)
  note put = nodes_put [OF inv len(1) assms(3) len(2) sub, simplified]
  show ok: "dyn_inv (add_node_entry x space)"
    using assms(1) put(1) by (simp add: add_node_entry_put dyn_inv_parts nodes_inv_cong)
  show "node_entries (add_node_entry x space) = node_entries space @ [x]"
    using put(2) assms(1) length_entries(1) [OF ok]
    by (intro nth_equalityI) (auto simp: add_node_entry_put nth_append less_Suc_eq)
qed

lemma node_table_remove:
  assumes "dyn_inv space" "j < length (node_entries space)"
  shows "dyn_inv (dynamic_remove_node j space)" "node_entries (dynamic_remove_node j space) = swap_remove j (node_entries space)"
proof -
  let ?n = "nodes_count space" and ?x = "last (node_entries space)"
  have j: "j < ?n" "?n \<le> 32" and inv: "nodes_inv space" using assms dyn_inv_length by (auto simp: dyn_inv_parts)
  have "?x = load_node space (dyn_nodes space ! (?n - 1))"
    using assms j inv by (subst last_conv_nth) (auto simp: nth_entries nodes_inv_def node_storage_ok_def simp flip: length_0_conv)
  then have fits: "node_fits ?x" using inv j by (auto simp: nodes_inv_def intro!: load_node_fits [of _ "?n - 1"])
  have lim: "j < 32" "?n - 1 \<le> 32" and sub: "\<And>i. i < ?n - 1 \<Longrightarrow> i = j \<or> i < ?n" using j by auto
  note put = nodes_put [OF inv lim(1) fits lim(2) sub, simplified]
  show ok: "dyn_inv (dynamic_remove_node j space)"
    using put(1) j inv assms(1)
    by (auto simp: remove_node_put dyn_inv_parts nodes_inv_cong) (simp add: nodes_inv_def node_storage_ok_def)
  have at: "node_entries (space\<lparr>nodes_count := ?n - 1\<rparr>) = butlast (node_entries space)"
    using inv by (auto simp: node_entries_def load_node_def butlast_take nodes_inv_def node_storage_ok_def simp flip: map_butlast)
  show "node_entries (dynamic_remove_node j space) = swap_remove j (node_entries space)"
  proof (cases "j = ?n - 1")
    case True
    then have "(node_entries space)[j := ?x] = node_entries space"
      using assms j by (simp add: last_conv_nth flip: length_0_conv)
    then show ?thesis using True j inv at by (simp add: remove_node_put swap_remove_def)
  next
    case False
    then show ?thesis
      using put(2) j assms(1) inv length_entries(1) [OF ok]
      by (intro nth_equalityI) (auto simp: remove_node_put nth_swap_remove)
  qed
qed

lemma reference_table_add:
  assumes "dyn_inv space" "length (reference_entries space) < MU_MAX_DYNAMIC_REFERENCES" "reference_fits x"
  shows "dyn_inv (add_reference_entry x space)" "reference_entries (add_reference_entry x space) = reference_entries space @ [x]"
proof -
  let ?n = "references_count space"
  have len: "?n < 64" "?n + 1 \<le> 64" and inv: "references_inv space" and sub: "\<And>j. j < ?n + 1 \<Longrightarrow> j = ?n \<or> j < ?n"
    using assms by (auto simp: dyn_limits dyn_inv_parts)
  note put = references_put [OF inv len(1) assms(3) len(2) sub, simplified]
  show ok: "dyn_inv (add_reference_entry x space)"
    using assms(1) put(1) by (simp add: add_reference_entry_put dyn_inv_parts nodes_inv_cong)
  show "reference_entries (add_reference_entry x space) = reference_entries space @ [x]"
    using put(2) assms(1) length_entries(2) [OF ok]
    by (intro nth_equalityI) (auto simp: add_reference_entry_put nth_append less_Suc_eq)
qed

lemma reference_table_remove:
  assumes "dyn_inv space" "j < length (reference_entries space)"
  shows "dyn_inv (dynamic_remove_reference j space)"
    "reference_entries (dynamic_remove_reference j space) = swap_remove j (reference_entries space)"
proof -
  let ?n = "references_count space" and ?x = "last (reference_entries space)"
  have j: "j < ?n" "?n \<le> 64" and inv: "references_inv space" using assms dyn_inv_length by (auto simp: dyn_inv_parts)
  have "?x = load_reference space (dyn_references space ! (?n - 1))"
    using assms j inv by (subst last_conv_nth) (auto simp: nth_entries references_inv_def reference_storage_ok_def simp flip: length_0_conv)
  then have fits: "reference_fits ?x" using inv j by (auto simp: references_inv_def intro!: load_reference_fits [of _ "?n - 1"])
  have lim: "j < 64" "?n - 1 \<le> 64" and sub: "\<And>i. i < ?n - 1 \<Longrightarrow> i = j \<or> i < ?n" using j by auto
  note put = references_put [OF inv lim(1) fits lim(2) sub, simplified]
  show ok: "dyn_inv (dynamic_remove_reference j space)"
    using put(1) j inv assms(1)
    by (auto simp: remove_reference_put dyn_inv_parts nodes_inv_cong) (simp add: references_inv_def reference_storage_ok_def)
  have at: "reference_entries (space\<lparr>references_count := ?n - 1\<rparr>) = butlast (reference_entries space)"
    using inv by (auto simp: reference_entries_def load_reference_def butlast_take references_inv_def reference_storage_ok_def simp flip: map_butlast)
  show "reference_entries (dynamic_remove_reference j space) = swap_remove j (reference_entries space)"
  proof (cases "j = ?n - 1")
    case True
    then have "(reference_entries space)[j := ?x] = reference_entries space"
      using assms j by (simp add: last_conv_nth flip: length_0_conv)
    then show ?thesis using True j inv at by (simp add: remove_reference_put swap_remove_def)
  next
    case False
    then show ?thesis
      using put(2) j assms(1) inv length_entries(2) [OF ok]
      by (intro nth_equalityI) (auto simp: remove_reference_put nth_swap_remove)
  qed
qed

interpretation node_table: slot_table dyn_inv node_entries add_node_entry dynamic_remove_node MU_MAX_DYNAMIC_NODES node_fits
  by unfold_locales (use dyn_inv_length in \<open>auto simp: dyn_limits [symmetric] node_table_add node_table_remove\<close>)


interpretation reference_table:
  slot_table dyn_inv reference_entries add_reference_entry dynamic_remove_reference MU_MAX_DYNAMIC_REFERENCES reference_fits
  by unfold_locales (use dyn_inv_length in \<open>auto simp: dyn_limits [symmetric] reference_table_add reference_table_remove\<close>)

lemma tables_independent:
  "reference_entries (add_node_entry x space) = reference_entries space"
  "node_entries (add_reference_entry y space) = node_entries space"
  "\<lbrakk>dyn_inv space; j < nodes_count space\<rbrakk> \<Longrightarrow> reference_entries (dynamic_remove_node j space) = reference_entries space"
  "\<lbrakk>dyn_inv space; j < references_count space\<rbrakk> \<Longrightarrow> node_entries (dynamic_remove_reference j space) = node_entries space"
  by (simp_all add: add_node_entry_put add_reference_entry_put remove_node_put remove_reference_put dyn_inv_parts entries_cong)

lemma zero_dynamic_space_inv [simp]: "dyn_inv zero_dynamic_space"
  by (simp add: dyn_inv_def zero_dynamic_space_def dyn_limits storage_ok_def Let_def list_all_length)

lemma zero_dynamic_space_entries [simp]: "node_entries zero_dynamic_space = []" "reference_entries zero_dynamic_space = []"
  by (simp_all add: node_entries_def reference_entries_def zero_dynamic_space_def Let_def)

section \<open>Deleting every matching entry\<close>

text \<open>The loop of DeleteNodes over the references, on entries by value: after a removal the same
  slot is looked at again.\<close>

function purge_list :: "('a \<Rightarrow> bool) \<Rightarrow> nat \<Rightarrow> 'a list \<Rightarrow> 'a list" where
  "purge_list P i xs = (if i < length xs
     then if P (xs ! i) then purge_list P i (swap_remove i xs) else purge_list P (i + 1) xs
     else xs)"
  by pat_completeness auto
termination by (relation "measure (\<lambda>(P, i, xs). length xs - i)") auto

declare purge_list.simps [simp del]

lemma nth_mset_count: "i < length xs \<Longrightarrow> mset xs = add_mset (xs ! i) (mset (swap_remove i xs))"
  by (simp add: mset_swap_remove)

text \<open>It deletes all matching entries and only those.\<close>

lemma purge_list_filter:
  "(\<And>j. j < i \<Longrightarrow> j < length xs \<Longrightarrow> \<not> P (xs ! j)) \<Longrightarrow> mset (purge_list P i xs) = filter_mset (\<lambda>x. \<not> P x) (mset xs)"
proof (induction P i xs rule: purge_list.induct)
  case (1 P i xs)
  consider "\<not> i < length xs" | "i < length xs" "P (xs ! i)" | "i < length xs" "\<not> P (xs ! i)" by blast
  then show ?case
  proof cases
    case 1
    then have "\<not> P x" if "x \<in> set xs" for x using "1.prems" that by (auto simp: in_set_conv_nth)
    then show ?thesis using 1 by (simp add: purge_list.simps [of P i] flip: mset_filter)
  next
    case 2
    have "\<not> P (swap_remove i xs ! j)" if "j < i" "j < length (swap_remove i xs)" for j
      using "1.prems" [of j] that 2 by (simp add: nth_swap_remove)
    then have "mset (purge_list P i (swap_remove i xs)) = filter_mset (\<lambda>x. \<not> P x) (mset (swap_remove i xs))"
      using "1.IH"(1) 2 by simp
    then show ?thesis using 2 nth_mset_count [of i xs] by (simp add: purge_list.simps [of P i xs])
  next
    case 3
    then have "mset (purge_list P (i + 1) xs) = filter_mset (\<lambda>x. \<not> P x) (mset xs)"
      using "1.IH"(2) "1.prems" by (metis add.commute less_Suc_eq plus_1_eq_Suc)
    then show ?thesis using 3 by (simp add: purge_list.simps [of P i xs])
  qed
qed

end
