(* ===== verification/Node_Management.thy ===== *)
theory Node_Management
  imports Dynamic_Space
begin

text \<open>
  The node management services without their response headers
  (\<^verbatim>\<open>src/services/node_management.c\<close>): the decoders of the four requests, the encoders of
  their results and the processing of one item on the dynamic address space.  AddNodes and AddReferences
  append an entry; DeleteNodes removes the first node with the identifier and then every
  reference from or to it; DeleteReferences removes the first matching reference.
\<close>

section \<open>Requests\<close>

definition MU_OBJECTATTRIBUTES_ENCODING_DEFAULTBINARY_ID :: u32 where "MU_OBJECTATTRIBUTES_ENCODING_DEFAULTBINARY_ID = 354"
definition MU_NODEATTRIBUTES_DISPLAYNAME_BIT :: u32 where "MU_NODEATTRIBUTES_DISPLAYNAME_BIT = 0x40"

text \<open>\<open>an_attributes\<close> is the pointer to the attribute bytes in the request.\<close>

record mu_add_nodes_item =
  an_parent :: mu_nodeid
  an_reference_type :: mu_nodeid
  an_requested :: mu_expanded_nodeid
  an_browse_name :: mu_qualified_name
  an_class :: u32
  an_attributes_type :: mu_nodeid
  an_attributes_len :: nat
  an_attributes :: "byte list option"
  an_type_definition :: mu_expanded_nodeid

record mu_add_references_item =
  ar_source :: mu_nodeid
  ar_type :: mu_nodeid
  ar_forward :: bool
  ar_target_server_uri :: mu_string
  ar_target :: mu_expanded_nodeid
  ar_target_class :: u32

record mu_delete_nodes_item =
  xn_node_id :: mu_nodeid
  xn_delete_target_references :: bool

record mu_delete_references_item =
  xr_source :: mu_nodeid
  xr_type :: mu_nodeid
  xr_forward :: bool
  xr_target :: mu_expanded_nodeid
  xr_bidirectional :: bool

text \<open>The frame of the four decoders: a negative count is an empty array.\<close>

definition read_items :: "nat \<Rightarrow> 'a rd \<Rightarrow> 'a list rd" where
  "read_items max_items item =
     rbind mu_binary_read_int32 (\<lambda>count.
       if sint count < 0 then rreturn []
       else if max_items < nat (sint count) then rfail MU_STATUS_BAD_TOOMANYOPERATIONS
       else rrepeat (nat (sint count)) item)"

definition read_attributes :: "nat \<Rightarrow> byte list option rd" where
  "read_attributes len r =
    (if 0 < len then
       if rd_length r < rd_position r \<or> rd_length r - rd_position r < len
       then (Inl MU_STATUS_BAD_DECODINGERROR, r\<lparr>rd_status := MU_STATUS_BAD_DECODINGERROR\<rparr>)
       else (Inr (Some (take len (rd_at r))), rd_skip len r)
     else (Inr None, r))"

definition read_add_nodes_item :: "mu_add_nodes_item rd" where
  "read_add_nodes_item =
     rbind mu_binary_read_nodeid (\<lambda>parent.
     rbind mu_binary_read_nodeid (\<lambda>ref.
     rbind mu_binary_read_expanded_nodeid (\<lambda>requested.
     rbind mu_binary_read_qualified_name (\<lambda>browse.
     rbind mu_binary_read_uint32 (\<lambda>cls.
     rbind mu_binary_read_extension_object_header (\<lambda>(attr_type, len).
     rbind (read_attributes len) (\<lambda>attrs.
     rbind mu_binary_read_expanded_nodeid (\<lambda>typedef.
       rreturn \<lparr>an_parent = parent, an_reference_type = ref, an_requested = requested, an_browse_name = browse, an_class = cls,
         an_attributes_type = attr_type, an_attributes_len = len, an_attributes = attrs, an_type_definition = typedef\<rparr>))))))))"

definition mu_add_nodes_request_decode :: "nat \<Rightarrow> mu_add_nodes_item list rd" where
  "mu_add_nodes_request_decode max_items = read_items max_items read_add_nodes_item"

definition read_add_references_item :: "mu_add_references_item rd" where
  "read_add_references_item =
     rbind mu_binary_read_nodeid (\<lambda>source.
     rbind mu_binary_read_nodeid (\<lambda>ref.
     rbind mu_binary_read_byte (\<lambda>b.
     rbind mu_binary_read_string (\<lambda>uri.
     rbind mu_binary_read_expanded_nodeid (\<lambda>target.
     rbind mu_binary_read_uint32 (\<lambda>cls.
       rreturn \<lparr>ar_source = source, ar_type = ref, ar_forward = (b \<noteq> 0), ar_target_server_uri = uri, ar_target = target,
         ar_target_class = cls\<rparr>))))))"

definition mu_add_references_request_decode :: "nat \<Rightarrow> mu_add_references_item list rd" where
  "mu_add_references_request_decode max_items = read_items max_items read_add_references_item"

definition mu_delete_nodes_request_decode :: "nat \<Rightarrow> mu_delete_nodes_item list rd" where
  "mu_delete_nodes_request_decode max_items = read_items max_items
     (rbind mu_binary_read_nodeid (\<lambda>nid.
      rbind mu_binary_read_byte (\<lambda>b. rreturn \<lparr>xn_node_id = nid, xn_delete_target_references = (b \<noteq> 0)\<rparr>)))"

definition mu_delete_references_request_decode :: "nat \<Rightarrow> mu_delete_references_item list rd" where
  "mu_delete_references_request_decode max_items = read_items max_items
     (rbind mu_binary_read_nodeid (\<lambda>source.
      rbind mu_binary_read_nodeid (\<lambda>ref.
      rbind mu_binary_read_byte (\<lambda>b.
      rbind mu_binary_read_expanded_nodeid (\<lambda>target.
      rbind mu_binary_read_byte (\<lambda>c.
        rreturn \<lparr>xr_source = source, xr_type = ref, xr_forward = (b \<noteq> 0), xr_target = target, xr_bidirectional = (c \<noteq> 0)\<rparr>))))))"

section \<open>Results\<close>

record mu_add_nodes_result =
  res_status :: statuscode
  added_node_id :: mu_nodeid

text \<open>A counted array of results and the empty array of diagnostic infos.\<close>

definition write_results :: "('a \<Rightarrow> wr) \<Rightarrow> 'a list \<Rightarrow> wr" where
  "write_results f results =
     wthen (mu_binary_write_int32 (of_nat (length results))) (wthen (wseq (map f results)) (mu_binary_write_int32 0))"

definition mu_add_nodes_response_encode :: "mu_add_nodes_result list \<Rightarrow> wr" where
  "mu_add_nodes_response_encode =
     write_results (\<lambda>r. wthen (mu_binary_write_statuscode (res_status r)) (mu_binary_write_nodeid (added_node_id r)))"

definition mu_add_references_response_encode :: "statuscode list \<Rightarrow> wr" where
  "mu_add_references_response_encode = write_results mu_binary_write_statuscode"

definition mu_delete_nodes_response_encode :: "statuscode list \<Rightarrow> wr" where
  "mu_delete_nodes_response_encode = write_results mu_binary_write_statuscode"

definition mu_delete_references_response_encode :: "statuscode list \<Rightarrow> wr" where
  "mu_delete_references_response_encode = write_results mu_binary_write_statuscode"

section \<open>AddNodes\<close>

definition mu_nodeid_is_numeric0 :: "mu_nodeid \<Rightarrow> u32 \<Rightarrow> bool" where
  "mu_nodeid_is_numeric0 nid n \<longleftrightarrow> namespace_index nid = 0 \<and> nid_identifier nid = NumericId n"

definition mu_decode_localized_text_text :: "mu_string rd" where
  "mu_decode_localized_text_text =
     rbind mu_binary_read_byte (\<lambda>mask.
       if mask AND NOT 0x03 \<noteq> 0 then rfail MU_STATUS_BAD_DECODINGERROR
       else
       rbind (if mask AND 0x01 \<noteq> 0 then mu_binary_read_string else rreturn null_string) (\<lambda>ignored_locale.
         if mask AND 0x02 \<noteq> 0 then mu_binary_read_string else rreturn null_string))"

text \<open>\<^term>\<open>Inr None\<close> is \<^verbatim>\<open>*has_display_name = false\<close>.\<close>

definition mu_add_nodes_item_display_name :: "mu_add_nodes_item \<Rightarrow> statuscode + mu_string option" where
  "mu_add_nodes_item_display_name item =
    (if an_attributes_len item = 0 \<or> an_attributes item = None then Inr None
     else if \<not> mu_nodeid_is_numeric0 (an_attributes_type item) MU_OBJECTATTRIBUTES_ENCODING_DEFAULTBINARY_ID then Inr None
     else fst (rbind mu_binary_read_uint32 (\<lambda>specified.
         if specified AND MU_NODEATTRIBUTES_DISPLAYNAME_BIT = 0 then rreturn None
         else rbind mu_decode_localized_text_text (\<lambda>text. rreturn (Some text)))
       (mu_binary_reader_init (an_attributes item) (an_attributes_len item))))"

definition assign_node_id :: "mu_nodeid \<Rightarrow> mu_dynamic_address_space \<Rightarrow> mu_nodeid" where
  "assign_node_id requested space =
    (if nid_identifier requested = NumericId 0
     then \<lparr>namespace_index = 1, nid_identifier = NumericId (1000 + of_nat (nodes_count space))\<rparr>
     else requested)"

definition no_node_added :: "statuscode \<Rightarrow> mu_add_nodes_result" where
  "no_node_added st = \<lparr>res_status = st, added_node_id = \<lparr>namespace_index = 0, nid_identifier = NumericId 0\<rparr>\<rparr>"

definition add_node :: "mu_add_nodes_item \<Rightarrow> mu_dynamic_address_space \<Rightarrow> mu_add_nodes_result \<times> mu_dynamic_address_space" where
  "add_node item space =
    (let browse = qn_name (an_browse_name item) in
     if an_class item = 0 then (no_node_added MU_STATUS_BAD_NODECLASSINVALID, space)
     else if MU_MAX_DYNAMIC_NODES \<le> nodes_count space then (no_node_added MU_STATUS_BAD_OUTOFMEMORY, space)
     else if \<not> mu_dynamic_string_fits browse MU_MAX_DYNAMIC_BROWSE_NAME_LENGTH then (no_node_added MU_STATUS_BAD_OUTOFMEMORY, space)
     else case mu_add_nodes_item_display_name item of
         Inl st \<Rightarrow> (no_node_added st, space)
       | Inr given \<Rightarrow>
           let display = (case given of None \<Rightarrow> browse | Some text \<Rightarrow> text);
               new_id = assign_node_id (exp_node_id (an_requested item)) space in
           if \<not> mu_dynamic_string_fits display MU_MAX_DYNAMIC_DISPLAY_NAME_LENGTH then (no_node_added MU_STATUS_BAD_OUTOFMEMORY, space)
           else if \<not> mu_dynamic_string_nodeid_fits new_id then (no_node_added MU_STATUS_BAD_OUTOFMEMORY, space)
           else
             let idx = nodes_count space; space = dynamic_add_node new_id (an_class item) browse display space in
             (\<lparr>res_status = MU_STATUS_GOOD,
               added_node_id = load_nodeid (string_nodeid_storage space) (sn_node_id (dyn_nodes space ! idx))\<rparr>, space))"

section \<open>AddReferences\<close>

definition mu_dynamic_reference_nodeids_fit :: "mu_add_references_item \<Rightarrow> bool" where
  "mu_dynamic_reference_nodeids_fit item \<longleftrightarrow>
     mu_dynamic_reference_string_nodeid_fits (ar_source item) \<and> mu_dynamic_reference_string_nodeid_fits (ar_type item) \<and>
     mu_dynamic_reference_string_nodeid_fits (exp_node_id (ar_target item))"

definition add_reference :: "mu_add_references_item \<Rightarrow> mu_dynamic_address_space \<Rightarrow> statuscode \<times> mu_dynamic_address_space" where
  "add_reference item space =
    (if MU_MAX_DYNAMIC_REFERENCES \<le> references_count space then (MU_STATUS_BAD_OUTOFMEMORY, space)
     else if \<not> mu_dynamic_reference_nodeids_fit item then (MU_STATUS_BAD_OUTOFMEMORY, space)
     else (MU_STATUS_GOOD, dynamic_add_reference (ar_source item) (ar_type item) (ar_forward item) (exp_node_id (ar_target item)) space))"

section \<open>DeleteNodes and DeleteReferences\<close>

definition slot_node_has_id :: "mu_dynamic_address_space \<Rightarrow> mu_nodeid \<Rightarrow> slot_node \<Rightarrow> bool" where
  "slot_node_has_id space nid n = mu_nodeid_equal (load_nodeid (string_nodeid_storage space) (sn_node_id n)) nid"

definition slot_reference_touches :: "mu_dynamic_address_space \<Rightarrow> mu_nodeid \<Rightarrow> mu_dynamic_reference \<Rightarrow> bool" where
  "slot_reference_touches space nid r \<longleftrightarrow>
     mu_nodeid_equal (load_nodeid (reference_source_storage space) (dr_source r)) nid \<or>
     mu_nodeid_equal (load_nodeid (reference_target_storage space) (dr_target r)) nid"

lemma references_count_remove [simp]: "references_count (dynamic_remove_reference j space) = references_count space - 1"
  by (simp add: dynamic_remove_reference_def reference_move_put Let_def)

function delete_references_of :: "mu_nodeid \<Rightarrow> nat \<Rightarrow> mu_dynamic_address_space \<Rightarrow> mu_dynamic_address_space" where
  "delete_references_of nid i space =
    (if i < references_count space then
       if slot_reference_touches space nid (dyn_references space ! i)
       then delete_references_of nid i (dynamic_remove_reference i space)
       else delete_references_of nid (i + 1) space
     else space)"
  by pat_completeness auto
termination by (relation "measure (\<lambda>(nid, i, space). references_count space - i)") auto

declare delete_references_of.simps [simp del]

definition delete_node :: "mu_delete_nodes_item \<Rightarrow> mu_dynamic_address_space \<Rightarrow> statuscode \<times> mu_dynamic_address_space" where
  "delete_node item space =
    (case find_index (slot_node_has_id space (xn_node_id item)) (take (nodes_count space) (dyn_nodes space)) of
       None \<Rightarrow> (MU_STATUS_BAD_NODEIDUNKNOWN, space)
     | Some j \<Rightarrow> (MU_STATUS_GOOD, delete_references_of (xn_node_id item) 0 (dynamic_remove_node j space)))"

definition slot_reference_matches :: "mu_dynamic_address_space \<Rightarrow> mu_delete_references_item \<Rightarrow> mu_dynamic_reference \<Rightarrow> bool" where
  "slot_reference_matches space item r \<longleftrightarrow>
     mu_nodeid_equal (load_nodeid (reference_source_storage space) (dr_source r)) (xr_source item) \<and>
     mu_nodeid_equal (load_nodeid (reference_type_storage space) (dr_type r)) (xr_type item) \<and>
     mu_nodeid_equal (load_nodeid (reference_target_storage space) (dr_target r)) (exp_node_id (xr_target item)) \<and>
     dr_forward r = xr_forward item"

definition delete_reference :: "mu_delete_references_item \<Rightarrow> mu_dynamic_address_space \<Rightarrow> statuscode \<times> mu_dynamic_address_space" where
  "delete_reference item space =
    (case find_index (slot_reference_matches space item) (take (references_count space) (dyn_references space)) of
       None \<Rightarrow> (MU_STATUS_BAD_NOTFOUND, space)
     | Some j \<Rightarrow> (MU_STATUS_GOOD, dynamic_remove_reference j space))"

text \<open>The loop over the items.\<close>

fun process_items :: "('i \<Rightarrow> 's \<Rightarrow> 'r \<times> 's) \<Rightarrow> 'i list \<Rightarrow> 's \<Rightarrow> 'r list \<times> 's" where
  "process_items f [] s = ([], s)"
| "process_items f (x # xs) s = (case f x s of (r, s) \<Rightarrow> case process_items f xs s of (rs, s) \<Rightarrow> (r # rs, s))"

text \<open>Items as the decoders deliver them.\<close>

definition add_node_item_ok :: "mu_add_nodes_item \<Rightarrow> bool" where
  "add_node_item_ok item \<longleftrightarrow> valid_string (qn_name (an_browse_name item)) \<and> valid_nodeid (exp_node_id (an_requested item)) \<and>
     (case an_attributes item of None \<Rightarrow> True | Some bs \<Rightarrow> length bs = an_attributes_len item)"

definition add_reference_item_ok :: "mu_add_references_item \<Rightarrow> bool" where
  "add_reference_item_ok item \<longleftrightarrow> valid_nodeid (ar_source item) \<and> valid_nodeid (ar_type item) \<and> valid_nodeid (exp_node_id (ar_target item))"

text \<open>An entry that refers to a node.\<close>

definition touches :: "mu_nodeid \<Rightarrow> dyn_reference \<Rightarrow> bool" where
  "touches nid e \<longleftrightarrow> mu_nodeid_equal (de_source e) nid \<or> mu_nodeid_equal (target_id (de_ref e)) nid"

definition matches_item :: "mu_delete_references_item \<Rightarrow> dyn_reference \<Rightarrow> bool" where
  "matches_item item e \<longleftrightarrow> mu_nodeid_equal (de_source e) (xr_source item) \<and> mu_nodeid_equal (reference_type_id (de_ref e)) (xr_type item) \<and>
     mu_nodeid_equal (target_id (de_ref e)) (exp_node_id (xr_target item)) \<and> is_forward (de_ref e) = xr_forward item"

text \<open>An example: a node, a reference from it to itself, and the items that add and delete the node.\<close>

definition example_id :: mu_nodeid where
  "example_id = \<lparr>namespace_index = 1, nid_identifier = NumericId 1000\<rparr>"

definition example_dyn_node :: dyn_node where
  "example_dyn_node = \<lparr>dn_id = example_id, dn_class = 1, dn_browse = mk_string [65, 66], dn_display = mk_string [65]\<rparr>"

definition example_dyn_reference :: dyn_reference where
  "example_dyn_reference = \<lparr>de_source = example_id,
     de_ref = \<lparr>reference_type_id = ns0 35, target_id = example_id, is_forward = True\<rparr>\<rparr>"

definition example_space :: mu_dynamic_address_space where
  "example_space = add_reference_entry example_dyn_reference (add_node_entry example_dyn_node zero_dynamic_space)"

definition example_add_item :: mu_add_nodes_item where
  "example_add_item = \<lparr>an_parent = ns0 85, an_reference_type = ns0 35,
     an_requested = \<lparr>exp_node_id = ns0 0, namespace_uri = null_string, server_index = 0\<rparr>,
     an_browse_name = \<lparr>qn_namespace_index = 1, qn_name = mk_string [65, 66]\<rparr>, an_class = 1, an_attributes_type = ns0 0,
     an_attributes_len = 0, an_attributes = None,
     an_type_definition = \<lparr>exp_node_id = ns0 58, namespace_uri = null_string, server_index = 0\<rparr>\<rparr>"

lemma find_index_map: "find_index P (map f xs) = find_index (\<lambda>x. P (f x)) xs"
  by (induction xs) auto

section \<open>What the decoders deliver\<close>

definition rd_yields :: "('a \<Rightarrow> bool) \<Rightarrow> 'a rd \<Rightarrow> bool" where
  "rd_yields P m \<longleftrightarrow> (\<forall>r x r'. rd_ok r \<longrightarrow> m r = (Inr x, r') \<longrightarrow> P x)"

named_theorems yields_intros \<open>properties of decoded values, by the structure of the decoder\<close>

lemma decoder_step_ok: "decoder_step m \<Longrightarrow> rd_ok r \<Longrightarrow> m r = (Inr x, r') \<Longrightarrow> rd_ok r'"
  using decoder_step.step_ok [of m r x r'] by (auto simp: rd_ok_skip)

lemma rd_yieldsD: "rd_yields P m \<Longrightarrow> rd_ok r \<Longrightarrow> m r = (Inr x, r') \<Longrightarrow> P x"
  by (simp add: rd_yields_def)

lemma rd_yieldsI: "(\<And>r x r'. rd_ok r \<Longrightarrow> m r = (Inr x, r') \<Longrightarrow> P x) \<Longrightarrow> rd_yields P m"
  by (simp add: rd_yields_def)

lemma rd_yields_bind:
  assumes "decoder_step m" "rd_yields Q m" "\<And>x. Q x \<Longrightarrow> rd_yields P (f x)"
  shows "rd_yields P (rbind m f)"
proof (rule rd_yieldsI)
  fix r y r' assume ok: "rd_ok r" and "rbind m f r = (Inr y, r')"
  then obtain x q where x: "m r = (Inr x, q)" and y: "f x q = (Inr y, r')" by (auto simp: rbind_Inr)
  show "P y" by (rule rd_yieldsD [OF assms(3) decoder_step_ok [OF assms(1) ok x] y]) (rule rd_yieldsD [OF assms(2) ok x])
qed

lemma rd_yields_bind_any:
  "\<lbrakk>decoder_step m; \<And>x. rd_yields P (f x)\<rbrakk> \<Longrightarrow> rd_yields P (rbind m f)"
  by (rule rd_yields_bind [where Q = "\<lambda>_. True"]) (simp_all add: rd_yields_def)

lemmas yields_then_primitives [yields_intros] = decoder_step_primitives [THEN rd_yields_bind_any]

lemma rd_yields_pure [yields_intros]: "P x \<Longrightarrow> rd_yields P (rreturn x)" "rd_yields P (rfail st)"
  by (simp_all add: rd_yields_def rreturn_def rfail_def)

lemma rd_yields_if [yields_intros]:
  "\<lbrakk>c \<Longrightarrow> rd_yields P m; \<not> c \<Longrightarrow> rd_yields P k\<rbrakk> \<Longrightarrow> rd_yields P (if c then m else k)"
  by simp

lemma rd_yields_let [yields_intros]: "(\<And>y. y = x \<Longrightarrow> rd_yields P (f y)) \<Longrightarrow> rd_yields P (let y = x in f y)"
  by simp

lemma rd_yields_payload:
  assumes "0 \<le> sint len" "sint len \<le> 4096"
  shows "rd_yields valid_string (rbind (ensure_string_payload len) (\<lambda>_ r.
    (Inr \<lparr>str_length = len, str_data = Some (take (nat (sint len)) (rd_at r))\<rparr>, rd_skip (nat (sint len)) r)))"
  unfolding rd_yields_def
proof (intro allI impI)
  fix r x r'
  assume ok: "rd_ok r" and run: "rbind (ensure_string_payload len) (\<lambda>_ r.
    (Inr \<lparr>str_length = len, str_data = Some (take (nat (sint len)) (rd_at r))\<rparr>, rd_skip (nat (sint len)) r)) r = (Inr x, r')"
  have enough: "nat (sint len) \<le> length (rd_rest r)"
  proof (rule ccontr)
    assume "\<not> nat (sint len) \<le> length (rd_rest r)"
    then show False using run ensure_string_payload_short [OF ok, of len] by (simp add: rbind_def)
  qed
  then have x: "x = \<lparr>str_length = len, str_data = Some (take (nat (sint len)) (rd_at r))\<rparr>"
    using run ensure_string_payload_ok [OF ok] by (simp add: rbind_def)
  have "length (rd_rest r) \<le> length (rd_at r)" using ok by (auto simp: rd_rest_def rd_at_def rd_ok_def rd_wf_def)
  then show "valid_string x" using assms enough by (simp add: x valid_string_iff)
qed

lemma rd_yields_string [yields_intros]: "rd_yields valid_string mu_binary_read_string"
  unfolding mu_binary_read_string_def
  by (intro yields_intros safe_intros rd_yields_payload) (simp_all add: valid_string_iff null_string_def MU_MAX_ENCODED_STRING_LENGTH_def)

lemmas yields_then_string [yields_intros] = rd_yields_bind [OF _ rd_yields_string, OF decoder_stepI [OF decoder_read_string]]

lemma rd_yields_nodeid [yields_intros]: "rd_yields valid_nodeid mu_binary_read_nodeid"
  unfolding mu_binary_read_nodeid_def by (intro yields_intros) (simp_all add: valid_nodeid_def)

lemmas yields_then_nodeid [yields_intros] = rd_yields_bind [OF _ rd_yields_nodeid, OF decoder_stepI [OF decoder_read_nodeid]]

lemma rd_yields_expanded_nodeid: "rd_yields (\<lambda>x. valid_nodeid (exp_node_id x)) mu_binary_read_expanded_nodeid"
proof (rule rd_yieldsI)
  fix r x r' assume ok: "rd_ok r" and run: "mu_binary_read_expanded_nodeid r = (Inr x, r')"
  have "rd_yields (\<lambda>x. valid_nodeid (exp_node_id x)) (rbind mu_binary_read_nodeid (\<lambda>nid.
        rbind (if mask AND 0x80 \<noteq> 0 then mu_binary_read_string else rreturn null_string) (\<lambda>uri.
        rbind (if mask AND 0x40 \<noteq> 0 then mu_binary_read_uint32 else rreturn 0) (\<lambda>srv.
          rreturn \<lparr>exp_node_id = nid, namespace_uri = uri, server_index = srv\<rparr>))))" for mask :: byte
    by (intro yields_then_nodeid rd_yields_bind_any rd_yields_pure safe_intros) simp
  then show "valid_nodeid (exp_node_id x)"
    using run rd_yieldsD [OF _ ok] by (fastforce simp: mu_binary_read_expanded_nodeid_def Let_def split: if_splits)
qed

lemma rd_yields_qualified_name: "rd_yields (\<lambda>x. valid_string (qn_name x)) mu_binary_read_qualified_name"
  unfolding mu_binary_read_qualified_name_def by (intro yields_intros) simp

lemma decoder_step_text: "decoder_step mu_decode_localized_text_text"
  unfolding mu_decode_localized_text_text_def by (intro safe_intros; simp)

lemma rd_yields_text: "rd_yields valid_string mu_decode_localized_text_text"
  unfolding mu_decode_localized_text_text_def
  by (intro yields_intros rd_yields_bind_any safe_intros) (simp_all add: valid_string_def)

lemma display_name_valid:
  assumes "mu_add_nodes_item_display_name item = Inr (Some text)" "add_node_item_ok item"
  shows "valid_string text"
proof -
  let ?m = "rbind mu_binary_read_uint32 (\<lambda>specified.
         if specified AND MU_NODEATTRIBUTES_DISPLAYNAME_BIT = 0 then rreturn None
         else rbind mu_decode_localized_text_text (\<lambda>text. rreturn (Some text)))"
  obtain bs where bs: "an_attributes item = Some bs" "fst (?m (mu_binary_reader_init (Some bs) (length bs))) = Inr (Some text)"
    using assms by (auto simp: mu_add_nodes_item_display_name_def add_node_item_ok_def split: if_splits)
  have "rd_yields (\<lambda>x. \<forall>t. x = Some t \<longrightarrow> valid_string t) ?m"
    by (intro yields_intros rd_yields_bind [OF decoder_step_text rd_yields_text]) simp_all
  from rd_yieldsD [OF this rd_ok_init] bs(2) show ?thesis by (metis prod.collapse)
qed

lemma display_name_error:
  assumes "mu_add_nodes_item_display_name item = Inl st" "add_node_item_ok item"
  shows "st \<noteq> MU_STATUS_GOOD"
proof -
  let ?m = "rbind mu_binary_read_uint32 (\<lambda>specified.
         if specified AND MU_NODEATTRIBUTES_DISPLAYNAME_BIT = 0 then rreturn None
         else rbind mu_decode_localized_text_text (\<lambda>text. rreturn (Some text)))"
  obtain bs where bs: "an_attributes item = Some bs" "fst (?m (mu_binary_reader_init (Some bs) (length bs))) = Inl st"
    using assms by (auto simp: mu_add_nodes_item_display_name_def add_node_item_ok_def split: if_splits)
  have "decoder_step ?m" by (intro safe_intros decoder_step_text)
  from decoder_step.step_err [OF this rd_ok_init] bs(2) show ?thesis by (metis prod.collapse)
qed

lemma rd_yields_repeat:
  assumes "decoder_step m" "rd_yields P m"
  shows "rd_yields (list_all P) (rrepeat n m)"
proof (induction n)
  case (Suc n)
  have "rd_yields (list_all P) (rbind (rrepeat n m) (\<lambda>xs. rreturn (x # xs)))" if "P x" for x
    by (rule rd_yields_bind [OF decoder_step_repeat [OF assms(1)] Suc]) (simp add: that rd_yields_pure)
  then show ?case by (simp add: rd_yields_bind [OF assms])
qed (simp add: rd_yields_pure)

lemma rd_yields_items: "\<lbrakk>decoder_step m; rd_yields P m\<rbrakk> \<Longrightarrow> rd_yields (list_all P) (read_items k m)"
  unfolding read_items_def by (intro yields_intros rd_yields_repeat) simp_all

lemma decoder_step_items [safe_intros]: "decoder_step m \<Longrightarrow> decoder_step (read_items k m)"
  unfolding read_items_def by (intro safe_intros) simp_all

lemma decoder_step_attributes [safe_intros]: "decoder_step (read_attributes len)"
proof (rule decoder_stepI_span [where n = len and g = "\<lambda>bs. Some (if 0 < len then Some bs else None)"])
  fix r x assume "rd_ok r" "len \<le> length (rd_rest r)" "Some (if 0 < len then Some (take len (rd_rest r)) else None) = Some x"
  then show "read_attributes len r = (Inr x, rd_skip len r)"
    using length_rd_rest [of r] by (auto simp: read_attributes_def rd_at_rest rd_ok_def rd_wf_def rd_skip_def)
next
  fix r assume "rd_ok r" "length (rd_rest r) < len"
  then show "\<exists>s r'. read_attributes len r = (Inl s, r') \<and> s \<noteq> MU_STATUS_GOOD \<and> rd_frame r r'"
    using length_rd_rest [of r] by (auto simp: read_attributes_def rd_ok_wf)
qed simp

lemma rd_yields_attributes: "rd_yields (\<lambda>x. case x of None \<Rightarrow> True | Some bs \<Rightarrow> length bs = len) (read_attributes len)"
  using length_rd_rest
  by (auto simp: rd_yields_def read_attributes_def rd_at_def rd_ok_def rd_wf_def split: if_splits)

text \<open>The encoding byte of an expanded node id is looked at and then read again as part of the
  node id, so it is among the consumed bytes.\<close>

definition expanded_nodeid_body :: "byte \<Rightarrow> mu_expanded_nodeid rd" where
  "expanded_nodeid_body enc = rbind mu_binary_read_nodeid (\<lambda>nid.
     rbind (if enc AND 0x80 \<noteq> 0 then mu_binary_read_string else rreturn null_string) (\<lambda>uri.
     rbind (if enc AND 0x40 \<noteq> 0 then mu_binary_read_uint32 else rreturn 0) (\<lambda>srv.
       rreturn \<lparr>exp_node_id = nid, namespace_uri = uri, server_index = srv\<rparr>)))"

lemma read_expanded_nodeid_alt:
  "rd_ok r \<Longrightarrow> mu_binary_read_expanded_nodeid r =
    (if rd_rest r = [] then (Inl MU_STATUS_BAD_DECODINGERROR, r) else expanded_nodeid_body (hd (rd_rest r)) r)"
  using length_rd_rest [of r] rd_at_rest [of r 1]
  by (cases "rd_rest r"; cases "rd_at r") (auto simp: mu_binary_read_expanded_nodeid_def expanded_nodeid_body_def Let_def)

lemma expanded_nodeid_body_empty: "fst (expanded_nodeid_body enc (mu_binary_reader_init (Some []) 0)) \<noteq> Inr x"
  by (simp add: expanded_nodeid_body_def mu_binary_read_nodeid_def mu_binary_read_byte_def read_fixed_def rbind_def ensure_bytes_def
    mu_binary_reader_init_def reader_fail_def reader_status_def)

lemma decoder_step_expanded_nodeid [safe_intros]: "decoder_step mu_binary_read_expanded_nodeid"
proof
  have step: "decoder_step (expanded_nodeid_body enc)" for enc
    unfolding expanded_nodeid_body_def by (intro safe_intros)
  {
    fix r x r' assume ok: "rd_ok r" and "mu_binary_read_expanded_nodeid r = (Inr x, r')"
    then have ne: "rd_rest r \<noteq> []" and run: "expanded_nodeid_body (hd (rd_rest r)) r = (Inr x, r')"
      by (auto simp: read_expanded_nodeid_alt split: if_splits)
    from decoder_step.step_ok [OF step ok run] obtain n where n: "n \<le> length (rd_rest r)" "r' = rd_skip n r"
      and same: "\<And>q. rd_ok q \<Longrightarrow> take n (rd_rest q) = take n (rd_rest r) \<Longrightarrow> expanded_nodeid_body (hd (rd_rest r)) q = (Inr x, rd_skip n q)"
      by blast
    have "n \<noteq> 0"
      using same [of "mu_binary_reader_init (Some []) 0"] expanded_nodeid_body_empty [of "hd (rd_rest r)" x] rd_ok_init [of "[]"]
      by (cases "n = 0") auto
    then have "mu_binary_read_expanded_nodeid q = (Inr x, rd_skip n q)" if "rd_ok q" "take n (rd_rest q) = take n (rd_rest r)" for q
      using that same [OF that] ne by (cases n; cases "rd_rest q"; cases "rd_rest r") (auto simp: read_expanded_nodeid_alt)
    then show "\<exists>n \<le> length (rd_rest r). r' = rd_skip n r \<and>
        (\<forall>q. rd_ok q \<longrightarrow> take n (rd_rest q) = take n (rd_rest r) \<longrightarrow> mu_binary_read_expanded_nodeid q = (Inr x, rd_skip n q))"
      using n by blast
  }
  fix r st r' assume "rd_ok r" "mu_binary_read_expanded_nodeid r = (Inl st, r')"
  then show "st \<noteq> MU_STATUS_GOOD \<and> rd_frame r r'"
    using decoder_step.step_err [OF step, of r] by (auto simp: read_expanded_nodeid_alt rd_ok_wf split: if_splits)
qed

lemma add_nodes_items_ok: "rd_yields (list_all add_node_item_ok) (mu_add_nodes_request_decode k)"
proof -
  have ext: "decoder_step mu_binary_read_extension_object_header" by (intro decoder_stepI safe_intros)
  have "rd_yields add_node_item_ok read_add_nodes_item" "decoder_step read_add_nodes_item"
    unfolding read_add_nodes_item_def
    by (intro yields_then_nodeid rd_yields_bind [OF decoder_step_expanded_nodeid rd_yields_expanded_nodeid]
        rd_yields_bind [OF decoder_step_nodeid(2) rd_yields_qualified_name] yields_then_primitives rd_yields_bind_any [OF ext]
        | clarsimp
        | intro rd_yields_bind [OF decoder_step_attributes rd_yields_attributes] rd_yields_bind_any [OF decoder_step_expanded_nodeid] rd_yields_pure
        | simp add: add_node_item_ok_def split: option.splits)+
      (intro safe_intros ext; clarsimp; intro safe_intros)
  then show ?thesis unfolding mu_add_nodes_request_decode_def by (intro rd_yields_items)
qed

lemma add_references_items_ok: "rd_yields (list_all add_reference_item_ok) (mu_add_references_request_decode k)"
proof -
  have "rd_yields add_reference_item_ok read_add_references_item" "decoder_step read_add_references_item"
    unfolding read_add_references_item_def
    by (intro yields_intros rd_yields_bind [OF decoder_step_expanded_nodeid rd_yields_expanded_nodeid]; simp add: add_reference_item_ok_def)
      (intro safe_intros)
  then show ?thesis unfolding mu_add_references_request_decode_def by (intro rd_yields_items)
qed

section \<open>Items on the entries by value\<close>

lemma add_node_good:
  assumes "dyn_inv space" "nodes_count space < MU_MAX_DYNAMIC_NODES" "node_fits x"
  shows "load_nodeid (string_nodeid_storage (add_node_entry x space)) (sn_node_id (dyn_nodes (add_node_entry x space) ! nodes_count space)) = dn_id x"
proof -
  let ?t = "add_node_entry x space"
  have len: "length (node_entries space) < MU_MAX_DYNAMIC_NODES" using assms by simp
  have inv: "dyn_inv ?t" and e: "node_entries ?t = node_entries space @ [x]" using node_table_add [OF assms(1) len assms(3)] .
  have "nodes_count space < nodes_count ?t" by (simp add: add_node_entry_put)
  moreover have "nodes_count ?t \<le> length (dyn_nodes ?t)" using inv by (simp add: dyn_inv_def)
  ultimately have "load_node ?t (dyn_nodes ?t ! nodes_count space) = x"
    using nth_entries(1) [of "nodes_count space" ?t] assms(1) by (simp add: e nth_append)
  then show ?thesis by (metis dyn_node.select_convs(1) load_node_def)
qed

lemma assign_node_id_valid: "valid_nodeid nid \<Longrightarrow> valid_nodeid (assign_node_id nid space)"
  by (simp add: assign_node_id_def valid_nodeid_def)

lemma add_node_cases:
  assumes "dyn_inv space" "add_node_item_ok item" "add_node item space = (res, space')"
  obtains "res_status res \<noteq> MU_STATUS_GOOD" "space' = space"
  | x where "res_status res = MU_STATUS_GOOD" "node_fits x" "nodes_count space < MU_MAX_DYNAMIC_NODES" "space' = add_node_entry x space"
      "dn_id x = added_node_id res" "dn_class x = an_class item" "dn_browse x = qn_name (an_browse_name item)"
proof (cases "res_status res = MU_STATUS_GOOD")
  case False
  moreover have "space' = space" using False assms(3)
    by (auto simp: add_node_def no_node_added_def Let_def split: if_splits sum.splits)
  ultimately show ?thesis by (rule that(1))
next
  case True
  define browse where "browse = qn_name (an_browse_name item)"
  obtain given where given: "mu_add_nodes_item_display_name item = Inr given"
    using True assms(3) display_name_error [OF _ assms(2)]
    by (auto simp: add_node_def no_node_added_def Let_def split: if_splits sum.splits)
  define display where "display = (case given of None \<Rightarrow> qn_name (an_browse_name item) | Some text \<Rightarrow> text)"
  define x where "x = \<lparr>dn_id = assign_node_id (exp_node_id (an_requested item)) space, dn_class = an_class item, dn_browse = browse, dn_display = display\<rparr>"
  have room: "nodes_count space < MU_MAX_DYNAMIC_NODES" and fit: "mu_dynamic_string_fits browse MU_MAX_DYNAMIC_BROWSE_NAME_LENGTH"
    "mu_dynamic_string_fits display MU_MAX_DYNAMIC_DISPLAY_NAME_LENGTH" "mu_dynamic_string_nodeid_fits (dn_id x)"
    and new: "space' = add_node_entry x space"
    and added: "added_node_id res = load_nodeid (string_nodeid_storage space') (sn_node_id (dyn_nodes space' ! nodes_count space))"
    using True assms(3)
    by (auto simp: add_node_def given no_node_added_def Let_def browse_def display_def x_def add_node_entry_def split: if_splits)
  have "valid_string display"
    using display_name_valid [of item] assms(2) given by (auto simp: display_def browse_def add_node_item_ok_def split: option.split)
  then have x: "node_fits x"
    using assms(2) fit by (simp add: node_fits_def x_def browse_def add_node_item_ok_def assign_node_id_valid)
  show ?thesis
    by (rule that(2) [OF True x room new])
      (simp_all add: added new add_node_good [OF assms(1) room x], simp_all add: x_def browse_def)
qed

lemma add_node_inv: "\<lbrakk>dyn_inv space; add_node_item_ok item\<rbrakk> \<Longrightarrow> dyn_inv (snd (add_node item space))"
  by (cases "add_node item space", rule add_node_cases [of space item]) (auto intro!: node_table.inv_add)

lemma add_reference_put:
  "add_reference item space =
    (if MU_MAX_DYNAMIC_REFERENCES \<le> references_count space \<or> \<not> mu_dynamic_reference_nodeids_fit item then (MU_STATUS_BAD_OUTOFMEMORY, space)
     else (MU_STATUS_GOOD, add_reference_entry \<lparr>de_source = ar_source item,
       de_ref = \<lparr>reference_type_id = ar_type item, target_id = exp_node_id (ar_target item), is_forward = ar_forward item\<rparr>\<rparr> space))"
  by (simp add: add_reference_def add_reference_entry_def)

lemma add_reference_inv:
  assumes "dyn_inv space" "add_reference_item_ok item"
  shows "dyn_inv (snd (add_reference item space))"
  using assms reference_table.inv_add [of space]
  by (auto simp: add_reference_put reference_fits_def mu_dynamic_reference_nodeids_fit_def add_reference_item_ok_def)

lemma touches_slot:
  "slot_reference_touches space nid r = touches nid (load_reference space r)"
  by (simp add: slot_reference_touches_def touches_def load_reference_def)

lemma matches_slot:
  "slot_reference_matches space item r = matches_item item (load_reference space r)"
  by (simp add: slot_reference_matches_def matches_item_def load_reference_def)

text \<open>The deletion loop on the slots is the one on the entries by value.\<close>

lemma delete_references_of_entries:
  "dyn_inv space \<Longrightarrow> dyn_inv (delete_references_of nid i space) \<and> node_entries (delete_references_of nid i space) = node_entries space \<and>
     reference_entries (delete_references_of nid i space) = purge_list (touches nid) i (reference_entries space)"
proof (induction nid i space rule: delete_references_of.induct)
  case (1 nid i space)
  have at: "touches nid (reference_entries space ! i) = slot_reference_touches space nid (dyn_references space ! i)" if "i < references_count space"
    using that "1.prems" by (simp add: touches_slot nth_entries dyn_inv_def)
  have len: "length (reference_entries space) = references_count space" using "1.prems" by simp
  show ?case
  proof (cases "i < references_count space")
    case False
    then show ?thesis using "1.prems" len by (simp add: delete_references_of.simps [of nid i space] purge_list.simps [of _ i])
  next
    case True
    note step = reference_table.inv_remove [OF "1.prems", of i] reference_table.entries_remove [OF "1.prems", of i]
      tables_independent(4) [OF "1.prems" True]
    show ?thesis
      using True "1.IH" "1.prems" step len at
      by (simp add: delete_references_of.simps [of nid i space] purge_list.simps [of _ i "reference_entries space"])
  qed
qed

lemma delete_node_cases:
  assumes "dyn_inv space" "delete_node item space = (st, space')"
  obtains "st = MU_STATUS_BAD_NODEIDUNKNOWN" "space' = space" "\<forall>x \<in> set (node_entries space). \<not> mu_nodeid_equal (dn_id x) (xn_node_id item)"
  | j where "st = MU_STATUS_GOOD" "j < length (node_entries space)" "mu_nodeid_equal (dn_id (node_entries space ! j)) (xn_node_id item)"
      "dyn_inv space'" "node_entries space' = swap_remove j (node_entries space)"
      "reference_entries space' = purge_list (touches (xn_node_id item)) 0 (reference_entries space)"
proof -
  let ?P = "\<lambda>x. mu_nodeid_equal (dn_id x) (xn_node_id item)"
  have at: "slot_node_has_id space (xn_node_id item) = (\<lambda>n. ?P (load_node space n))"
    by (simp add: fun_eq_iff slot_node_has_id_def load_node_def)
  then have same: "find_index (slot_node_has_id space (xn_node_id item)) (take (nodes_count space) (dyn_nodes space)) = find_index ?P (node_entries space)"
    by (simp add: node_entries_def find_index_map)
  show ?thesis
  proof (cases "find_index ?P (node_entries space)")
    case None
    moreover have "\<forall>x \<in> set (node_entries space). \<not> ?P x" using None by (simp only: find_index_None_iff)
    ultimately show ?thesis using assms(2) that(1) by (simp add: delete_node_def same)
  next
    case (Some j)
    then have j: "j < length (node_entries space)" "?P (node_entries space ! j)" using find_index_SomeD by fastforce+
    let ?t = "dynamic_remove_node j space"
    have t: "dyn_inv ?t" "node_entries ?t = swap_remove j (node_entries space)" using node_table_remove [OF assms(1) j(1)] .
    have r: "reference_entries ?t = reference_entries space" using tables_independent(3) [OF assms(1)] j assms(1) by simp
    have "st = MU_STATUS_GOOD" "space' = delete_references_of (xn_node_id item) 0 ?t"
      using assms(2) Some by (simp_all add: delete_node_def same)
    then show ?thesis using that(2) [OF _ j] delete_references_of_entries [OF t(1), of "xn_node_id item" 0] t r by simp
  qed
qed

lemma delete_node_inv: "dyn_inv space \<Longrightarrow> dyn_inv (snd (delete_node item space))"
  by (cases "delete_node item space", rule delete_node_cases [of space item]) auto

lemma delete_reference_entries:
  assumes "dyn_inv space"
  shows "dyn_inv (snd (delete_reference item space))"
    "node_entries (snd (delete_reference item space)) = node_entries space"
    "reference_entries (snd (delete_reference item space)) =
      (case find_index (matches_item item) (reference_entries space) of
         None \<Rightarrow> reference_entries space | Some j \<Rightarrow> swap_remove j (reference_entries space))"
proof -
  have same: "find_index (slot_reference_matches space item) (take (references_count space) (dyn_references space)) =
      find_index (matches_item item) (reference_entries space)"
    by (simp add: reference_entries_def find_index_map matches_slot [abs_def])
  have "dyn_inv (snd (delete_reference item space)) \<and> node_entries (snd (delete_reference item space)) = node_entries space \<and>
      reference_entries (snd (delete_reference item space)) = (case find_index (matches_item item) (reference_entries space) of
         None \<Rightarrow> reference_entries space | Some j \<Rightarrow> swap_remove j (reference_entries space))"
  proof (cases "find_index (matches_item item) (reference_entries space)")
    case None
    then show ?thesis using assms by (simp add: delete_reference_def same)
  next
    case (Some j)
    then have "j < length (reference_entries space)" using find_index_SomeD by fastforce
    then show ?thesis
      using assms Some tables_independent(4) [OF assms, of j] reference_table_remove [OF assms, of j] by (simp add: delete_reference_def same)
  qed
  then show "dyn_inv (snd (delete_reference item space))" "node_entries (snd (delete_reference item space)) = node_entries space"
    "reference_entries (snd (delete_reference item space)) = (case find_index (matches_item item) (reference_entries space) of
         None \<Rightarrow> reference_entries space | Some j \<Rightarrow> swap_remove j (reference_entries space))" by simp_all
qed

lemma process_items_inv:
  "\<lbrakk>list_all Q items; P s; \<And>x s. Q x \<Longrightarrow> P s \<Longrightarrow> P (snd (f x s))\<rbrakk> \<Longrightarrow> P (snd (process_items f items s))"
  by (induction f items s rule: process_items.induct) (auto split: prod.splits, metis snd_conv)

lemma example_space_entries:
  "dyn_inv example_space" "node_entries example_space = [example_dyn_node]" "reference_entries example_space = [example_dyn_reference]"
proof -
  have n: "node_fits example_dyn_node"
    by (simp add: node_fits_def example_dyn_node_def example_id_def valid_nodeid_def valid_string_def mk_string_def
      MU_MAX_ENCODED_STRING_LENGTH_def mu_dynamic_string_fits_def mu_dynamic_string_nodeid_fits_def nodeid_string_fits_def dyn_limits)
  have r: "reference_fits example_dyn_reference"
    by (simp add: reference_fits_def example_dyn_reference_def example_id_def valid_nodeid_def ns0_def
      mu_dynamic_reference_string_nodeid_fits_def nodeid_string_fits_def)
  let ?s = "add_node_entry example_dyn_node zero_dynamic_space"
  have s: "dyn_inv ?s" "node_entries ?s = [example_dyn_node]" "reference_entries ?s = []"
    using node_table_add [OF zero_dynamic_space_inv _ n] by (simp_all add: dyn_limits tables_independent)
  show "dyn_inv example_space" "node_entries example_space = [example_dyn_node]" "reference_entries example_space = [example_dyn_reference]"
    using reference_table_add [OF s(1) _ r] s by (simp_all add: example_space_def dyn_limits tables_independent)
qed

section \<open>Properties\<close>



text \<open>C9: DeleteNodes removes the first node with the identifier (the last node takes its place) and
  afterwards exactly the references that have it as source or target are gone; all other entries
  keep their values although their bytes move between storage rows.  Without such a node nothing
  changes.\<close>

theorem delete_node_purges:
  assumes "dyn_inv space" "delete_node item space = (st, space')"
  shows "dyn_inv space' \<and>
    (if st = MU_STATUS_GOOD
     then \<exists>j < length (node_entries space). mu_nodeid_equal (dn_id (node_entries space ! j)) (xn_node_id item) \<and>
            mset (node_entries space') = mset (node_entries space) - {#node_entries space ! j#} \<and>
            mset (reference_entries space') = filter_mset (\<lambda>e. \<not> touches (xn_node_id item) e) (mset (reference_entries space))
     else space' = space \<and> \<not> (\<exists>x. x \<in> set (node_entries space) \<and> mu_nodeid_equal (dn_id x) (xn_node_id item)))"
proof (rule delete_node_cases [OF assms])
  fix j assume j: "st = MU_STATUS_GOOD" "j < length (node_entries space)" "mu_nodeid_equal (dn_id (node_entries space ! j)) (xn_node_id item)"
      "dyn_inv space'" "node_entries space' = swap_remove j (node_entries space)"
      "reference_entries space' = purge_list (touches (xn_node_id item)) 0 (reference_entries space)"
  show ?thesis
    using j mset_swap_remove [OF j(2)] purge_list_filter [of 0 "reference_entries space" "touches (xn_node_id item)"] by auto
qed (use assms(1) in auto)

theorem delete_node_purges_witness:
  "fst (delete_node \<lparr>xn_node_id = example_id, xn_delete_target_references = True\<rparr> example_space) = MU_STATUS_GOOD \<and>
   node_entries (snd (delete_node \<lparr>xn_node_id = example_id, xn_delete_target_references = True\<rparr> example_space)) = [] \<and>
   reference_entries (snd (delete_node \<lparr>xn_node_id = example_id, xn_delete_target_references = True\<rparr> example_space)) = []"
proof -
  have "mu_nodeid_equal (dn_id example_dyn_node) example_id" "touches example_id example_dyn_reference"
    by (simp_all add: example_dyn_node_def example_id_def mu_nodeid_equal_def touches_def example_dyn_reference_def)
  then show ?thesis
    using delete_node_purges [OF example_space_entries(1) prod.collapse [symmetric], of "\<lparr>xn_node_id = example_id, xn_delete_target_references = True\<rparr>"]
    by (auto simp: example_space_entries split: if_splits)
qed

end
