(* ===== verification/Uadp.thy ===== *)
theory Uadp
  imports Binary_Variant
begin

text \<open>
  The UADP network messages of the PubSub publisher and subscriber
  (\<^verbatim>\<open>src/encoding/uadp_encoder.c\<close>, \<^verbatim>\<open>include/muc_opcua/pubsub.h\<close>).  The encoder calls the
  writers without looking at their results and tests only the latched status at the end;
  \<open>wrun\<close> is that sequence of calls.
\<close>

section \<open>Messages\<close>

definition MU_PUBSUB_MAX_FIELDS :: nat where "MU_PUBSUB_MAX_FIELDS = 8"

record mu_pubsub_connection =
  pubsub_port :: u16
  pubsub_enabled :: bool
  publisher_id :: u32
  pubsub_address :: "byte list option"

record mu_pubsub_dataset_writer =
  data_set_writer_id :: u16
  ds_fields :: "mu_variant list option"
  field_count :: nat

record mu_pubsub_writer_group =
  writer_group_id :: u16
  wg_publishing_interval_ms :: u32
  last_publish_time_ms :: u32
  dataset_writer :: mu_pubsub_dataset_writer

record mu_pubsub_received_message =
  rm_publisher_id :: u32
  rm_data_set_writer_id :: u16
  rm_fields :: "mu_variant list"

definition MU_UADP_FLAGS_VERSION1 :: byte where "MU_UADP_FLAGS_VERSION1 = 0x01"
definition MU_UADP_FLAGS_PUBLISHER_ID :: byte where "MU_UADP_FLAGS_PUBLISHER_ID = 0x10"
definition MU_UADP_FLAGS_PAYLOAD_HEADER :: byte where "MU_UADP_FLAGS_PAYLOAD_HEADER = 0x40"
definition MU_UADP_FLAGS_EXTENDED_FLAGS1 :: byte where "MU_UADP_FLAGS_EXTENDED_FLAGS1 = 0x80"
definition MU_UADP_PUBLISHER_ID_UINT32 :: byte where "MU_UADP_PUBLISHER_ID_UINT32 = 0x02"
definition MU_UADP_EXTENDED_FLAGS1_SECURITY_HEADER :: byte where "MU_UADP_EXTENDED_FLAGS1_SECURITY_HEADER = 0x10"
definition MU_UADP_DATASET_FLAGS_VALID_VARIANT :: byte where "MU_UADP_DATASET_FLAGS_VALID_VARIANT = 0x01"

definition MU_UADP_SUPPORTED_NETWORK_FLAGS :: byte where
  "MU_UADP_SUPPORTED_NETWORK_FLAGS = MU_UADP_FLAGS_VERSION1 OR MU_UADP_FLAGS_PUBLISHER_ID OR
     MU_UADP_FLAGS_PAYLOAD_HEADER OR MU_UADP_FLAGS_EXTENDED_FLAGS1"

fun mu_pubsub_variant_is_supported_scalar :: "mu_variant \<Rightarrow> bool" where
  "mu_pubsub_variant_is_supported_scalar (VArray _ _ _) = False"
| "mu_pubsub_variant_is_supported_scalar _ = True"

definition mu_uadp_variant_encoding_is_unsupported :: "byte \<Rightarrow> bool" where
  "mu_uadp_variant_encoding_is_unsupported encoding_mask \<longleftrightarrow>
     encoding_mask AND 0xC0 \<noteq> 0 \<or>
     encoding_mask AND 0x3F \<in> type_code ` {MU_TYPE_GUID, MU_TYPE_XMLELEMENT, MU_TYPE_EXPANDEDNODEID,
       MU_TYPE_EXTENSIONOBJECT, MU_TYPE_DATAVALUE, MU_TYPE_VARIANT, MU_TYPE_DIAGNOSTICINFO}"

section \<open>Encoding\<close>

primrec wrun :: "wr list \<Rightarrow> mu_binary_writer \<Rightarrow> mu_binary_writer" where
  "wrun [] w = w"
| "wrun (m # ms) w = wrun ms (snd (m w))"

definition mu_pubsub_patch_u16 :: "nat \<Rightarrow> u16 \<Rightarrow> byte list \<Rightarrow> byte list" where
  "mu_pubsub_patch_u16 offset v buffer = overwrite buffer offset (mu_binary_le_put_u16 v)"

definition uadp_header :: "mu_pubsub_connection \<Rightarrow> mu_pubsub_dataset_writer \<Rightarrow> wr list" where
  "uadp_header conn dsw =
     [mu_binary_write_byte (MU_UADP_FLAGS_VERSION1 OR MU_UADP_FLAGS_PUBLISHER_ID OR
        MU_UADP_FLAGS_PAYLOAD_HEADER OR MU_UADP_FLAGS_EXTENDED_FLAGS1),
      mu_binary_write_byte MU_UADP_PUBLISHER_ID_UINT32,
      mu_binary_write_uint32 (publisher_id conn),
      mu_binary_write_byte 1,
      mu_binary_write_uint16 (data_set_writer_id dsw)]"

definition mu_encode_uadp_network_message ::
    "mu_pubsub_connection \<Rightarrow> mu_pubsub_writer_group \<Rightarrow> byte list \<Rightarrow> nat \<Rightarrow> (statuscode + nat) \<times> byte list" where
  "mu_encode_uadp_network_message conn wg buffer size' =
    (let dsw = dataset_writer wg; vs = take (field_count dsw) (the (ds_fields dsw)) in
     if MU_PUBSUB_MAX_FIELDS < field_count dsw then (Inl MU_STATUS_BAD_TOOMANYOPERATIONS, buffer)
     else if 0 < field_count dsw \<and> ds_fields dsw = None then (Inl MU_STATUS_BAD_INVALIDARGUMENT, buffer)
     else if \<not> list_all mu_pubsub_variant_is_supported_scalar vs
     then (Inl MU_STATUS_BAD_NOTSUPPORTED, buffer)
     else
     let w1 = wrun (uadp_header conn dsw) (mu_binary_writer_init (Some buffer) size');
         w2 = snd (mu_binary_write_uint16 0 w1);
         w3 = wrun (mu_binary_write_byte MU_UADP_DATASET_FLAGS_VALID_VARIANT #
                map mu_binary_write_variant vs) w2;
         message_size = wr_position w3 - wr_position w2 in
     if wr_status w3 \<noteq> MU_STATUS_GOOD then (Inl (wr_status w3), the (wr_buffer w3))
     else if 0xFFFF < message_size then (Inl MU_STATUS_BAD_ENCODINGLIMITSEXCEEDED, the (wr_buffer w3))
     else (Inr (wr_position w3), mu_pubsub_patch_u16 (wr_position w1) (of_nat message_size) (the (wr_buffer w3))))"

section \<open>Decoding\<close>

text \<open>The field loop, by the number of fields there is still room for.\<close>

definition uadp_decode_field :: "mu_variant rd" where
  "uadp_decode_field r =
    (if mu_uadp_variant_encoding_is_unsupported (hd (rd_at r)) then (Inl MU_STATUS_BAD_NOTSUPPORTED, r)
     else case mu_binary_read_variant r of
         (Inl _, r) \<Rightarrow> (Inl MU_STATUS_BAD_DECODINGERROR, r)
       | (Inr v, r) \<Rightarrow> (Inr v, r))"

primrec uadp_decode_fields :: "nat \<Rightarrow> mu_variant list rd" where
  "uadp_decode_fields 0 r =
    (if rd_position r < rd_length r then (Inl MU_STATUS_BAD_TOOMANYOPERATIONS, r) else (Inr [], r))"
| "uadp_decode_fields (Suc n) r =
    (if rd_position r < rd_length r
     then rbind uadp_decode_field (\<lambda>v. rbind (uadp_decode_fields n) (\<lambda>vs. rreturn (v # vs))) r
     else (Inr [], r))"

text \<open>Every failed read of the header is reported as a decoding error.\<close>

definition uadp_read :: "'a rd \<Rightarrow> 'a rd" where
  "uadp_read m r = (case m r of (Inl _, r) \<Rightarrow> (Inl MU_STATUS_BAD_DECODINGERROR, r) | (Inr x, r) \<Rightarrow> (Inr x, r))"

definition uadp_expect :: "bool \<Rightarrow> unit rd" where
  "uadp_expect c = (if c then rreturn () else rfail MU_STATUS_BAD_NOTSUPPORTED)"

definition uadp_decode_header :: "(u32 \<times> u16 \<times> u16) rd" where
  "uadp_decode_header =
     rbind (uadp_read mu_binary_read_byte) (\<lambda>flags.
     rbind (uadp_expect (flags = MU_UADP_SUPPORTED_NETWORK_FLAGS)) (\<lambda>_.
     rbind (uadp_read mu_binary_read_byte) (\<lambda>extended_flags1.
     rbind (uadp_expect (extended_flags1 AND MU_UADP_EXTENDED_FLAGS1_SECURITY_HEADER = 0)) (\<lambda>_.
     rbind (uadp_expect (extended_flags1 = MU_UADP_PUBLISHER_ID_UINT32)) (\<lambda>_.
     rbind (uadp_read mu_binary_read_uint32) (\<lambda>pub.
     rbind (uadp_read mu_binary_read_byte) (\<lambda>payload_count.
     rbind (uadp_expect (payload_count = 1)) (\<lambda>_.
     rbind (uadp_read mu_binary_read_uint16) (\<lambda>dswid.
     rbind (uadp_read mu_binary_read_uint16) (\<lambda>dsize.
       rreturn (pub, dswid, dsize)))))))))))"

definition mu_decode_uadp_network_message :: "byte list \<Rightarrow> nat \<Rightarrow> nat \<Rightarrow> statuscode + mu_pubsub_received_message" where
  "mu_decode_uadp_network_message buffer size' field_capacity =
    (case uadp_decode_header (mu_binary_reader_init (Some buffer) size') of
       (Inl st, _) \<Rightarrow> Inl st
     | (Inr (pub, dswid, dsize), r) \<Rightarrow>
         if unat dsize \<noteq> rd_length r - rd_position r then Inl MU_STATUS_BAD_DECODINGERROR
         else
         case rbind (uadp_read mu_binary_read_byte) (\<lambda>flags1.
                rbind (uadp_expect (flags1 = MU_UADP_DATASET_FLAGS_VALID_VARIANT)) (\<lambda>_.
                  uadp_decode_fields (min field_capacity MU_PUBSUB_MAX_FIELDS)))
              (mu_binary_reader_init (Some (drop (rd_position r) buffer)) (unat dsize)) of
           (Inl st, _) \<Rightarrow> Inl st
         | (Inr vs, d) \<Rightarrow>
             if rd_position d \<noteq> rd_length d then Inl MU_STATUS_BAD_DECODINGERROR
             else Inr \<lparr>rm_publisher_id = pub, rm_data_set_writer_id = dswid, rm_fields = vs\<rparr>)"

text \<open>The bytes of a message.\<close>

definition uadp_head :: "mu_pubsub_connection \<Rightarrow> mu_pubsub_dataset_writer \<Rightarrow> byte list" where
  "uadp_head conn dsw = [MU_UADP_SUPPORTED_NETWORK_FLAGS, MU_UADP_PUBLISHER_ID_UINT32] @
     mu_binary_le_put_u32 (publisher_id conn) @ [1] @ mu_binary_le_put_u16 (data_set_writer_id dsw)"

definition uadp_bytes :: "mu_pubsub_connection \<Rightarrow> mu_pubsub_dataset_writer \<Rightarrow> mu_variant list \<Rightarrow> byte list" where
  "uadp_bytes conn dsw vs =
    (let body = MU_UADP_DATASET_FLAGS_VALID_VARIANT # concat (map enc_variant vs) in
     uadp_head conn dsw @ mu_binary_le_put_u16 (of_nat (length body)) @ body)"


definition example_group :: mu_pubsub_writer_group where
  "example_group = \<lparr>writer_group_id = 1, wg_publishing_interval_ms = 100, last_publish_time_ms = 0,
     dataset_writer = \<lparr>data_set_writer_id = 7, ds_fields = Some [VScalar (V_UInt16 5), VNull], field_count = 2\<rparr>\<rparr>"


section \<open>Encoding\<close>

lemma wrun_append: "wrun (as @ bs) w = wrun bs (wrun as w)"
  by (induction as arbitrary: w) auto

lemma wrun_emits:
  assumes "list_all2 wr_emits ms bss" "wr_ok w" "length (concat bss) \<le> wr_room w"
  shows "wrun ms w = wr_put (concat bss) w"
  using assms
proof (induction arbitrary: w rule: list_all2_induct)
  case Nil
  thus ?case by simp
next
  case (Cons m ms bs bss)
  hence m: "m w = (MU_STATUS_GOOD, wr_put bs w)" by (auto simp: wr_emits_def)
  have "wrun ms (wr_put bs w) = wr_put (concat bss) (wr_put bs w)"
    using Cons.prems by (intro Cons.IH) (auto simp: wr_ok_put)
  thus ?case using m Cons.prems by (simp add: wr_put_put)
qed

lemma emits_uadp_header:
  "list_all2 wr_emits (uadp_header conn dsw)
     [[MU_UADP_SUPPORTED_NETWORK_FLAGS], [MU_UADP_PUBLISHER_ID_UINT32], mu_binary_le_put_u32 (publisher_id conn), [1],
      mu_binary_le_put_u16 (data_set_writer_id dsw)]"
  by (simp add: uadp_header_def MU_UADP_SUPPORTED_NETWORK_FLAGS_def emits_primitives)

lemma emits_fields: "list_all valid_variant vs \<Longrightarrow> list_all2 wr_emits (map mu_binary_write_variant vs) (map enc_variant vs)"
  by (induction vs) (auto simp: c_variant.wrt_emits)

lemma valid_is_supported: "valid_variant v \<Longrightarrow> mu_pubsub_variant_is_supported_scalar v"
  by (cases v) auto

lemma overwrite_patch:
  assumes "length h + length z + length b \<le> length xs" "length y = length z"
  shows "overwrite (overwrite xs 0 (h @ z @ b)) (length h) y = overwrite xs 0 (h @ y @ b)"
  using assms by (simp add: overwrite_def)

lemma length_uadp_head [simp]: "length (uadp_head conn dsw) = 9"
  by (simp add: uadp_head_def)

lemma writer_init_ok:
  assumes "size' \<le> length buffer" "w = mu_binary_writer_init (Some buffer) size'"
  shows "wr_ok w" "wr_room w = size'" "wr_position w = 0" "wr_buffer w = Some buffer" "wr_status w = MU_STATUS_GOOD"
  using assms by (simp_all add: mu_binary_writer_init_def wr_ok_def wr_wf_def wr_room_def)

lemma wrun_uadp_head:
  assumes "wr_ok w" "11 \<le> wr_room w"
  shows "wrun (uadp_header conn dsw) w = wr_put (uadp_head conn dsw) w"
    "snd (mu_binary_write_uint16 0 (wr_put (uadp_head conn dsw) w)) = wr_put (uadp_head conn dsw @ [0, 0]) w"
proof -
  show "wrun (uadp_header conn dsw) w = wr_put (uadp_head conn dsw) w"
    using wrun_emits [OF emits_uadp_header assms(1), of conn dsw] assms(2) by (simp add: uadp_head_def)
  have "wr_ok (wr_put (uadp_head conn dsw) w)" "wr_room (wr_put (uadp_head conn dsw) w) = wr_room w - 9"
    using assms by (auto simp: wr_ok_put)
  thus "snd (mu_binary_write_uint16 0 (wr_put (uadp_head conn dsw) w)) = wr_put (uadp_head conn dsw @ [0, 0]) w"
    using c_uint16.wrt_emits [of 0] assms by (auto simp: wr_emits_def wr_put_put mu_binary_le_put_u16_def)
qed

text \<open>The end of the encoder, once all fields have been written as the bytes \<open>b\<close>.\<close>

lemma encode_uadp_body:
  assumes "ds_fields dsw = Some vs" "field_count dsw = length vs" "dataset_writer wg = dsw"
    and "list_all mu_pubsub_variant_is_supported_scalar vs" "length vs \<le> MU_PUBSUB_MAX_FIELDS"
    and "w = mu_binary_writer_init (Some buffer) size'" "size' \<le> length buffer"
    and "11 + length b \<le> size'" "length b \<le> 0xFFFF"
    and "wrun (mu_binary_write_byte MU_UADP_DATASET_FLAGS_VALID_VARIANT # map mu_binary_write_variant vs)
      (wr_put (uadp_head conn dsw @ [0, 0]) w) = wr_put (uadp_head conn dsw @ [0, 0] @ b) w"
  shows "mu_encode_uadp_network_message conn wg buffer size' =
    (Inr (11 + length b), overwrite buffer 0 (uadp_head conn dsw @ mu_binary_le_put_u16 (of_nat (length b)) @ b))"
proof -
  note w = writer_init_ok [OF assms(7,6)]
  have "11 \<le> wr_room w" using w(2) assms(8) by simp
  note head = wrun_uadp_head [OF w(1) this]
  have "mu_pubsub_patch_u16 9 (of_nat (length b)) (overwrite buffer 0 (uadp_head conn dsw @ [0, 0] @ b)) =
      overwrite buffer 0 (uadp_head conn dsw @ mu_binary_le_put_u16 (of_nat (length b)) @ b)"
    using overwrite_patch [of "uadp_head conn dsw" "[0, 0]" b buffer "mu_binary_le_put_u16 (of_nat (length b))"] assms(7,8)
    by (simp add: mu_pubsub_patch_u16_def)
  thus ?thesis
    using assms(1-5,9) by (simp add: mu_encode_uadp_network_message_def assms(6) [symmetric] head assms(10) Let_def w del: wrun.simps)
qed

lemma encode_uadp:
  assumes "ds_fields dsw = Some vs" "field_count dsw = length vs" "dataset_writer wg = dsw"
    and "list_all valid_variant vs" "length vs \<le> MU_PUBSUB_MAX_FIELDS"
    and "length (uadp_bytes conn dsw vs) \<le> size'" "size' \<le> length buffer"
    and "length (concat (map enc_variant vs)) < 0xFFFF"
  shows "mu_encode_uadp_network_message conn wg buffer size' =
    (Inr (length (uadp_bytes conn dsw vs)), overwrite buffer 0 (uadp_bytes conn dsw vs))"
proof -
  define b where "b = MU_UADP_DATASET_FLAGS_VALID_VARIANT # concat (map enc_variant vs)"
  define w where "w = mu_binary_writer_init (Some buffer) size'"
  note w = writer_init_ok [OF assms(7) w_def]
  have bytes: "uadp_bytes conn dsw vs = uadp_head conn dsw @ mu_binary_le_put_u16 (of_nat (length b)) @ b"
    by (simp add: uadp_bytes_def b_def)
  have len: "11 + length b \<le> size'" "length b \<le> 0xFFFF" using assms(6,8) by (simp_all add: bytes) (simp add: b_def)
  have ok: "wr_ok (wr_put (uadp_head conn dsw @ [0, 0]) w)" using w len by (auto simp: wr_ok_put)
  have "wrun (mu_binary_write_byte MU_UADP_DATASET_FLAGS_VALID_VARIANT # map mu_binary_write_variant vs)
      (wr_put (uadp_head conn dsw @ [0, 0]) w) = wr_put b (wr_put (uadp_head conn dsw @ [0, 0]) w)"
    using wrun_emits [of "mu_binary_write_byte MU_UADP_DATASET_FLAGS_VALID_VARIANT # map mu_binary_write_variant vs"
        "[MU_UADP_DATASET_FLAGS_VALID_VARIANT] # map enc_variant vs", OF _ ok] emits_fields [OF assms(4)] len w
    by (simp add: emits_primitives b_def)
  hence "wrun (mu_binary_write_byte MU_UADP_DATASET_FLAGS_VALID_VARIANT # map mu_binary_write_variant vs)
      (wr_put (uadp_head conn dsw @ [0, 0]) w) = wr_put (uadp_head conn dsw @ [0, 0] @ b) w"
    using w len by (simp add: wr_put_put)
  moreover have "list_all mu_pubsub_variant_is_supported_scalar vs"
    using assms(4) by (induction vs) (auto simp: valid_is_supported)
  ultimately show ?thesis using encode_uadp_body [OF assms(1-3) _ assms(5) w_def assms(7) len] by (simp add: bytes)
qed

section \<open>Decoding\<close>

lemma accepts_uadp_read: "rd_accepts m bs x \<Longrightarrow> rd_accepts (uadp_read m) bs x"
  by (simp add: rd_accepts_def uadp_read_def)

lemma accepts_then_uadp_read:
  "rd_accepts m as x \<Longrightarrow> rd_accepts (f x) bs y \<Longrightarrow> rd_accepts (rbind (uadp_read m) f) (as @ bs) y"
  by (rule rd_accepts_bind [OF accepts_uadp_read]) auto

lemma accepts_then_expect: "rd_accepts (f ()) bs y \<Longrightarrow> c \<Longrightarrow> rd_accepts (rbind (uadp_expect c) f) bs y"
  using rd_accepts_bind [OF rd_accepts_return [of "()"], of f bs y] by (simp add: uadp_expect_def)

lemma accepts_uadp_header:
  "rd_accepts uadp_decode_header (uadp_head conn dsw @ mu_binary_le_put_u16 n) (publisher_id conn, data_set_writer_id dsw, n)"
proof -
  have "rd_accepts uadp_decode_header ([MU_UADP_SUPPORTED_NETWORK_FLAGS] @ [MU_UADP_PUBLISHER_ID_UINT32] @
     mu_binary_le_put_u32 (publisher_id conn) @ [1] @ mu_binary_le_put_u16 (data_set_writer_id dsw) @
     mu_binary_le_put_u16 n @ []) (publisher_id conn, data_set_writer_id dsw, n)"
    unfolding uadp_decode_header_def
    by (rule accepts_then_uadp_read accepts_then_expect accepts_primitives rd_accepts_return refl |
        simp add: MU_UADP_PUBLISHER_ID_UINT32_def MU_UADP_EXTENDED_FLAGS1_SECURITY_HEADER_def)+
  thus ?thesis by (simp add: uadp_head_def)
qed

lemma enc_variant_start: "valid_variant v \<Longrightarrow> \<exists>t xs. enc_variant v = t # xs \<and> \<not> mu_uadp_variant_encoding_is_unsupported t"
proof (cases v)
  case (VScalar x)
  thus ?thesis by (cases x) (auto simp: mu_uadp_variant_encoding_is_unsupported_def)
qed (auto simp: mu_uadp_variant_encoding_is_unsupported_def)

lemma accepts_uadp_field:
  assumes "valid_variant v"
  shows "rd_accepts uadp_decode_field (enc_variant v) v"
  unfolding rd_accepts_def
proof (intro allI impI)
  fix r rest assume r: "rd_ok r" "rd_rest r = enc_variant v @ rest"
  obtain t xs where t: "enc_variant v = t # xs" "\<not> mu_uadp_variant_encoding_is_unsupported t"
    using enc_variant_start [OF assms] by blast
  have "take 1 (rd_at r) = take 1 (rd_rest r)" using rd_at_rest [OF r(1), of 1] r(2) t(1) by simp
  hence "hd (rd_at r) = t" using r(2) t(1) by (cases "rd_at r") auto
  moreover have "mu_binary_read_variant r = (Inr v, rd_skip (length (enc_variant v)) r)"
    using rd_acceptsD [OF c_variant.rdr_accepts [OF assms] r] .
  ultimately show "uadp_decode_field r = (Inr v, rd_skip (length (enc_variant v)) r)"
    using t(2) by (simp add: uadp_decode_field_def)
qed

lemma uadp_decode_fields_exact:
  assumes "list_all valid_variant vs" "length vs \<le> n" "rd_ok r" "rd_rest r = concat (map enc_variant vs)"
  shows "uadp_decode_fields n r = (Inr vs, rd_skip (length (rd_rest r)) r)"
  using assms
proof (induction vs arbitrary: n r)
  case Nil
  hence "\<not> rd_position r < rd_length r" using length_rd_rest [of r] by simp
  thus ?case using Nil by (cases n) auto
next
  case (Cons v vs)
  then obtain k where k: "n = Suc k" by (cases n) auto
  have v: "valid_variant v" using Cons.prems by simp
  have "uadp_decode_field r = (Inr v, rd_skip (length (enc_variant v)) r)"
    using rd_acceptsD [OF accepts_uadp_field [OF v] Cons.prems(3)] Cons.prems(4) by simp
  moreover have "uadp_decode_fields k (rd_skip (length (enc_variant v)) r) =
      (Inr vs, rd_skip (length (concat (map enc_variant vs))) (rd_skip (length (enc_variant v)) r))"
    using Cons.IH [of k "rd_skip (length (enc_variant v)) r"] Cons.prems k by (simp add: rd_ok_skip)
  moreover have "rd_position r < rd_length r"
    using Cons.prems(3,4) length_rd_rest [of r] enc_variant_start [OF v] by auto
  ultimately show ?case using k Cons.prems(4) by (simp add: rbind_def rreturn_def)
qed

lemma reader_init_ok:
  "n \<le> length bs \<Longrightarrow> rd_ok (mu_binary_reader_init (Some bs) n) \<and> rd_rest (mu_binary_reader_init (Some bs) n) = take n bs"
  by (simp add: mu_binary_reader_init_def rd_ok_def rd_wf_def rd_rest_def)

text \<open>The start of the decoder: the header is taken and the reader stands behind the flags of
  the data set message.\<close>

lemma decode_uadp_body:
  assumes "n = 11 + length b" "n \<le> length buf" "length b \<le> 0xFFFF" "b = MU_UADP_DATASET_FLAGS_VALID_VARIANT # cs"
    and "take n buf = uadp_head conn dsw @ mu_binary_le_put_u16 (of_nat (length b)) @ b"
  obtains d where "rd_ok d" "rd_rest d = cs" "rd_position d + length cs = rd_length d"
    "mu_decode_uadp_network_message buf n cap =
      (case uadp_decode_fields (min cap MU_PUBSUB_MAX_FIELDS) d of
           (Inl st, _) \<Rightarrow> Inl st
         | (Inr vs, d) \<Rightarrow>
             if rd_position d \<noteq> rd_length d then Inl MU_STATUS_BAD_DECODINGERROR
             else Inr \<lparr>rm_publisher_id = publisher_id conn, rm_data_set_writer_id = data_set_writer_id dsw, rm_fields = vs\<rparr>)"
proof -
  define r where "r = mu_binary_reader_init (Some buf) n"
  have r: "rd_ok r" "rd_rest r = (uadp_head conn dsw @ mu_binary_le_put_u16 (of_nat (length b))) @ b"
      "rd_position r = 0" "rd_length r = n"
    using reader_init_ok [OF assms(2)] assms(5) by (simp_all add: r_def mu_binary_reader_init_def)
  have head: "uadp_decode_header r = (Inr (publisher_id conn, data_set_writer_id dsw, of_nat (length b)), rd_skip 11 r)"
    using rd_acceptsD [OF accepts_uadp_header r(1,2)] by simp
  have size: "unat (of_nat (length b) :: u16) = length b" using assms(3) by (simp add: unat_of_nat)
  have data: "take (length b) (drop 11 buf) = b"
    using arg_cong [OF assms(5), of "drop 11"] assms(1) by (simp add: drop_take)
  define d where "d = mu_binary_reader_init (Some (drop 11 buf)) (length b)"
  have "length b \<le> length (drop 11 buf)" using assms(1,2) by simp
  hence d: "rd_ok d" "rd_rest d = b" "rd_position d = 0" "rd_length d = length b"
    using reader_init_ok [of "length b" "drop 11 buf"] data by (simp_all add: d_def mu_binary_reader_init_def)
  have flags: "uadp_read mu_binary_read_byte d = (Inr MU_UADP_DATASET_FLAGS_VALID_VARIANT, rd_skip 1 d)"
    using rd_acceptsD [OF accepts_uadp_read [OF c_byte.rdr_accepts] d(1), of MU_UADP_DATASET_FLAGS_VALID_VARIANT] d(2)
    by (simp add: assms(4))
  have k: "rd_length r - 11 = length b" using assms(1) r(4) by simp
  show ?thesis
  proof
    show "rd_ok (rd_skip 1 d)" "rd_rest (rd_skip 1 d) = cs" "rd_position (rd_skip 1 d) + length cs = rd_length (rd_skip 1 d)"
      using d assms(4) by (simp_all add: rd_ok_skip)
    show "mu_decode_uadp_network_message buf n cap =
      (case uadp_decode_fields (min cap MU_PUBSUB_MAX_FIELDS) (rd_skip 1 d) of
           (Inl st, _) \<Rightarrow> Inl st
         | (Inr vs, d) \<Rightarrow>
             if rd_position d \<noteq> rd_length d then Inl MU_STATUS_BAD_DECODINGERROR
             else Inr \<lparr>rm_publisher_id = publisher_id conn, rm_data_set_writer_id = data_set_writer_id dsw, rm_fields = vs\<rparr>)"
      using r(3) by (simp add: mu_decode_uadp_network_message_def r_def [symmetric] head size k d_def [symmetric] rbind_def flags
        uadp_expect_def rreturn_def)
  qed
qed

lemma decode_uadp:
  assumes "list_all valid_variant vs" "length vs \<le> cap" "length vs \<le> MU_PUBSUB_MAX_FIELDS"
    and "length (concat (map enc_variant vs)) < 0xFFFF"
    and "n = length (uadp_bytes conn dsw vs)" "n \<le> length buf" "take n buf = uadp_bytes conn dsw vs"
  shows "mu_decode_uadp_network_message buf n cap =
    Inr \<lparr>rm_publisher_id = publisher_id conn, rm_data_set_writer_id = data_set_writer_id dsw, rm_fields = vs\<rparr>"
proof -
  let ?cs = "concat (map enc_variant vs)" and ?b = "MU_UADP_DATASET_FLAGS_VALID_VARIANT # concat (map enc_variant vs)"
  have "n = 11 + length ?b" "length ?b \<le> 0xFFFF" "take n buf = uadp_head conn dsw @ mu_binary_le_put_u16 (of_nat (length ?b)) @ ?b"
    using assms(4,5,7) by (simp_all add: uadp_bytes_def Let_def)
  then obtain d where d: "rd_ok d" "rd_rest d = ?cs" "rd_position d + length ?cs = rd_length d"
    "mu_decode_uadp_network_message buf n cap =
      (case uadp_decode_fields (min cap MU_PUBSUB_MAX_FIELDS) d of
           (Inl st, _) \<Rightarrow> Inl st
         | (Inr vs, d) \<Rightarrow>
             if rd_position d \<noteq> rd_length d then Inl MU_STATUS_BAD_DECODINGERROR
             else Inr \<lparr>rm_publisher_id = publisher_id conn, rm_data_set_writer_id = data_set_writer_id dsw, rm_fields = vs\<rparr>)"
    using decode_uadp_body [of n ?b buf ?cs conn dsw cap] assms(6) by blast
  have "uadp_decode_fields (min cap MU_PUBSUB_MAX_FIELDS) d = (Inr vs, rd_skip (length ?cs) d)"
    using uadp_decode_fields_exact [OF assms(1) _ d(1,2), of "min cap MU_PUBSUB_MAX_FIELDS"] assms(2,3) d(2) by simp
  thus ?thesis using d(3,4) by simp
qed

section \<open>Properties\<close>

text \<open>C13: What the publisher sends, a subscriber decodes.  At most eight scalar fields whose
  message fits the buffer and the 16-bit size field are encoded, and decoding the bytes gives
  back the publisher id, the writer id and the fields, with room for at least as many.\<close>

theorem uadp_roundtrip:
  assumes "ds_fields (dataset_writer wg) = Some vs" "field_count (dataset_writer wg) = length vs"
    and "list_all valid_variant vs" "length vs \<le> MU_PUBSUB_MAX_FIELDS" "length vs \<le> cap"
    and "length (uadp_bytes conn (dataset_writer wg) vs) \<le> size'" "size' \<le> length buffer"
    and "length (concat (map enc_variant vs)) < 0xFFFF"
  shows "\<exists>n buf. mu_encode_uadp_network_message conn wg buffer size' = (Inr n, buf) \<and> n \<le> size' \<and>
    length buf = length buffer \<and> drop n buf = drop n buffer \<and>
    mu_decode_uadp_network_message buf n cap =
      Inr \<lparr>rm_publisher_id = publisher_id conn, rm_data_set_writer_id = data_set_writer_id (dataset_writer wg), rm_fields = vs\<rparr>"
proof -
  define bs where "bs = uadp_bytes conn (dataset_writer wg) vs"
  have len: "length bs \<le> length buffer" using assms(6,7) by (simp add: bs_def)
  have "take (length bs) (overwrite buffer 0 bs) = bs" "length (overwrite buffer 0 bs) = length buffer"
      "drop (length bs) (overwrite buffer 0 bs) = drop (length bs) buffer"
    using len take_overwrite_end [of 0 bs buffer] by (simp_all add: overwrite_def)
  thus ?thesis
    using encode_uadp [OF assms(1,2) refl assms(3,4,6,7,8)] assms(6) len
      decode_uadp [OF assms(3,5,4,8) refl, of conn "dataset_writer wg" "overwrite buffer 0 bs"]
    by (auto simp: bs_def)
qed

theorem uadp_roundtrip_witness:
  "\<exists>n buf. mu_encode_uadp_network_message \<lparr>pubsub_port = 4840, pubsub_enabled = True, publisher_id = 9, pubsub_address = None\<rparr>
       example_group (replicate 32 0) 32 = (Inr n, buf) \<and>
     mu_decode_uadp_network_message buf n 4 =
       Inr \<lparr>rm_publisher_id = 9, rm_data_set_writer_id = 7, rm_fields = [VScalar (V_UInt16 5), VNull]\<rparr>"
proof -
  let ?conn = "\<lparr>pubsub_port = 4840, pubsub_enabled = True, publisher_id = 9, pubsub_address = None\<rparr>"
  have "length (uadp_bytes ?conn (dataset_writer example_group) [VScalar (V_UInt16 5), VNull]) \<le> 32"
    by (simp add: uadp_bytes_def Let_def)
  thus ?thesis
    using uadp_roundtrip [of example_group "[VScalar (V_UInt16 5), VNull]" 4 ?conn 32 "replicate 32 0"]
    by (auto simp: example_group_def MU_PUBSUB_MAX_FIELDS_def)
qed


lemma encode_cut_string:
  assumes "dataset_writer wg = \<lparr>data_set_writer_id = d, ds_fields = Some [VScalar (V_String (mk_string bs))], field_count = 1\<rparr>"
    and "17 \<le> size'" "size' < 17 + length bs" "size' \<le> length buffer" "length bs \<le> 4096"
    and b: "b = MU_UADP_DATASET_FLAGS_VALID_VARIANT # 12 # mu_binary_le_put_u32 (of_nat (length bs))"
  shows "mu_encode_uadp_network_message conn wg buffer size' =
    (Inr 17, overwrite buffer 0 (uadp_head conn (dataset_writer wg) @ mu_binary_le_put_u16 (of_nat (length b)) @ b))"
proof -
  define s where "s = mk_string bs"
  let ?v = "VScalar (V_String s)" and ?dsw = "dataset_writer wg"
  define w where "w = mu_binary_writer_init (Some buffer) size'"
  note w = writer_init_ok [OF assms(4) w_def]
  have wl: "wr_length w = size'" by (simp add: w_def mu_binary_writer_init_def)
  have sl: "str_length s = of_nat (length bs)" by (simp add: s_def mk_string_def)
  have si: "sint (str_length s) = int (length bs)" using assms(5) by (simp add: sl sint_of_nat_small)
  have "str_length s \<noteq> -1" using si by auto
  have ne: "bs \<noteq> []" using assms(2,3) by auto
  have room: "wr_ok (wr_put xs w)" "wr_room (wr_put xs w) = size' - length xs" if "length xs \<le> 17" for xs
    using w assms(2) that by (auto simp: wr_ok_put)
  define h where "h = uadp_head conn ?dsw @ [0, 0]"
  have h: "length h = 11" by (simp add: h_def)
  have byte: "mu_binary_write_byte x (wr_put xs w) = (MU_STATUS_GOOD, wr_put (xs @ [x]) w)" if "length xs \<le> 12" for x xs
    using c_byte.wrt_emits [of x] room [of xs] w that assms(2) by (auto simp: wr_emits_def wr_put_put)
  have word: "mu_binary_write_int32 x (wr_put xs w) = (MU_STATUS_GOOD, wr_put (xs @ mu_binary_le_put_u32 x) w)" if "length xs \<le> 13" for x xs
    using c_int32.wrt_emits [of x] room [of xs] w that assms(2) by (auto simp: wr_emits_def wr_put_put)
  have "mu_binary_write_variant ?v (wr_put (h @ [MU_UADP_DATASET_FLAGS_VALID_VARIANT]) w) =
      (MU_STATUS_BAD_ENCODINGERROR, wr_put (h @ b) w)"
    using h assms(3) w si \<open>str_length s \<noteq> -1\<close> assms(5) wl ne
    by (simp add: b wthen_def byte word mu_binary_write_string_def MU_MAX_ENCODED_STRING_LENGTH_def sl)
  hence run: "wrun (mu_binary_write_byte MU_UADP_DATASET_FLAGS_VALID_VARIANT # map mu_binary_write_variant [?v])
      (wr_put (uadp_head conn ?dsw @ [0, 0]) w) = wr_put (uadp_head conn ?dsw @ [0, 0] @ b) w"
    using byte [of h] h by (simp add: h_def)
  show ?thesis
    using encode_uadp_body [OF _ _ refl _ _ w_def assms(4) _ _ run] assms(1,2) by (simp add: s_def b MU_PUBSUB_MAX_FIELDS_def)
qed

lemma decode_cut_string:
  fixes bs :: "byte list"
  assumes "b = MU_UADP_DATASET_FLAGS_VALID_VARIANT # 12 # mu_binary_le_put_u32 (of_nat (length bs))"
    and "17 \<le> length buf" "take 17 buf = uadp_head conn dsw @ mu_binary_le_put_u16 (of_nat (length b)) @ b"
    and "bs \<noteq> []" "length bs \<le> 4096"
  shows "\<exists>st. mu_decode_uadp_network_message buf 17 cap = Inl st \<and> st \<noteq> MU_STATUS_GOOD"
proof -
  let ?v = "VScalar (V_String (mk_string bs))" and ?cs = "12 # mu_binary_le_put_u32 (of_nat (length bs))"
  obtain r where r: "rd_ok r" "rd_rest r = ?cs" "rd_position r + length ?cs = rd_length r"
    "mu_decode_uadp_network_message buf 17 cap =
      (case uadp_decode_fields (min cap MU_PUBSUB_MAX_FIELDS) r of
           (Inl st, _) \<Rightarrow> Inl st
         | (Inr vs, d) \<Rightarrow>
             if rd_position d \<noteq> rd_length d then Inl MU_STATUS_BAD_DECODINGERROR
             else Inr \<lparr>rm_publisher_id = publisher_id conn, rm_data_set_writer_id = data_set_writer_id dsw, rm_fields = vs\<rparr>)"
    using decode_uadp_body [of 17 b buf ?cs conn dsw cap] assms(1-3) by auto
  have "valid_variant ?v" "rd_rest r = take 5 (enc_variant ?v)" "5 < length (enc_variant ?v)"
    using r(2) assms(4,5) by (auto simp: mk_string_def valid_string_def enc_string_def MU_MAX_ENCODED_STRING_LENGTH_def)
  then obtain st q where "mu_binary_read_variant r = (Inl st, q)" using c_variant.truncated [OF _ r(1)] by blast
  hence "fst (uadp_decode_field r) = Inl MU_STATUS_BAD_NOTSUPPORTED \<or> fst (uadp_decode_field r) = Inl MU_STATUS_BAD_DECODINGERROR"
    by (simp add: uadp_decode_field_def)
  hence "\<exists>st q. uadp_decode_fields n r = (Inl st, q) \<and> st \<noteq> MU_STATUS_GOOD" for n
    using r(3) by (cases n; cases "uadp_decode_field r") (auto simp: rbind_def)
  then obtain st q where "uadp_decode_fields (min cap MU_PUBSUB_MAX_FIELDS) r = (Inl st, q)" "st \<noteq> MU_STATUS_GOOD" by blast
  thus ?thesis using r(4) by simp
qed

text \<open>C40: A String field that does not fit is dropped without an error.  The writer of the string
  reports that the bytes do not fit but does not latch it, and the encoder looks at the latched
  status only: it returns a message that ends after the string's length, which no receiver
  can decode.\<close>

theorem uadp_string_overflow_silent:
  assumes "dataset_writer wg = \<lparr>data_set_writer_id = d, ds_fields = Some [VScalar (V_String (mk_string bs))], field_count = 1\<rparr>"
    and "17 \<le> size'" "size' < 17 + length bs" "size' \<le> length buffer" "length bs \<le> 4096"
  shows "\<exists>buf st. mu_encode_uadp_network_message conn wg buffer size' = (Inr 17, buf) \<and>
    mu_decode_uadp_network_message buf 17 cap = Inl st \<and> st \<noteq> MU_STATUS_GOOD"
proof -
  define b where "b = MU_UADP_DATASET_FLAGS_VALID_VARIANT # 12 # mu_binary_le_put_u32 (of_nat (length bs))"
  define buf where "buf = overwrite buffer 0 (uadp_head conn (dataset_writer wg) @ mu_binary_le_put_u16 (of_nat (length b)) @ b)"
  have "17 \<le> length buf" "take 17 buf = uadp_head conn (dataset_writer wg) @ mu_binary_le_put_u16 (of_nat (length b)) @ b"
    using assms(2,4) by (simp_all add: buf_def b_def overwrite_def)
  moreover have "bs \<noteq> []" using assms(2,3) by auto
  ultimately show ?thesis
    using encode_cut_string [OF assms b_def] decode_cut_string [OF b_def] assms(5) unfolding buf_def by blast
qed

theorem uadp_string_overflow_silent_witness:
  "\<exists>buf st. mu_encode_uadp_network_message \<lparr>pubsub_port = 4840, pubsub_enabled = True, publisher_id = 9, pubsub_address = None\<rparr>
       (example_group\<lparr>dataset_writer := \<lparr>data_set_writer_id = 7, ds_fields = Some [VScalar (V_String (mk_string [1, 2, 3, 4, 5]))],
          field_count = 1\<rparr>\<rparr>) (replicate 20 0) 20 = (Inr 17, buf) \<and>
     mu_decode_uadp_network_message buf 17 8 = Inl st \<and> st \<noteq> MU_STATUS_GOOD"
  by (rule uadp_string_overflow_silent [where d = 7 and bs = "[1, 2, 3, 4, 5]"]) simp_all

end
