(* ===== verification/Server_State.thy ===== *)
theory Server_State
  imports Tcp_Connection Asym_Chunk Secure_Channel Session Notification Node_Management Uadp
begin

text \<open>
  The state of the server (\<^verbatim>\<open>src/core/server_internal.h\<close>, \<^verbatim>\<open>include/muc_opcua/server.h\<close>)
  in a build with several connections, and the sending of a framed chunk
  (\<^verbatim>\<open>src/core/server.c\<close>).

  The platform adapters are callbacks of the configuration.  They act on a platform state
  \<open>'e\<close>, which stands for everything behind the \<^verbatim>\<open>context\<close> pointers: a callback takes
  the state and returns it updated next to its result.  A callback pointer that the
  code tests is an option.  A connection handle is a number, \<^verbatim>\<open>NULL\<close> is \<^term>\<open>None\<close>; a
  pointer into \<^verbatim>\<open>conns\<close> or \<^verbatim>\<open>sessions\<close> is an index.  Double arithmetic and the value
  callbacks of the address space are fields of the configuration too.
\<close>

section \<open>Configuration\<close>

type_synonym handle = "nat option"

text \<open>One historical value, as the history adapter of the application exchanges them.\<close>

record mu_historical_data_point =
  hp_source_timestamp :: u64
  hp_server_timestamp :: u64
  hp_status :: statuscode
  hp_value :: mu_variant

record 'e mu_server_config =
  endpoint_url :: "byte list option"
  application_uri :: "byte list option"
  product_uri :: "byte list option"
  application_name :: "byte list option"
  receive_buffer_given :: bool
  send_buffer_given :: bool
  cfg_limits :: mu_transport_limits
  max_sessions :: u32
  max_secure_channels :: u32
  tcp_listen :: "('e \<Rightarrow> byte list option \<Rightarrow> statuscode \<times> 'e) option"
  tcp_accept :: "('e \<Rightarrow> (statuscode \<times> handle) \<times> 'e) option"
  tcp_read :: "('e \<Rightarrow> handle \<Rightarrow> nat \<Rightarrow> (statuscode \<times> byte list) \<times> 'e) option"
  tcp_write :: "('e \<Rightarrow> handle \<Rightarrow> byte list \<Rightarrow> (statuscode \<times> nat) \<times> 'e) option"
  tcp_close_connection :: "('e \<Rightarrow> handle \<Rightarrow> 'e) option"
  tcp_shutdown :: "('e \<Rightarrow> 'e) option"
  get_time :: "('e \<Rightarrow> u64 \<times> 'e) option"
  get_tick_ms :: "('e \<Rightarrow> u64 \<times> 'e) option"
  generate_random :: "('e \<Rightarrow> nat \<Rightarrow> (statuscode + byte list) \<times> 'e) option"
  crypto_adapter :: "mu_crypto_adapter option"
  cfg_address_space :: "mu_address_space option"
  allow_node_management :: bool
  user_auth_handler :: "('e \<Rightarrow> mu_string option \<Rightarrow> mu_string option \<Rightarrow> mu_string \<Rightarrow> statuscode \<times> 'e) option"
  trust_list :: "(byte list \<times> nat) list option"
  allow_untrusted_clients :: bool
  write_handler :: "('e \<Rightarrow> mu_nodeid \<Rightarrow> u32 \<Rightarrow> mu_variant \<Rightarrow> statuscode \<times> 'e) option"
  read_raw_modified :: "('e \<Rightarrow> mu_nodeid \<Rightarrow> bool \<Rightarrow> u64 \<Rightarrow> u64 \<Rightarrow> u32 \<Rightarrow> bool \<Rightarrow> byte list \<Rightarrow>
    (statuscode \<times> byte list \<times> mu_historical_data_point list) \<times> 'e) option"
  update_data :: "('e \<Rightarrow> mu_nodeid \<Rightarrow> u32 \<Rightarrow> mu_historical_data_point list \<Rightarrow> (statuscode \<times> statuscode list) \<times> 'e) option"
  delete_raw_modified :: "('e \<Rightarrow> mu_nodeid \<Rightarrow> bool \<Rightarrow> u64 \<Rightarrow> u64 \<Rightarrow> statuscode \<times> 'e) option"
  cfg_pubsub :: mu_pubsub_connection
  udp_send :: "('e \<Rightarrow> byte list \<Rightarrow> byte list \<Rightarrow> u16 \<Rightarrow> statuscode \<times> 'e) option"
  method_callbacks :: "'e \<Rightarrow> nat \<Rightarrow> mu_nodeid \<Rightarrow> mu_nodeid \<Rightarrow> mu_variant list \<Rightarrow> (statuscode \<times> mu_variant list) \<times> 'e"
  value_callbacks :: "'e \<Rightarrow> nat \<Rightarrow> mu_nodeid \<Rightarrow> statuscode + mu_variant"
  arithmetic :: fp_ops

section \<open>Connections\<close>

definition MU_MAX_CONNECTIONS :: nat where "MU_MAX_CONNECTIONS = 4"
definition MU_CONNECTION_RX_BUFFER_SIZE :: nat where "MU_CONNECTION_RX_BUFFER_SIZE = 8192"
definition MU_MAX_CLIENT_CERT_SIZE :: nat where "MU_MAX_CLIENT_CERT_SIZE = 1600"

record mu_connection =
  conn_handle :: handle
  rx_len :: nat
  last_activity_ms :: u64
  tcp_conn :: mu_tcp_connection
  secure_channel :: mu_secure_channel
  rx_buffer :: "byte list"

definition zero_connection :: mu_connection where
  "zero_connection = \<lparr>conn_handle = None, rx_len = 0, last_activity_ms = 0, tcp_conn = mu_tcp_connection_init,
     secure_channel = mu_secure_channel_init, rx_buffer = replicate MU_CONNECTION_RX_BUFFER_SIZE 0\<rparr>"

section \<open>The server\<close>

definition MU_MAX_REGISTERED_METHODS :: nat where "MU_MAX_REGISTERED_METHODS = 8"
definition MU_MAX_WRITER_GROUPS :: nat where "MU_MAX_WRITER_GROUPS = 2"
definition MU_MAX_QUERY_CONTINUATION_POINTS :: nat where "MU_MAX_QUERY_CONTINUATION_POINTS = 2"

text \<open>A continuation point of the Query services.  The pointer of \<^verbatim>\<open>id\<close> is null or leads to the
  entry's own buffer, so the string by value is all there is.\<close>

record mu_query_point =
  qp_id :: mu_string
  qp_session_id :: u32
  qp_next_index :: nat
  qp_timestamp_ms :: u64

definition free_query_point :: mu_query_point where
  "free_query_point = \<lparr>qp_id = null_string, qp_session_id = 0, qp_next_index = 0, qp_timestamp_ms = 0\<rparr>"

text \<open>Some handlers read fields of stack structs that they have not written.  What is found
  there is not determined by the program; \<open>stale\<close> holds arbitrary values for these reads.\<close>

record mu_stale =
  stale_datavalue :: "nat \<Rightarrow> mu_datavalue"
  stale_select_clauses :: "byte list"
  stale_select_count :: byte
  stale_string :: mu_string

text \<open>\<open>own_conn\<close> collects the connection fields of the server struct itself, which the
  access macros fall back to when no connection is active.  \<open>send_buffer\<close> is the
  caller's buffer.  The length of \<open>channel_client_cert\<close> is its stored length.\<close>

record 'e mu_server =
  config :: "'e mu_server_config"
  env :: 'e
  send_buffer :: "byte list"
  start_time :: u64
  user_address_space_index :: mu_address_space_index
  is_running :: bool
  conns :: "mu_connection list"
  active_conn :: "nat option"
  own_conn :: mu_connection
  opn_pending_security_policy :: mu_string
  opn_pending_client_cert :: mu_string
  channel_client_cert :: "byte list"
  sessions :: "mu_session list"
  active_session :: "nat option"
  subs :: mu_subscriptions
  current_request_id :: u32
  registered_methods :: "(mu_nodeid \<times> nat) list"
  writer_groups :: "mu_pubsub_writer_group list"
  dynamic_address_space :: mu_dynamic_address_space
  query_points :: "mu_query_point list"
  stale :: mu_stale

text \<open>The access macros \<^verbatim>\<open>server_secure_channel\<close>, \<^verbatim>\<open>server_tcp_conn\<close>, \<^verbatim>\<open>server_client_handle\<close>.\<close>

definition active_connection :: "'e mu_server \<Rightarrow> mu_connection" where
  "active_connection s = (case active_conn s of Some i \<Rightarrow> conns s ! i | None \<Rightarrow> own_conn s)"

definition update_connection :: "(mu_connection \<Rightarrow> mu_connection) \<Rightarrow> 'e mu_server \<Rightarrow> 'e mu_server" where
  "update_connection f s =
    (case active_conn s of
       Some i \<Rightarrow> s\<lparr>conns := (conns s)[i := f (conns s ! i)]\<rparr>
     | None \<Rightarrow> s\<lparr>own_conn := f (own_conn s)\<rparr>)"

abbreviation server_secure_channel :: "'e mu_server \<Rightarrow> mu_secure_channel" where
  "server_secure_channel s \<equiv> secure_channel (active_connection s)"

abbreviation server_client_handle :: "'e mu_server \<Rightarrow> handle" where
  "server_client_handle s \<equiv> conn_handle (active_connection s)"

definition update_channel :: "(mu_secure_channel \<Rightarrow> mu_secure_channel) \<Rightarrow> 'e mu_server \<Rightarrow> 'e mu_server" where
  "update_channel f = update_connection (\<lambda>c. c\<lparr>secure_channel := f (secure_channel c)\<rparr>)"

definition update_session :: "nat \<Rightarrow> (mu_session \<Rightarrow> mu_session) \<Rightarrow> 'e mu_server \<Rightarrow> 'e mu_server" where
  "update_session i f s = s\<lparr>sessions := (sessions s)[i := f (sessions s ! i)]\<rparr>"

section \<open>Calls of the platform\<close>

definition tick_ms :: "'e mu_server \<Rightarrow> u64 \<times> 'e mu_server" where
  "tick_ms s = (case the (get_tick_ms (config s)) (env s) of (t, e) \<Rightarrow> (t, s\<lparr>env := e\<rparr>))"

text \<open>\<^verbatim>\<open>publish_time_now\<close> and the other calls of the clock: zero without a clock.\<close>

definition publish_time_now :: "'e mu_server \<Rightarrow> u64 \<times> 'e mu_server" where
  "publish_time_now s =
    (case get_time (config s) of
       None \<Rightarrow> (0, s)
     | Some clock \<Rightarrow> (case clock (env s) of (t, e) \<Rightarrow> (t, s\<lparr>env := e\<rparr>)))"

definition close_handle :: "handle \<Rightarrow> 'e mu_server \<Rightarrow> 'e mu_server" where
  "close_handle h s = s\<lparr>env := the (tcp_close_connection (config s)) (env s) h\<rparr>"

text \<open>The value sources of the library's own runtime nodes have the callback number 0, those
  of the application the numbers from 1.\<close>

definition base_status_time_read :: "'e mu_server \<Rightarrow> mu_nodeid \<Rightarrow> mu_variant" where
  "base_status_time_read s nid =
     VScalar (V_DateTime (if nid_identifier nid = NumericId 2257 then start_time s
       else case get_time (config s) of None \<Rightarrow> 0 | Some clock \<Rightarrow> fst (clock (env s))))"

definition server_callbacks :: "'e mu_server \<Rightarrow> read_callbacks" where
  "server_callbacks s n nid =
    (case n of 0 \<Rightarrow> Inr (base_status_time_read s nid) | Suc k \<Rightarrow> value_callbacks (config s) (env s) k nid)"

section \<open>Sending\<close>

text \<open>A write error or a short write closes the connection.\<close>

definition send_buffer_chunk :: "nat \<Rightarrow> 'e mu_server \<Rightarrow> 'e mu_server" where
  "send_buffer_chunk n s =
    (case the (tcp_write (config s)) (env s) (server_client_handle s) (take n (send_buffer s)) of
       ((st, written), e) \<Rightarrow>
         let s = s\<lparr>env := e\<rparr> in
         if st \<noteq> MU_STATUS_GOOD \<or> written \<noteq> n
         then update_connection (\<lambda>c. c\<lparr>conn_handle := None\<rparr>) (close_handle (server_client_handle s) s)
         else s)"

definition send_tcp_error_chunk :: "statuscode \<Rightarrow> 'e mu_server \<Rightarrow> 'e mu_server" where
  "send_tcp_error_chunk code s =
    (case mu_tcp_create_error_message code None (send_buffer s) (cfg_send_buffer_size (cfg_limits (config s))) of
       (Inl _, buf) \<Rightarrow> s\<lparr>send_buffer := buf\<rparr>
     | (Inr n, buf) \<Rightarrow> send_buffer_chunk n (s\<lparr>send_buffer := buf\<rparr>))"

text \<open>\<^verbatim>\<open>++server_secure_channel.out_sequence_number\<close>\<close>

definition next_out_sequence :: "'e mu_server \<Rightarrow> u32 \<times> 'e mu_server" where
  "next_out_sequence s =
    (let n = out_sequence_number (server_secure_channel s) + 1 in
     (n, update_channel (\<lambda>c. c\<lparr>out_sequence_number := n\<rparr>) s))"

text \<open>Without an active connection the one whose channel has the id of the active session
  is taken, and stays the active one.\<close>

definition emit_connection :: "'e mu_server \<Rightarrow> 'e mu_server" where
  "emit_connection s =
    (case (active_conn s, active_session s) of
       (None, Some j) \<Rightarrow>
         (case find_index (\<lambda>c. conn_handle c \<noteq> None \<and> channel_id (secure_channel c) = ss_secure_channel_id (sessions s ! j))
                 (conns s) of
            None \<Rightarrow> s
          | Some i \<Rightarrow> s\<lparr>active_conn := Some i\<rparr>)
     | _ \<Rightarrow> s)"

definition emit_secured :: "mu_crypto_adapter \<Rightarrow> u32 \<Rightarrow> byte list \<Rightarrow> 'e mu_server \<Rightarrow> statuscode \<times> 'e mu_server" where
  "emit_secured crypto req body s =
    (if \<not> keys_valid (server_secure_channel s) then (MU_STATUS_BAD_SECURITYCHECKSFAILED, s)
     else
     case next_out_sequence s of (seq, s) \<Rightarrow>
       (case mu_sym_chunk_wrap crypto (ch_mode (server_secure_channel s)) (server_keys (server_secure_channel s)) MSG
               (channel_id (server_secure_channel s)) (token_id (server_secure_channel s)) seq req body
               (send_buffer s) (cfg_send_buffer_size (cfg_limits (config s))) of
          (Inl st, buf) \<Rightarrow> (st, s\<lparr>send_buffer := buf\<rparr>)
        | (Inr n, buf) \<Rightarrow> (MU_STATUS_GOOD, send_buffer_chunk n (s\<lparr>send_buffer := buf\<rparr>))))"

definition emit_plain :: "u32 \<Rightarrow> byte list \<Rightarrow> 'e mu_server \<Rightarrow> statuscode \<times> 'e mu_server" where
  "emit_plain req body s =
    (let cap = cfg_send_buffer_size (cfg_limits (config s)) in
     if cap < length body \<or> cap < MU_UASC_SYMMETRIC_HEADER_SIZE \<or> cap - MU_UASC_SYMMETRIC_HEADER_SIZE < length body
     then (MU_STATUS_BAD_RESPONSETOOLARGE, s)
     else
     case next_out_sequence (s\<lparr>send_buffer := overwrite (send_buffer s) MU_UASC_SYMMETRIC_HEADER_SIZE body\<rparr>) of (seq, s) \<Rightarrow>
       (case mu_uasc_finalize_symmetric (send_buffer s) cap (channel_id (server_secure_channel s))
               (token_id (server_secure_channel s)) seq req (length body) of
          (Inl st, buf) \<Rightarrow> (st, s\<lparr>send_buffer := buf\<rparr>)
        | (Inr n, buf) \<Rightarrow> (MU_STATUS_GOOD, send_buffer_chunk n (s\<lparr>send_buffer := buf\<rparr>))))"

definition mu_server_emit_message :: "u32 \<Rightarrow> byte list \<Rightarrow> 'e mu_server \<Rightarrow> statuscode \<times> 'e mu_server" where
  "mu_server_emit_message req body s =
    (let s = emit_connection s in
     if active_conn s = None then (MU_STATUS_BAD_SECURECHANNELIDINVALID, s)
     else if ch_mode (server_secure_channel s) \<noteq> MU_MESSAGE_SECURITY_MODE_NONE then
       (case crypto_adapter (config s) of
          None \<Rightarrow> (MU_STATUS_BAD_SECURITYCHECKSFAILED, s)
        | Some crypto \<Rightarrow> emit_secured crypto req body s)
     else emit_plain req body s)"

definition abort_connection :: "'e mu_server \<Rightarrow> 'e mu_server" where
  "abort_connection s = update_connection (\<lambda>c. c\<lparr>conn_handle := None\<rparr>) (close_handle (server_client_handle s) s)"

definition accept_inbound_chunk :: "bool \<Rightarrow> u32 \<Rightarrow> u32 \<Rightarrow> u32 \<Rightarrow> 'e mu_server \<Rightarrow> bool \<times> 'e mu_server" where
  "accept_inbound_chunk is_opn channel token seq s =
    (if \<not> is_opn \<and> (channel \<noteq> channel_id (server_secure_channel s) \<or> token \<noteq> token_id (server_secure_channel s))
     then (False, s)
     else case mu_sequence_validate (sc_sequence (server_secure_channel s)) seq of
       (st, v) \<Rightarrow> (st = MU_STATUS_GOOD, update_channel (\<lambda>c. c\<lparr>sc_sequence := v\<rparr>) s))"

definition is_ns0_numeric_nodeid :: "mu_nodeid \<Rightarrow> bool" where
  "is_ns0_numeric_nodeid nid = (case nid_identifier nid of NumericId _ \<Rightarrow> namespace_index nid = 0 | _ \<Rightarrow> False)"

text \<open>The parts of the server a send does not touch.\<close>

definition same_services :: "'e mu_server \<Rightarrow> 'e mu_server \<Rightarrow> bool" where
  "same_services s s' \<longleftrightarrow> config s' = config s \<and> subs s' = subs s \<and> sessions s' = sessions s \<and>
     active_session s' = active_session s \<and> user_address_space_index s' = user_address_space_index s \<and>
     start_time s' = start_time s \<and> is_running s' = is_running s \<and> channel_client_cert s' = channel_client_cert s \<and>
     current_request_id s' = current_request_id s \<and> registered_methods s' = registered_methods s \<and> writer_groups s' = writer_groups s \<and>
     dynamic_address_space s' = dynamic_address_space s \<and> query_points s' = query_points s \<and> stale s' = stale s \<and>
     length (conns s') = length (conns s)"

text \<open>A server for examples.  Its platform state is the list of the byte strings written so
  far; the clock and the tick stand still, there is no entropy and no cryptography.\<close>

definition zero_datavalue :: mu_datavalue where
  "zero_datavalue = \<lparr>dv_value = VNull, dv_status = 0, source_timestamp = 0, server_timestamp = 0,
     has_value = False, has_status = False, has_source_timestamp = False, has_server_timestamp = False\<rparr>"

definition example_config :: "byte list list mu_server_config" where
  "example_config = \<lparr>endpoint_url = Some [], application_uri = None, product_uri = None, application_name = None,
     receive_buffer_given = True, send_buffer_given = True,
     cfg_limits = \<lparr>cfg_receive_buffer_size = 8192, cfg_send_buffer_size = 8192, cfg_max_chunk_count = 1, cfg_max_message_size = 8192\<rparr>,
     max_sessions = 2, max_secure_channels = 1,
     tcp_listen = Some (\<lambda>e _. (MU_STATUS_GOOD, e)), tcp_accept = Some (\<lambda>e. ((MU_STATUS_GOOD, None), e)),
     tcp_read = Some (\<lambda>e _ _. ((MU_STATUS_GOOD, []), e)),
     tcp_write = Some (\<lambda>e _ bs. ((MU_STATUS_GOOD, length bs), e @ [bs])),
     tcp_close_connection = Some (\<lambda>e _. e), tcp_shutdown = Some (\<lambda>e. e), get_time = Some (\<lambda>e. (0, e)), get_tick_ms = Some (\<lambda>e. (0, e)),
     generate_random = None, crypto_adapter = None, cfg_address_space = None, allow_node_management = False, user_auth_handler = None,
     trust_list = None, allow_untrusted_clients = False, write_handler = None,
     read_raw_modified = None, update_data = None, delete_raw_modified = None,
     cfg_pubsub = \<lparr>pubsub_port = 4840, pubsub_enabled = False, publisher_id = 1, pubsub_address = None\<rparr>, udp_send = None,
     method_callbacks = \<lambda>e _ _ _ _. ((MU_STATUS_BAD_METHODINVALID, []), e),
     value_callbacks = \<lambda>_ _ _. Inl MU_STATUS_BAD_NODEIDUNKNOWN, arithmetic = example_fp\<rparr>"

definition example_connection :: mu_connection where
  "example_connection = zero_connection\<lparr>conn_handle := Some 1,
     secure_channel := mu_secure_channel_init\<lparr>channel_id := 1, token_id := 1, is_open := True,
       revised_lifetime := 10000\<rparr>\<rparr>"

definition example_server :: "byte list list mu_server" where
  "example_server = \<lparr>config = example_config, env = [], send_buffer = replicate 8192 0, start_time = 0,
     user_address_space_index = fresh_index, is_running = True,
     conns = example_connection # replicate 3 zero_connection, active_conn = Some 0, own_conn = zero_connection,
     opn_pending_security_policy = null_string, opn_pending_client_cert = null_string, channel_client_cert = [],
     sessions = replicate MU_MAX_SESSIONS mu_session_init, active_session = None, subs = mu_subscriptions_init, current_request_id = 0,
     registered_methods = [], writer_groups = [], dynamic_address_space = zero_dynamic_space,
     query_points = replicate MU_MAX_QUERY_CONTINUATION_POINTS free_query_point,
     stale = \<lparr>stale_datavalue = \<lambda>_. zero_datavalue, stale_select_clauses = replicate 8 0, stale_select_count = 0, stale_string = null_string\<rparr>\<rparr>"

section \<open>What sending leaves alone\<close>

lemma same_services_refl [simp]: "same_services s s"
  by (simp add: same_services_def)

lemma same_services_trans: "same_services s t \<Longrightarrow> same_services t u \<Longrightarrow> same_services s u"
  by (simp add: same_services_def)

lemma same_update_connection: "same_services s (update_connection f s)"
  by (simp add: same_services_def update_connection_def split: option.split)

lemma same_fields:
  "same_services s (s\<lparr>env := e\<rparr>)" "same_services s (s\<lparr>send_buffer := b\<rparr>)" "same_services s (s\<lparr>active_conn := c\<rparr>)"
  by (simp_all add: same_services_def)

lemma same_close_handle: "same_services s (close_handle h s)"
  by (simp add: close_handle_def same_fields)

lemma same_send_chunk: "same_services s (send_buffer_chunk n s)"
proof -
  obtain st k e where w: "the (tcp_write (config s)) (env s) (server_client_handle s) (take n (send_buffer s)) = ((st, k), e)"
    by (metis prod.collapse)
  have "same_services s (update_connection f (close_handle h (s\<lparr>env := e\<rparr>)))" for f h
    by (rule same_services_trans [OF same_fields(1) same_services_trans [OF same_close_handle same_update_connection]])
  thus ?thesis by (simp add: send_buffer_chunk_def w Let_def same_fields)
qed

lemma same_next_sequence: "next_out_sequence s = (n, s') \<Longrightarrow> same_services s s'"
  by (auto simp: next_out_sequence_def Let_def update_channel_def same_update_connection)

lemma same_emit_connection: "same_services s (emit_connection s)"
  by (simp add: emit_connection_def same_fields split: option.split)

lemma same_emit_secured: "same_services s (snd (emit_secured crypto req body s))"
proof -
  obtain n t where n: "next_out_sequence s = (n, t)" by fastforce
  have "same_services s (send_buffer_chunk k (t\<lparr>send_buffer := buf\<rparr>))" "same_services s (t\<lparr>send_buffer := buf\<rparr>)" for k buf
    by (rule same_services_trans [OF same_next_sequence [OF n] same_services_trans [OF same_fields(2) same_send_chunk]],
      rule same_services_trans [OF same_next_sequence [OF n] same_fields(2)])
  thus ?thesis by (simp add: emit_secured_def n split: prod.split sum.split)
qed

lemma same_emit_plain: "same_services s (snd (emit_plain req body s))"
proof -
  obtain n t where n: "next_out_sequence (s\<lparr>send_buffer := overwrite (send_buffer s) MU_UASC_SYMMETRIC_HEADER_SIZE body\<rparr>) = (n, t)"
    by fastforce
  note st = same_services_trans [OF same_fields(2) same_next_sequence [OF n]]
  have "same_services s (send_buffer_chunk k (t\<lparr>send_buffer := buf\<rparr>))" "same_services s (t\<lparr>send_buffer := buf\<rparr>)" for k buf
    by (rule same_services_trans [OF st same_services_trans [OF same_fields(2) same_send_chunk]],
      rule same_services_trans [OF st same_fields(2)])
  thus ?thesis by (simp add: emit_plain_def n Let_def split: prod.split sum.split)
qed

lemma same_emit_message: "same_services s (snd (mu_server_emit_message req body s))"
  using same_emit_connection [of s] same_services_trans [OF same_emit_connection [of s] same_emit_secured]
    same_services_trans [OF same_emit_connection [of s] same_emit_plain]
  by (simp add: mu_server_emit_message_def Let_def split: option.split)

lemma same_publish_time: "same_services s (snd (publish_time_now s))"
  by (simp add: publish_time_now_def same_fields split: option.split prod.split)

lemma emit_plain_good:
  assumes "length body + MU_UASC_SYMMETRIC_HEADER_SIZE \<le> cfg_send_buffer_size (cfg_limits (config s))"
    and "active_conn s = Some c" "ch_mode (server_secure_channel s) = MU_MESSAGE_SECURITY_MODE_NONE"
  shows "fst (mu_server_emit_message req body s) = MU_STATUS_GOOD"
  using assms
  by (auto simp: mu_server_emit_message_def emit_connection_def emit_plain_def Let_def mu_uasc_finalize_symmetric_def
      next_out_sequence_def split: prod.split)

end
