(* ===== verification/Service_Core.thy ===== *)
theory Service_Core
  imports Server_State
begin

text \<open>
  What the service handlers of \<^verbatim>\<open>src/core/service_dispatch.c\<close> share: their calling
  convention, the response prefix, the service fault, the bounds checks on the request and
  the session token.

  A handler works on three things: the server, a reader over the request body and a
  writer over the response body.  It is a function on the record of the three that
  returns the status other than Good it leaves with, or a value.  \<open>sbind\<close> is the
  sequence of a step and the rest of the handler, with the early return on a bad status.
  \<open>keeps P\<close> says that a handler preserves a property \<open>P\<close> of the server on every path,
  early returns included; the introduction rules of \<open>keeps_intros\<close> prove it along the
  structure of a handler.  The interface \<open>footprint\<close> does the same for what a handler may
  change at all.
\<close>

named_theorems keeps_intros \<open>preservation of server properties, by the structure of a handler\<close>

section \<open>Handlers\<close>

record 'e service_state =
  sv :: "'e mu_server"
  rdr :: mu_binary_reader
  wtr :: mu_binary_writer

type_synonym ('e, 'a) service = "'e service_state \<Rightarrow> (statuscode + 'a) \<times> 'e service_state"

definition sbind :: "('e, 'a) service \<Rightarrow> ('a \<Rightarrow> ('e, 'b) service) \<Rightarrow> ('e, 'b) service" where
  "sbind m f h = (case m h of (Inl st, h') \<Rightarrow> (Inl st, h') | (Inr x, h') \<Rightarrow> f x h')"

definition sreturn :: "'a \<Rightarrow> ('e, 'a) service" where
  "sreturn x h = (Inr x, h)"

definition sfail :: "statuscode \<Rightarrow> ('e, 'a) service" where
  "sfail st h = (Inl st, h)"

definition sread :: "'a rd \<Rightarrow> ('e, 'a) service" where
  "sread m h = (case m (rdr h) of (x, r) \<Rightarrow> (x, h\<lparr>rdr := r\<rparr>))"

definition swrite :: "wr \<Rightarrow> ('e, unit) service" where
  "swrite m h = (case m (wtr h) of (st, w) \<Rightarrow> (if st = MU_STATUS_GOOD then Inr () else Inl st, h\<lparr>wtr := w\<rparr>))"

definition sget :: "('e mu_server \<Rightarrow> 'a) \<Rightarrow> ('e, 'a) service" where
  "sget f h = (Inr (f (sv h)), h)"

definition sput :: "('e mu_server \<Rightarrow> 'a \<times> 'e mu_server) \<Rightarrow> ('e, 'a) service" where
  "sput f h = (case f (sv h) of (x, s) \<Rightarrow> (Inr x, h\<lparr>sv := s\<rparr>))"

text \<open>A call that fails with a status or changes the server.\<close>

definition scall :: "('e mu_server \<Rightarrow> (statuscode + 'a) \<times> 'e mu_server) \<Rightarrow> ('e, 'a) service" where
  "scall f h = (case f (sv h) of (x, s) \<Rightarrow> (x, h\<lparr>sv := s\<rparr>))"

definition swhen :: "bool \<Rightarrow> ('e, unit) service \<Rightarrow> ('e, unit) service" where
  "swhen c m = (if c then m else sreturn ())"

text \<open>\<^verbatim>\<open>for (i = 0; i < n; ++i)\<close> with an early return.\<close>

primrec srepeat :: "nat \<Rightarrow> ('e, 'a) service \<Rightarrow> ('e, 'a list) service" where
  "srepeat 0 m = sreturn []"
| "srepeat (Suc n) m = sbind m (\<lambda>x. sbind (srepeat n m) (\<lambda>xs. sreturn (x # xs)))"

primrec seach :: "'a list \<Rightarrow> ('a \<Rightarrow> ('e, unit) service) \<Rightarrow> ('e, unit) service" where
  "seach [] f = sreturn ()"
| "seach (x # xs) f = sbind (f x) (\<lambda>_. seach xs f)"

text \<open>\<^verbatim>\<open>*response_length = w->position; return MU_STATUS_GOOD;\<close>\<close>

definition sdone :: "('e, nat) service" where
  "sdone h = (Inr (wr_position (wtr h)), h)"

section \<open>Prefix and fault\<close>

definition MU_ID_SERVICEFAULT :: u32 where "MU_ID_SERVICEFAULT = 397"

definition response_prefix :: "u32 \<Rightarrow> u32 \<Rightarrow> statuscode \<Rightarrow> wr" where
  "response_prefix type_id handle result =
     wthen (mu_binary_write_nodeid (ns0 type_id))
       (mu_response_header_encode \<lparr>resp_timestamp = 0, resp_request_handle = handle, service_result = result\<rparr>)"

definition write_response_prefix :: "u32 \<Rightarrow> u32 \<Rightarrow> statuscode \<Rightarrow> ('e, unit) service" where
  "write_response_prefix type_id handle result = swrite (response_prefix type_id handle result)"

definition mu_write_service_fault :: "byte list \<Rightarrow> nat \<Rightarrow> u32 \<Rightarrow> statuscode \<Rightarrow> (statuscode + nat) \<times> byte list" where
  "mu_write_service_fault buffer len handle result =
    (case response_prefix MU_ID_SERVICEFAULT handle result (mu_binary_writer_init (Some buffer) len) of
       (st, w) \<Rightarrow> (if st \<noteq> MU_STATUS_GOOD then Inl st else Inr (wr_position w), the (wr_buffer w)))"

section \<open>Bounds checks\<close>

definition ensure_reader_bytes_remaining :: "nat \<Rightarrow> unit rd" where
  "ensure_reader_bytes_remaining len r =
    (if 0 < len \<and> (rd_length r < rd_position r \<or> rd_length r - rd_position r < len)
     then (Inl MU_STATUS_BAD_DECODINGERROR, r) else (Inr (), r))"

definition skip_extension_object_body :: "nat \<Rightarrow> unit rd" where
  "skip_extension_object_body len = rbind (ensure_reader_bytes_remaining len) (\<lambda>_ r. (Inr (), rd_skip len r))"

definition ensure_array_items_min_remaining :: "u32 \<Rightarrow> nat \<Rightarrow> unit rd" where
  "ensure_array_items_min_remaining n min_item_size r =
    (if sint n < -1 then (Inl MU_STATUS_BAD_DECODINGERROR, r)
     else if sint n \<le> 0 then (Inr (), r)
     else if rd_length r < rd_position r then (Inl MU_STATUS_BAD_DECODINGERROR, r)
     else if (rd_length r - rd_position r) div min_item_size < nat (sint n) then (Inl MU_STATUS_BAD_DECODINGERROR, r)
     else (Inr (), r))"

definition read_auth_token_from_request :: "byte list \<Rightarrow> nat \<Rightarrow> u32" where
  "read_auth_token_from_request body len =
    (case fst (mu_binary_read_nodeid (mu_binary_reader_init (Some body) len)) of
       Inl _ \<Rightarrow> 0
     | Inr token \<Rightarrow>
         (case nid_identifier token of
            NumericId i \<Rightarrow> if namespace_index token \<noteq> 0 then 0 else i
          | _ \<Rightarrow> 0))"

section \<open>Entropy\<close>

text \<open>\<^verbatim>\<open>mu_session_generate_server_nonce\<close> and the identifier generators each make one call
  of the entropy adapter; the platform state advances with it.\<close>

definition entropy_of :: "'e mu_server \<Rightarrow> entropy option" where
  "entropy_of s = map_option (\<lambda>g n. fst (g (env s) n)) (generate_random (config s))"

definition entropy_used :: "nat \<Rightarrow> 'e mu_server \<Rightarrow> 'e mu_server" where
  "entropy_used n s =
    (case generate_random (config s) of None \<Rightarrow> s | Some g \<Rightarrow> s\<lparr>env := snd (g (env s) n)\<rparr>)"

definition MU_SERVER_NONCE_LENGTH :: nat where "MU_SERVER_NONCE_LENGTH = 32"

definition generate_server_nonce :: "'e mu_server \<Rightarrow> (statuscode + byte list) \<times> 'e mu_server" where
  "generate_server_nonce s =
     (mu_session_generate_server_nonce (entropy_of s) MU_SERVER_NONCE_LENGTH, entropy_used MU_SERVER_NONCE_LENGTH s)"

definition fill_server_nonce :: "'e mu_server \<Rightarrow> byte list \<times> 'e mu_server" where
  "fill_server_nonce s =
    (case generate_server_nonce s of
       (Inr nonce, s) \<Rightarrow> (nonce, s)
     | (Inl _, s) \<Rightarrow> (replicate MU_SERVER_NONCE_LENGTH 0, s))"

section \<open>Preservation\<close>

definition keeps :: "('e mu_server \<Rightarrow> bool) \<Rightarrow> ('e, 'a) service \<Rightarrow> bool" where
  "keeps P m \<longleftrightarrow> (\<forall>h. P (sv h) \<longrightarrow> P (sv (snd (m h))))"

text \<open>A reading step over a request of \<open>n\<close> bytes that stays inside the buffer and reports
  a failure as a status other than Good; unlike a \<open>decoder_step\<close> it may move back.\<close>

definition rd_safe :: "nat \<Rightarrow> 'a rd \<Rightarrow> bool" where
  "rd_safe n m \<longleftrightarrow> (\<forall>r x r'. rd_ok r \<longrightarrow> rd_length r = n \<longrightarrow> m r = (x, r') \<longrightarrow>
     rd_buffer r' = rd_buffer r \<and> rd_length r' = n \<and> rd_position r' \<le> n \<and>
     (case x of Inl st \<Rightarrow> st \<noteq> MU_STATUS_GOOD | Inr _ \<Rightarrow> rd_status r' = MU_STATUS_GOOD))"

text \<open>A handler that stays inside the request and response buffers: it writes only between
  the old and the new cursor of the writer, which does not pass the end.\<close>

definition stays :: "nat \<Rightarrow> 'e service_state \<Rightarrow> statuscode + 'a \<Rightarrow> 'e service_state \<Rightarrow> bool" where
  "stays n h x h' \<longleftrightarrow> rd_buffer (rdr h') = rd_buffer (rdr h) \<and> rd_length (rdr h') = n \<and> rd_position (rdr h') \<le> n \<and>
     wr_frame (wtr h) (wtr h') \<and>
     (case x of Inl st \<Rightarrow> st \<noteq> MU_STATUS_GOOD
      | Inr _ \<Rightarrow> rd_status (rdr h') = MU_STATUS_GOOD \<and> wr_status (wtr h') = MU_STATUS_GOOD)"

definition ready :: "nat \<Rightarrow> 'e service_state \<Rightarrow> bool" where
  "ready n h \<longleftrightarrow> rd_ok (rdr h) \<and> rd_length (rdr h) = n \<and> wr_ok (wtr h)"

definition service_safe :: "nat \<Rightarrow> ('e, 'a) service \<Rightarrow> bool" where
  "service_safe n m \<longleftrightarrow> (\<forall>h x h'. ready n h \<longrightarrow> m h = (x, h') \<longrightarrow> stays n h x h')"

lemma keepsI: "(\<And>h x h'. m h = (x, h') \<Longrightarrow> P (sv h) \<Longrightarrow> P (sv h')) \<Longrightarrow> keeps P m"
  unfolding keeps_def by (metis prod.collapse)

lemma keeps_bind [keeps_intros]: "keeps P m \<Longrightarrow> (\<And>x. keeps P (f x)) \<Longrightarrow> keeps P (sbind m f)"
  by (fastforce simp: keeps_def sbind_def split: prod.splits sum.splits)

lemma keeps_pure [keeps_intros]:
  "keeps P (sreturn x)" "keeps P (sfail st)" "keeps P (sread r)" "keeps P (swrite w)" "keeps P (sget f)" "keeps P sdone"
  by (simp_all add: keeps_def sreturn_def sfail_def sread_def swrite_def sget_def sdone_def split: prod.splits)

lemma keeps_if [keeps_intros]:
  "(c \<Longrightarrow> keeps P m) \<Longrightarrow> (\<not> c \<Longrightarrow> keeps P k) \<Longrightarrow> keeps P (if c then m else k)"
  by simp

lemma keeps_option [keeps_intros]:
  "(x = None \<Longrightarrow> keeps P m) \<Longrightarrow> (\<And>y. x = Some y \<Longrightarrow> keeps P (f y)) \<Longrightarrow> keeps P (case x of None \<Rightarrow> m | Some y \<Rightarrow> f y)"
  by (cases x) auto

lemma keeps_sum [keeps_intros]:
  "(\<And>y. x = Inl y \<Longrightarrow> keeps P (f y)) \<Longrightarrow> (\<And>y. x = Inr y \<Longrightarrow> keeps P (g y)) \<Longrightarrow> keeps P (case x of Inl y \<Rightarrow> f y | Inr y \<Rightarrow> g y)"
  by (cases x) auto

lemma keeps_prod [keeps_intros]:
  "(\<And>y z. x = (y, z) \<Longrightarrow> keeps P (f y z)) \<Longrightarrow> keeps P (case x of (y, z) \<Rightarrow> f y z)"
  by (cases x) auto

lemma keeps_let [keeps_intros]: "(\<And>y. y = x \<Longrightarrow> keeps P (f y)) \<Longrightarrow> keeps P (let y = x in f y)"
  by (simp add: Let_def)

lemma keeps_when [keeps_intros]: "(c \<Longrightarrow> keeps P m) \<Longrightarrow> keeps P (swhen c m)"
  by (auto simp: swhen_def intro: keeps_intros)

lemma keeps_repeat [keeps_intros]: "keeps P m \<Longrightarrow> keeps P (srepeat n m)"
  by (induction n) (auto intro!: keeps_intros)

lemma keeps_each [keeps_intros]: "(\<And>x. x \<in> set xs \<Longrightarrow> keeps P (f x)) \<Longrightarrow> keeps P (seach xs f)"
  by (induction xs) (auto intro!: keeps_intros)

lemma keeps_put [keeps_intros]: "(\<And>s. P s \<Longrightarrow> P (snd (f s))) \<Longrightarrow> keeps P (sput f)"
  by (fastforce simp: keeps_def sput_def split: prod.splits)

lemma keeps_call [keeps_intros]: "(\<And>s. P s \<Longrightarrow> P (snd (f s))) \<Longrightarrow> keeps P (scall f)"
  by (fastforce simp: keeps_def scall_def split: prod.splits)

lemma keeps_prefix [keeps_intros]: "keeps P (write_response_prefix t r st)"
  unfolding write_response_prefix_def by (intro keeps_intros)

named_theorems service_safe_intros \<open>memory safety of a handler, by its structure\<close>

section \<open>Memory safety\<close>

lemma rd_safeD:
  assumes "rd_safe n m" "rd_ok r" "rd_length r = n" "m r = (x, r')"
  shows "rd_buffer r' = rd_buffer r" "rd_length r' = n" "rd_position r' \<le> n"
    "x = Inl st \<Longrightarrow> st \<noteq> MU_STATUS_GOOD" "x = Inr y \<Longrightarrow> rd_ok r'"
proof -
  have "rd_buffer r' = rd_buffer r \<and> rd_length r' = n \<and> rd_position r' \<le> n \<and>
     (case x of Inl st \<Rightarrow> st \<noteq> MU_STATUS_GOOD | Inr _ \<Rightarrow> rd_status r' = MU_STATUS_GOOD)"
    using assms unfolding rd_safe_def by blast
  thus "rd_buffer r' = rd_buffer r" "rd_length r' = n" "rd_position r' \<le> n" "x = Inl st \<Longrightarrow> st \<noteq> MU_STATUS_GOOD"
    "x = Inr y \<Longrightarrow> rd_ok r'"
    using assms(2,3) by (auto simp: rd_ok_def rd_wf_def)
qed

lemma rd_safe_step:
  assumes "decoder_step m"
  shows "rd_safe n m"
  unfolding rd_safe_def
proof (intro allI impI)
  fix r x r' assume r: "rd_ok r" "rd_length r = n" "m r = (x, r')"
  show "rd_buffer r' = rd_buffer r \<and> rd_length r' = n \<and> rd_position r' \<le> n \<and>
     (case x of Inl st \<Rightarrow> st \<noteq> MU_STATUS_GOOD | Inr _ \<Rightarrow> rd_status r' = MU_STATUS_GOOD)"
  proof (cases x)
    case (Inl st)
    thus ?thesis using decoder_step.step_err [OF assms r(1), of st r'] r by (auto simp: rd_frame_def)
  next
    case (Inr y)
    then obtain k where k: "k \<le> length (rd_rest r)" "r' = rd_skip k r" using decoder_step.step_ok [OF assms r(1) r(3) [unfolded Inr]] by blast
    hence "rd_ok r'" using r(1) by (simp add: rd_ok_skip)
    thus ?thesis using k r Inr by (simp add: rd_skip_def rd_ok_def rd_wf_def)
  qed
qed

lemma rd_safe_bind [service_safe_intros]:
  assumes m: "rd_safe n m" and f: "\<And>x. rd_safe n (f x)"
  shows "rd_safe n (rbind m f)"
  unfolding rd_safe_def
proof (intro allI impI)
  fix r y r' assume r: "rd_ok r" "rd_length r = n" "rbind m f r = (y, r')"
  obtain x q where x: "m r = (x, q)" by fastforce
  note mq = rd_safeD [OF m r(1,2) x]
  show "rd_buffer r' = rd_buffer r \<and> rd_length r' = n \<and> rd_position r' \<le> n \<and>
     (case y of Inl st \<Rightarrow> st \<noteq> MU_STATUS_GOOD | Inr _ \<Rightarrow> rd_status r' = MU_STATUS_GOOD)"
  proof (cases x)
    case (Inl st)
    thus ?thesis using mq r(3) x by (auto simp: rbind_def)
  next
    case (Inr a)
    hence "f a q = (y, r')" using r(3) x by (simp add: rbind_def)
    from f [of a, unfolded rd_safe_def, rule_format, OF mq(5) [OF Inr] mq(2) this] show ?thesis using mq(1) by simp
  qed
qed

lemma service_safeI: "(\<And>h x h'. ready n h \<Longrightarrow> m h = (x, h') \<Longrightarrow> stays n h x h') \<Longrightarrow> service_safe n m"
  by (simp add: service_safe_def)

lemma service_safeD: "service_safe n m \<Longrightarrow> ready n h \<Longrightarrow> m h = (x, h') \<Longrightarrow> stays n h x h'"
  by (simp add: service_safe_def)

text \<open>The cursor did not move.\<close>

lemma stays_same:
  assumes "ready n h" "rdr h' = rdr h" "wtr h' = wtr h" "\<And>st. x = Inl st \<Longrightarrow> st \<noteq> MU_STATUS_GOOD"
  shows "stays n h x h'"
  using assms by (auto simp: stays_def ready_def rd_ok_def rd_wf_def wr_ok_def split: sum.split elim: wr_okD)

lemma stays_ready:
  assumes "ready n h" "stays n h (Inr x) h'"
  shows "ready n h'"
  using assms wr_frame_ok [of "wtr h" "wtr h'"] by (auto simp: stays_def ready_def rd_ok_def rd_wf_def split: option.splits)

lemma stays_trans:
  assumes "ready n h" "stays n h (Inr x) h'" "stays n h' y h''"
  shows "stays n h y h''"
  using assms wr_frame_trans [of "wtr h" "wtr h'" "wtr h''"] by (auto simp: stays_def ready_def)

lemma service_safe_read [service_safe_intros]:
  assumes "rd_safe n m"
  shows "service_safe n (sread m)"
proof (rule service_safeI)
  fix h x h' assume h: "ready n h" "sread m h = (x, h')"
  obtain r' where r: "m (rdr h) = (x, r')" "h' = h\<lparr>rdr := r'\<rparr>" using h(2) by (auto simp: sread_def split: prod.splits)
  have ok: "rd_ok (rdr h)" "rd_length (rdr h) = n" "wr_ok (wtr h)" using h(1) by (simp_all add: ready_def)
  show "stays n h x h'"
    using rd_safeD [OF assms ok(1,2) r(1)] ok(3) r(2) by (cases x) (auto simp: stays_def rd_ok_def wr_ok_def elim: wr_okD)
qed

lemma service_safe_write [service_safe_intros]:
  assumes "encoder_step m"
  shows "service_safe n (swrite m)"
proof (rule service_safeI)
  fix h x h' assume h: "ready n h" "swrite m h = (x, h')"
  obtain st w' where w: "m (wtr h) = (st, w')" by fastforce
  have ok: "wr_ok (wtr h)" using h(1) by (simp add: ready_def)
  show "stays n h x h'"
    using h encoder_step.put_frame [OF assms ok w] encoder_step.put_good [OF assms ok] w
    by (auto simp: swrite_def stays_def ready_def rd_ok_def rd_wf_def split: if_splits)
qed

lemma service_safe_pure [service_safe_intros]:
  "service_safe n (sreturn x)" "service_safe n (sget f)" "service_safe n (sput g)" "service_safe n sdone"
  by (auto simp: service_safe_def sreturn_def sget_def sput_def sdone_def split: prod.splits intro!: stays_same)

lemma service_safe_fail [service_safe_intros]: "st \<noteq> MU_STATUS_GOOD \<Longrightarrow> service_safe n (sfail st)"
  by (auto simp: service_safe_def sfail_def intro!: stays_same)

lemma service_safe_call [service_safe_intros]:
  "(\<And>s st s'. f s = (Inl st, s') \<Longrightarrow> st \<noteq> MU_STATUS_GOOD) \<Longrightarrow> service_safe n (scall f)"
  by (auto simp: service_safe_def scall_def split: prod.splits intro!: stays_same)

lemma service_safe_bind [service_safe_intros]:
  assumes m: "service_safe n m" and f: "\<And>x. service_safe n (f x)"
  shows "service_safe n (sbind m f)"
proof (rule service_safeI)
  fix h y h' assume h: "ready n h" "sbind m f h = (y, h')"
  obtain x g where x: "m h = (x, g)" by fastforce
  note mg = service_safeD [OF m h(1) x]
  show "stays n h y h'"
  proof (cases x)
    case (Inl st)
    thus ?thesis using mg h(2) x by (auto simp: sbind_def stays_def)
  next
    case (Inr a)
    hence "f a g = (y, h')" using h(2) x by (simp add: sbind_def)
    thus ?thesis using service_safeD [OF f stays_ready [OF h(1) mg [unfolded Inr]]] stays_trans [OF h(1) mg [unfolded Inr]] by blast
  qed
qed

lemma service_safe_if [service_safe_intros]:
  "(c \<Longrightarrow> service_safe n m) \<Longrightarrow> (\<not> c \<Longrightarrow> service_safe n k) \<Longrightarrow> service_safe n (if c then m else k)"
  by simp

lemma service_safe_option [service_safe_intros]:
  "(x = None \<Longrightarrow> service_safe n m) \<Longrightarrow> (\<And>y. x = Some y \<Longrightarrow> service_safe n (f y)) \<Longrightarrow>
   service_safe n (case x of None \<Rightarrow> m | Some y \<Rightarrow> f y)"
  by (cases x) auto

lemma service_safe_sum [service_safe_intros]:
  "(\<And>y. x = Inl y \<Longrightarrow> service_safe n (f y)) \<Longrightarrow> (\<And>y. x = Inr y \<Longrightarrow> service_safe n (g y)) \<Longrightarrow>
   service_safe n (case x of Inl y \<Rightarrow> f y | Inr y \<Rightarrow> g y)"
  by (cases x) auto

lemma service_safe_prod [service_safe_intros]:
  "(\<And>y z. x = (y, z) \<Longrightarrow> service_safe n (f y z)) \<Longrightarrow> service_safe n (case x of (y, z) \<Rightarrow> f y z)"
  by (cases x) auto

lemma service_safe_let [service_safe_intros]: "(\<And>y. y = x \<Longrightarrow> service_safe n (f y)) \<Longrightarrow> service_safe n (let y = x in f y)"
  by (simp add: Let_def)

lemma service_safe_when [service_safe_intros]: "(c \<Longrightarrow> service_safe n m) \<Longrightarrow> service_safe n (swhen c m)"
  by (auto simp: swhen_def intro: service_safe_intros)

lemma service_safe_repeat [service_safe_intros]: "service_safe n m \<Longrightarrow> service_safe n (srepeat k m)"
  by (induction k) (auto intro!: service_safe_intros)

lemma service_safe_each [service_safe_intros]:
  "(\<And>x. x \<in> set xs \<Longrightarrow> service_safe n (f x)) \<Longrightarrow> service_safe n (seach xs f)"
  by (induction xs) (auto intro!: service_safe_intros)

lemma encoder_step_prefix [safe_intros]: "encoder_step (response_prefix t r st)"
  unfolding response_prefix_def mu_response_header_encode_def by (intro safe_intros)

lemma service_safe_prefix [service_safe_intros]: "service_safe n (write_response_prefix t r st)"
  unfolding write_response_prefix_def by (intro service_safe_intros safe_intros)

lemma decoder_step_header [safe_intros]: "decoder_step mu_request_header_decode"
  by (rule decoder_stepI [OF decoder_request_header])

lemma rd_rest_length: "rd_ok r \<Longrightarrow> length (rd_rest r) = rd_length r - rd_position r"
  by (auto simp: rd_ok_def rd_wf_def rd_rest_def)

lemma rd_safe_ensure [service_safe_intros]: "rd_safe n (ensure_reader_bytes_remaining k)" "rd_safe n (ensure_array_items_min_remaining c k)"
  by (auto simp: rd_safe_def ensure_reader_bytes_remaining_def ensure_array_items_min_remaining_def rd_ok_def rd_wf_def
      split: if_splits)

lemma rd_safe_skip_body [service_safe_intros]: "rd_safe n (skip_extension_object_body k)"
  by (auto simp: rd_safe_def skip_extension_object_body_def rbind_def ensure_reader_bytes_remaining_def rd_skip_def rd_ok_def rd_wf_def
      split: if_splits)

lemma decoder_step_rmap [safe_intros]: "decoder_step m \<Longrightarrow> decoder_step (rmap f m)"
  unfolding rmap_def by (intro safe_intros)

section \<open>Footprints\<close>

text \<open>What a handler may change of the server is a reflexive and transitive relation \<open>R\<close>.
  \<open>within\<close> says that every path of the handler, early returns included, stays in \<open>R\<close>; the
  reader is kept well formed so that the rules may use what the decoders deliver.\<close>

locale footprint =
  fixes R :: "'e mu_server \<Rightarrow> 'e mu_server \<Rightarrow> bool"
  assumes same: "R s s"
    and chain: "\<lbrakk>R s t; R t u\<rbrakk> \<Longrightarrow> R s u"
begin

definition within :: "('e, 'a) service \<Rightarrow> bool" where
  "within m \<longleftrightarrow> (\<forall>h x h'. rd_ok (rdr h) \<longrightarrow> m h = (x, h') \<longrightarrow> R (sv h) (sv h') \<and> (\<forall>y. x = Inr y \<longrightarrow> rd_ok (rdr h')))"

lemma withinI:
  "(\<And>h x h'. \<lbrakk>rd_ok (rdr h); m h = (x, h')\<rbrakk> \<Longrightarrow> R (sv h) (sv h') \<and> (\<forall>y. x = Inr y \<longrightarrow> rd_ok (rdr h'))) \<Longrightarrow> within m"
  by (simp add: within_def)

lemma withinD: "\<lbrakk>within m; rd_ok (rdr h); m h = (x, h')\<rbrakk> \<Longrightarrow> R (sv h) (sv h')"
  by (auto simp: within_def)

lemma within_bind:
  assumes m: "within m" and f: "\<And>x. within (f x)"
  shows "within (sbind m f)"
proof (rule withinI)
  fix h y h' assume h: "rd_ok (rdr h)" "sbind m f h = (y, h')"
  obtain x g where x: "m h = (x, g)" by fastforce
  note mg = m [unfolded within_def, rule_format, OF h(1) x]
  show "R (sv h) (sv h') \<and> (\<forall>z. y = Inr z \<longrightarrow> rd_ok (rdr h'))"
  proof (cases x)
    case (Inl st)
    thus ?thesis using mg h(2) x by (auto simp: sbind_def)
  next
    case (Inr a)
    hence "f a g = (y, h')" "rd_ok (rdr g)" using h(2) x mg by (simp_all add: sbind_def)
    from f [unfolded within_def, rule_format, OF this(2,1)] show ?thesis using mg chain by blast
  qed
qed

lemma within_read_bind:
  assumes m: "decoder_step m" "rd_yields Q m" and f: "\<And>x. Q x \<Longrightarrow> within (f x)"
  shows "within (sbind (sread m) f)"
proof (rule withinI)
  fix h y h' assume h: "rd_ok (rdr h)" "sbind (sread m) f h = (y, h')"
  obtain x r where x: "m (rdr h) = (x, r)" by fastforce
  show "R (sv h) (sv h') \<and> (\<forall>z. y = Inr z \<longrightarrow> rd_ok (rdr h'))"
  proof (cases x)
    case (Inl st)
    thus ?thesis using h(2) x same by (auto simp: sbind_def sread_def)
  next
    case (Inr a)
    hence a: "Q a" "rd_ok r" "f a (h\<lparr>rdr := r\<rparr>) = (y, h')"
      using rd_yieldsD [OF m(2) h(1)] decoder_step_ok [OF m(1) h(1)] h(2) x by (auto simp: sbind_def sread_def)
    from f [OF a(1), unfolded within_def, rule_format, OF _ a(3)] a(2) show ?thesis by simp
  qed
qed

lemma within_read: "decoder_step m \<Longrightarrow> within (sread m)"
  by (rule withinI) (auto simp: sread_def same decoder_step_ok split: prod.splits)

lemma within_pure: "within (sreturn x)" "within (sfail st)" "within (swrite w)" "within (sget f)" "within sdone"
  "within (write_response_prefix t r st)"
  by (auto intro!: withinI simp: sreturn_def sfail_def swrite_def sget_def sdone_def write_response_prefix_def same split: prod.splits)

lemma within_put: "(\<And>s. R s (snd (f s))) \<Longrightarrow> within (sput f)"
  by (rule withinI) (auto simp: sput_def split: prod.splits, metis snd_conv)

lemma within_call: "(\<And>s. R s (snd (f s))) \<Longrightarrow> within (scall f)"
  by (rule withinI) (auto simp: scall_def split: prod.splits, (metis snd_conv)+)

lemma within_if: "(c \<Longrightarrow> within m) \<Longrightarrow> (\<not> c \<Longrightarrow> within k) \<Longrightarrow> within (if c then m else k)"
  by simp

lemma within_option:
  "(x = None \<Longrightarrow> within m) \<Longrightarrow> (\<And>y. x = Some y \<Longrightarrow> within (f y)) \<Longrightarrow> within (case x of None \<Rightarrow> m | Some y \<Rightarrow> f y)"
  by (cases x) auto

lemma within_sum:
  "(\<And>y. x = Inl y \<Longrightarrow> within (f y)) \<Longrightarrow> (\<And>y. x = Inr y \<Longrightarrow> within (g y)) \<Longrightarrow> within (case x of Inl y \<Rightarrow> f y | Inr y \<Rightarrow> g y)"
  by (cases x) auto

lemma within_prod: "(\<And>y z. x = (y, z) \<Longrightarrow> within (f y z)) \<Longrightarrow> within (case x of (y, z) \<Rightarrow> f y z)"
  by (cases x) auto

lemma within_let: "(\<And>y. y = x \<Longrightarrow> within (f y)) \<Longrightarrow> within (let y = x in f y)"
  by (simp add: Let_def)

lemma within_when: "(c \<Longrightarrow> within m) \<Longrightarrow> within (swhen c m)"
  by (auto simp: swhen_def within_pure)

lemma within_repeat: "within m \<Longrightarrow> within (srepeat n m)"
  by (induction n) (auto intro!: within_bind within_pure)

lemma within_each: "(\<And>x. x \<in> set xs \<Longrightarrow> within (f x)) \<Longrightarrow> within (seach xs f)"
  by (induction xs) (auto intro!: within_bind within_pure)

lemmas within_intros = within_bind within_read within_pure within_if within_option within_sum within_prod within_let
  within_when within_repeat within_each

end

end
