(* ===== verification/Engine.thy ===== *)
theory Engine
  imports Notification
begin

text \<open>
  The invariant of the whole subscription engine, which adds to \<^const>\<open>table_inv\<close> that the
  report queue, the trigger links and the parked requests are well formed, and its preservation by
  every operation of \<^verbatim>\<open>src/services/subscription.c\<close>.
\<close>

section \<open>The invariant\<close>

definition item_ok :: "mu_monitored_item \<Rightarrow> bool" where
  "item_ok item \<longleftrightarrow> queue_inv item \<and> links_ok item"

definition request_ok :: "mu_publish_request \<Rightarrow> bool" where
  "request_ok r \<longleftrightarrow> length (ack_results r) = MU_MAX_PUBLISH_ACKS \<and> unat (ack_count r) \<le> MU_MAX_PUBLISH_ACKS"

definition engine_inv :: "mu_subscriptions \<Rightarrow> bool" where
  "engine_inv subs \<longleftrightarrow> table_inv subs \<and> list_all (\<lambda>item. mi_in_use item \<longrightarrow> item_ok item) (monitored_items subs) \<and>
     list_all request_ok (publish_queue subs)"

text \<open>An update of one item that keeps what the invariant says about it.\<close>

definition item_kept :: "mu_monitored_item \<Rightarrow> mu_monitored_item \<Rightarrow> bool" where
  "item_kept a b \<longleftrightarrow> mi_in_use b = mi_in_use a \<and> monitored_item_id b = monitored_item_id a \<and>
     mi_subscription_id b = mi_subscription_id a \<and> (mi_in_use a \<longrightarrow> item_ok a \<longrightarrow> item_ok b)"

lemma engine_invD: "engine_inv subs \<Longrightarrow> table_inv subs"
  by (simp add: engine_inv_def)

lemma item_kept_refl [simp]: "item_kept a a"
  by (simp add: item_kept_def)

lemma item_kept_trans: "item_kept a b \<Longrightarrow> item_kept b c \<Longrightarrow> item_kept a c"
  by (auto simp: item_kept_def)

lemma items_kept_unique:
  assumes "list_all2 item_kept xs ys" "unique_ids mi_in_use monitored_item_id xs"
  shows "unique_ids mi_in_use monitored_item_id ys"
  using assms unfolding unique_ids_def by (simp add: list_all2_conv_all_nth item_kept_def)

lemma items_kept_all:
  assumes "list_all2 item_kept xs ys"
    and "list_all (\<lambda>item. mi_in_use item \<longrightarrow> monitored_item_id item \<noteq> 0 \<and> owned ss item) xs"
    and "list_all (\<lambda>item. mi_in_use item \<longrightarrow> item_ok item) xs"
  shows "list_all (\<lambda>item. mi_in_use item \<longrightarrow> monitored_item_id item \<noteq> 0 \<and> owned ss item) ys \<and>
    list_all (\<lambda>item. mi_in_use item \<longrightarrow> item_ok item) ys \<and> length (filter mi_in_use ys) = length (filter mi_in_use xs)"
  using assms by (induction rule: list_all2_induct) (auto simp: item_kept_def owned_def)

lemma items_kept_engine:
  assumes "engine_inv subs" "list_all2 item_kept (monitored_items subs) items"
  shows "engine_inv (subs\<lparr>monitored_items := items\<rparr>)"
  using assms(1) items_kept_unique [OF assms(2)] list_all2_lengthD [OF assms(2)]
    items_kept_all [OF assms(2), of "subscriptions subs"]
  by (simp add: engine_inv_def table_inv_def)

lemma items_kept_map:
  "(\<And>x. item_kept x (f x)) \<Longrightarrow> list_all2 item_kept xs (map f xs)"
  by (simp add: list_all2_conv_all_nth)

lemma update_item_engine:
  assumes "engine_inv subs" "item_kept (monitored_items subs ! i) (f (monitored_items subs ! i))"
  shows "engine_inv (update_item i f subs)"
  unfolding update_item_def
proof (rule items_kept_engine [OF assms(1)])
  show "list_all2 item_kept (monitored_items subs) ((monitored_items subs)[i := f (monitored_items subs ! i)])"
    using assms(2) by (simp add: list_all2_conv_all_nth nth_update)
qed

lemma update_subscription_engine:
  assumes "engine_inv subs" "i < length (subscriptions subs)"
    and "sub_in_use (f (subscriptions subs ! i)) = sub_in_use (subscriptions subs ! i)"
    and "subscription_id (f (subscriptions subs ! i)) = subscription_id (subscriptions subs ! i)"
    and "sub_in_use (subscriptions subs ! i) \<Longrightarrow> sub_ok (subscriptions subs ! i) \<Longrightarrow> sub_ok (f (subscriptions subs ! i))"
  shows "engine_inv (update_subscription i f subs)"
  using assms(1) update_subscription_table_inv [of subs i f, OF _ assms(2-5)]
  by (simp add: engine_inv_def update_subscription_def)

section \<open>Items\<close>

lemma record_reported_kept: "item_kept item (monitored_item_record_reported fp v item)"
  by (simp add: item_kept_def item_ok_def monitored_item_record_reported_def queue_inv_def links_ok_def split: option.split)

lemma enqueue_report_kept: "item_kept item (monitored_item_enqueue_report fp cur status item)"
proof -
  have "mi_in_use (monitored_item_enqueue_report fp cur status item) = mi_in_use item"
    "monitored_item_id (monitored_item_enqueue_report fp cur status item) = monitored_item_id item"
    "mi_subscription_id (monitored_item_enqueue_report fp cur status item) = mi_subscription_id item"
    "links_ok (monitored_item_enqueue_report fp cur status item) = links_ok item"
    by (simp_all add: monitored_item_enqueue_report_def monitored_item_effective_queue_size_def links_ok_def
        monitored_item_record_reported_def monitored_item_mark_overflow_def queue_store_def Let_def split: option.split)
  thus ?thesis by (simp add: item_kept_def item_ok_def enqueue_report_inv)
qed

lemma prepare_pending_kept: "item_kept item (monitored_item_prepare_pending_queue fp item)"
  by (simp add: monitored_item_prepare_pending_queue_def enqueue_report_kept record_reported_kept)

text \<open>Fields the invariant does not mention.\<close>

lemma item_field_kept:
  "item_kept item (item\<lparr>last_value := v, last_status := s, mi_has_value := b\<rparr>)"
  "item_kept item (item\<lparr>last_value := v, last_status := s\<rparr>)"
  "item_kept item (item\<lparr>last_status := s\<rparr>)"
  "item_kept item (item\<lparr>next_sample_ms := t\<rparr>)"
  "item_kept item (item\<lparr>aggregate_state := ag\<rparr>)"
  "item_kept item (item\<lparr>monitoring_mode := m\<rparr>)"
  by (simp_all add: item_kept_def item_ok_def queue_inv_def links_ok_def)

lemma publish_aggregate_kept: "item_kept item (monitored_item_publish_aggregate fp now item)"
  by (auto simp: monitored_item_publish_aggregate_def Let_def split: prod.split
      intro: item_kept_trans [OF enqueue_report_kept item_field_kept(5)])

lemma accumulate_aggregate_kept: "item_kept item (monitored_item_accumulate_aggregate fp cur item)"
  by (simp add: monitored_item_accumulate_aggregate_def Let_def item_field_kept split: option.split)

lemma advance_sample_timer_kept: "item_kept item (advance_sample_timer now item)"
  by (simp add: advance_sample_timer_def Let_def item_field_kept)

lemmas item_steps = enqueue_report_kept prepare_pending_kept publish_aggregate_kept accumulate_aggregate_kept
  advance_sample_timer_kept item_field_kept

lemma sample_item_kept: "item_kept item (sample_item fp callbacks now item)"
proof -
  note step = item_kept_trans [of item]
  define a where "a = (if has_aggregate item \<and>
                    fp_le fp (ag_processing_interval (aggregate_state item))
                      (fp_of_int fp (uint (now - ag_last_calculation (aggregate_state item))))
                 then monitored_item_publish_aggregate fp now item else item)"
  have a: "item_kept item a" by (simp add: a_def item_steps)
  have i: "item_kept item (if c then f a else a)" if "item_kept a (f a)" for c and f :: "mu_monitored_item \<Rightarrow> mu_monitored_item"
    using a step [OF a that] by simp
  show ?thesis
    unfolding sample_item_def Let_def a_def [symmetric]
    by (auto intro!: a step [OF _ advance_sample_timer_kept] step [OF _ enqueue_report_kept] step [OF _ item_field_kept(1)]
        step [OF _ item_field_kept(2)] step [OF _ accumulate_aggregate_kept] step [OF _ prepare_pending_kept] split: prod.split)
qed

lemma resend_item_kept: "item_kept item (resend_item fp callbacks item)"
  by (auto simp: resend_item_def Let_def split: prod.split
      intro!: item_kept_trans [OF _ enqueue_report_kept] item_field_kept)

lemma drain_reported_kept: "item_kept item (fst (monitored_item_drain_reported_entries n item))"
proof -
  have "mi_in_use (fst (monitored_item_drain_reported_entries n item)) = mi_in_use item"
    "monitored_item_id (fst (monitored_item_drain_reported_entries n item)) = monitored_item_id item"
    "mi_subscription_id (fst (monitored_item_drain_reported_entries n item)) = mi_subscription_id item"
    "links_ok (fst (monitored_item_drain_reported_entries n item)) = links_ok item"
    by (simp_all add: monitored_item_drain_reported_entries_def monitored_item_effective_queue_size_def links_ok_def
        Let_def split: prod.split)
  thus ?thesis by (simp add: item_kept_def item_ok_def drain_reported)
qed

section \<open>Sampling and publishing\<close>

lemma sample_loop_kept: "list_all2 item_kept items (sample_loop fp callbacks now left items)"
  by (induction left items rule: sample_loop.induct [of "\<lambda>_ _ _ left items. list_all2 item_kept items (sample_loop fp callbacks now left items)" fp callbacks now])
    (auto simp: sample_item_kept list_all2_refl)

lemma sample_engine: "engine_inv subs \<Longrightarrow> engine_inv (subscriptions_sample fp callbacks now subs)"
  unfolding subscriptions_sample_def by (erule items_kept_engine) (rule sample_loop_kept)

lemma prepare_queues_kept: "list_all2 item_kept items (prepare_reportable_queues fp sub items)"
  unfolding prepare_reportable_queues_def by (rule items_kept_map) (simp add: prepare_pending_kept)

lemma resend_data_kept: "list_all2 item_kept items (fst (enqueue_resend_data fp callbacks sub items))"
  by (simp add: enqueue_resend_data_def list_all2_refl items_kept_map resend_item_kept)

lemma drain_reportable_kept: "list_all2 item_kept items (fst (drain_reportable sub items n))"
  by (induction items arbitrary: n) (simp_all add: list_all2_refl Let_def split_beta drain_reported_kept)

lemma drain_flagged_kept: "list_all2 item_kept items (fst (drain_flagged flags items n))"
proof (induction items arbitrary: flags n)
  case (Cons item items)
  thus ?case by (cases flags) (simp_all add: list_all2_refl Let_def split_beta drain_reported_kept)
qed (cases flags, simp_all)

lemma clear_reported_kept: "list_all2 item_kept items (clear_reported_items sub n items)"
  unfolding clear_reported_items_def Let_def split_beta
  by (rule list_all2_trans [OF item_kept_trans drain_reportable_kept drain_flagged_kept])

section \<open>The operations of the tables\<close>

lemma table_engine:
  assumes "engine_inv subs" "table_inv subs'" "publish_queue subs' = publish_queue subs"
    and "\<And>item. item \<in> set (monitored_items subs') \<Longrightarrow> mi_in_use item \<Longrightarrow> item \<in> set (monitored_items subs) \<or> item_ok item"
  shows "engine_inv subs'"
  using assms by (auto simp: engine_inv_def list_all_iff)

lemma create_engine:
  assumes "engine_inv subs"
  shows "engine_inv (snd (mu_subscription_create session interval l k m p enabled now subs))"
proof (rule table_engine [OF assms create_table_inv [OF engine_invD [OF assms]]])
  have f: "publish_queue (snd (mu_subscription_create session interval l k m p enabled now subs)) = publish_queue subs \<and>
    monitored_items (snd (mu_subscription_create session interval l k m p enabled now subs)) = monitored_items subs"
    by (simp add: mu_subscription_create_def allocate_subscription_id_def Let_def split: option.split prod.split)
  thus "publish_queue (snd (mu_subscription_create session interval l k m p enabled now subs)) = publish_queue subs" by simp
  show "item \<in> set (monitored_items (snd (mu_subscription_create session interval l k m p enabled now subs))) \<Longrightarrow>
    item \<in> set (monitored_items subs) \<or> item_ok item" for item using f by simp
qed

lemma delete_engine:
  assumes "engine_inv subs"
  shows "engine_inv (snd (mu_subscription_delete session sid subs))"
proof (rule table_engine [OF assms delete_table_inv [OF engine_invD [OF assms]]])
  show "publish_queue (snd (mu_subscription_delete session sid subs)) = publish_queue subs"
    by (simp add: mu_subscription_delete_def Let_def split: option.split prod.split)
  show "item \<in> set (monitored_items (snd (mu_subscription_delete session sid subs))) \<Longrightarrow> mi_in_use item \<Longrightarrow>
    item \<in> set (monitored_items subs) \<or> item_ok item" for item
    by (auto simp: mu_subscription_delete_def Let_def split_beta delete_items_fst split: option.splits if_splits)
qed

lemma item_delete_engine:
  assumes "engine_inv subs"
  shows "engine_inv (snd (mu_monitored_item_delete sid iid subs))"
proof (rule table_engine [OF assms item_delete_table_inv [OF engine_invD [OF assms]]])
  show "publish_queue (snd (mu_monitored_item_delete sid iid subs)) = publish_queue subs"
    by (simp add: mu_monitored_item_delete_def split: option.split)
  show "item \<in> set (monitored_items (snd (mu_monitored_item_delete sid iid subs))) \<Longrightarrow> mi_in_use item \<Longrightarrow>
    item \<in> set (monitored_items subs) \<or> item_ok item" for item
    by (auto simp: mu_monitored_item_delete_def split: option.splits dest!: subsetD [OF set_update_subset_insert])
qed

text \<open>CreateMonitoredItems allocates an item and fills in its fields; the invariant holds
  again after that.\<close>

lemma alloc_engine:
  assumes "engine_inv subs" "subscription_id_in_use subs sid" "mu_monitored_item_alloc sid subs = (Inr i, subs')"
    and "mi_in_use (f (monitored_items subs' ! i))"
    and "monitored_item_id (f (monitored_items subs' ! i)) = monitored_item_id (monitored_items subs' ! i)"
    and "mi_subscription_id (f (monitored_items subs' ! i)) = mi_subscription_id (monitored_items subs' ! i)"
    and "item_ok (f (monitored_items subs' ! i))"
  shows "engine_inv (update_item i f subs')"
proof (rule table_engine [OF assms(1)])
  have t: "table_inv subs'" using alloc_table_inv [OF engine_invD [OF assms(1)] assms(2)] assms(3) by simp
  have i: "i < length (monitored_items subs')" "mi_in_use (monitored_items subs' ! i)"
    and s: "monitored_items subs' = (monitored_items subs)[i := monitored_items subs' ! i]"
    and q: "publish_queue subs' = publish_queue subs"
    using assms(3) find_index_SomeD [of "\<lambda>item. \<not> mi_in_use item" "monitored_items subs" i]
    by (auto simp: mu_monitored_item_alloc_def allocate_monitored_item_id_def Let_def split: option.splits prod.splits if_splits)
  show "table_inv (update_item i f subs')"
    using update_item_table_inv [OF t i(1), of f] i(2) assms(4-6) by simp
  show "publish_queue (update_item i f subs') = publish_queue subs" using q by (simp add: update_item_def)
  have "monitored_items (update_item i f subs') = (monitored_items subs)[i := f (monitored_items subs' ! i)]"
    using arg_cong [OF s, of "\<lambda>xs. xs[i := f (monitored_items subs' ! i)]"] by (simp add: update_item_def)
  thus "item \<in> set (monitored_items (update_item i f subs')) \<Longrightarrow> item \<in> set (monitored_items subs) \<or> item_ok item" for item
    using set_update_subset_insert [of "monitored_items subs" i "f (monitored_items subs' ! i)"] assms(7) by auto
qed

lemma alloc_failed_engine:
  assumes "engine_inv subs" "mu_monitored_item_alloc sid subs = (Inl st, subs')"
  shows "engine_inv subs'"
  using assms
  by (auto simp: mu_monitored_item_alloc_def allocate_monitored_item_id_def Let_def engine_inv_def table_inv_def
      split: option.splits prod.splits if_splits)

lemma publish_queue_engine:
  assumes "engine_inv subs" "request_ok r"
  shows "engine_inv (subs\<lparr>publish_queue := (publish_queue subs)[i := r]\<rparr>)"
  using assms publish_queue_table_inv [OF engine_invD [OF assms(1)]] table_invD(3) [OF engine_invD [OF assms(1)]]
  by (simp add: engine_inv_def list_all_update)

lemma zero_request_ok: "request_ok zero_publish_request"
  by (simp add: request_ok_def zero_publish_request_def)

lemma enqueue_engine: "engine_inv subs \<Longrightarrow> engine_inv (snd (mu_publish_request_enqueue session rid handle now subs))"
  by (simp add: mu_publish_request_enqueue_def split: option.split)
    (use zero_request_ok in \<open>auto simp: request_ok_def intro!: publish_queue_engine\<close>)

lemma dequeue_engine:
  "\<lbrakk>engine_inv subs; publish_request_dequeue session subs = Some (req, subs')\<rbrakk> \<Longrightarrow> engine_inv subs'"
  by (auto simp: publish_request_dequeue_def split: option.splits intro!: publish_queue_engine zero_request_ok)

lemma acknowledge_engine: "engine_inv subs \<Longrightarrow> engine_inv (snd (mu_subscription_acknowledge session sid seq subs))"
  using acknowledge_table_inv [of subs session sid seq]
  by (auto simp: engine_inv_def mu_subscription_acknowledge_def update_subscription_def Let_def split: option.split)

lemma resend_engine: "engine_inv subs \<Longrightarrow> engine_inv (snd (mu_subscription_request_resend_data session sid subs))"
  using resend_table_inv [of subs session sid]
  by (auto simp: engine_inv_def mu_subscription_request_resend_data_def update_subscription_def split: option.split)

lemma trigger_event_engine: "engine_inv subs \<Longrightarrow> engine_inv (snd (mu_server_trigger_event event subs))"
  using trigger_event_table_inv [of subs event] by (simp add: engine_inv_def mu_server_trigger_event_def)

lemma add_link_engine: "engine_inv subs \<Longrightarrow> engine_inv (snd (mu_monitored_item_add_trigger_link sid a b subs))"
  by (auto simp: mu_monitored_item_add_trigger_link_def Let_def split: option.split
      intro!: update_item_engine simp: item_kept_def item_ok_def links_ok_def queue_inv_def)

lemma remove_link_engine: "engine_inv subs \<Longrightarrow> engine_inv (snd (mu_monitored_item_remove_trigger_link sid a b subs))"
  by (auto simp: mu_monitored_item_remove_trigger_link_def Let_def split: option.split
      intro!: update_item_engine simp: item_kept_def item_ok_def links_ok_def queue_inv_def)

lemma init_engine: "engine_inv mu_subscriptions_init"
  using init_table_inv zero_request_ok
  by (simp add: engine_inv_def mu_subscriptions_init_def list_all_iff del: One_nat_def)

end
