(* ===== verification/Server_Invariant.thy ===== *)
theory Server_Invariant
  imports Service_Core Engine
begin

text \<open>
  The invariant of the whole server: of the session table, the subscription engine and every
  connection's channel and receive buffer, and of what ties them together.  A session that
  is being served is in use, and every subscription belongs to a session id that is not
  zero.  The lemmas are the preservation rules for the updates that the services and the
  main loop are made of; those of whole handlers are in the collection \<open>keeps_intros\<close>.
\<close>

section \<open>The invariant\<close>

definition conn_ok :: "mu_connection \<Rightarrow> bool" where
  "conn_ok c \<longleftrightarrow> channel_inv (secure_channel c) \<and> length (rx_buffer c) = MU_CONNECTION_RX_BUFFER_SIZE \<and>
     rx_len c \<le> MU_CONNECTION_RX_BUFFER_SIZE"

definition subs_owned :: "mu_subscriptions \<Rightarrow> bool" where
  "subs_owned e = list_all (\<lambda>sub. sub_in_use sub \<longrightarrow> sub_session_id sub \<noteq> 0) (subscriptions e)"

definition session_served :: "mu_session list \<Rightarrow> nat option \<Rightarrow> bool" where
  "session_served ss active =
    (case active of None \<Rightarrow> True | Some j \<Rightarrow> j < MU_MAX_SESSIONS \<and> ss_state (ss ! j) \<noteq> MU_SESSION_STATE_CLOSED)"

definition server_inv :: "'e mu_server \<Rightarrow> bool" where
  "server_inv s \<longleftrightarrow> sessions_inv (sessions s) \<and> engine_inv (subs s) \<and> subs_owned (subs s) \<and>
     length (conns s) = MU_MAX_CONNECTIONS \<and> list_all conn_ok (conns s) \<and> conn_ok (own_conn s) \<and>
     (case active_conn s of None \<Rightarrow> True | Some i \<Rightarrow> i < MU_MAX_CONNECTIONS) \<and>
     session_served (sessions s) (active_session s) \<and>
     dyn_inv (dynamic_address_space s) \<and> length (registered_methods s) \<le> MU_MAX_REGISTERED_METHODS \<and>
     length (writer_groups s) \<le> MU_MAX_WRITER_GROUPS \<and> length (query_points s) = MU_MAX_QUERY_CONTINUATION_POINTS"

section \<open>Updates that keep it\<close>

lemma server_inv_fields [simp]:
  "server_inv (s\<lparr>env := e\<rparr>) = server_inv s" "server_inv (s\<lparr>send_buffer := b\<rparr>) = server_inv s"
  "server_inv (s\<lparr>opn_pending_security_policy := p\<rparr>) = server_inv s" "server_inv (s\<lparr>opn_pending_client_cert := p\<rparr>) = server_inv s"
  "server_inv (s\<lparr>channel_client_cert := cc\<rparr>) = server_inv s" "server_inv (s\<lparr>current_request_id := r\<rparr>) = server_inv s"
  "server_inv (s\<lparr>user_address_space_index := ix\<rparr>) = server_inv s" "server_inv (s\<lparr>is_running := b'\<rparr>) = server_inv s"
  "server_inv (s\<lparr>opn_pending_client_cert := p, channel_client_cert := cc\<rparr>) = server_inv s"
  by (simp_all add: server_inv_def)

lemma server_inv_active:
  "server_inv s \<Longrightarrow> server_inv (s\<lparr>active_conn := None\<rparr>)" "server_inv s \<Longrightarrow> server_inv (s\<lparr>active_session := None\<rparr>)"
  "server_inv s \<Longrightarrow> i < MU_MAX_CONNECTIONS \<Longrightarrow> server_inv (s\<lparr>active_conn := Some i\<rparr>)"
  by (simp_all add: server_inv_def session_served_def)

lemma server_inv_connection:
  assumes "server_inv s" "\<And>c. conn_ok c \<Longrightarrow> conn_ok (f c)"
  shows "server_inv (update_connection f s)"
proof (cases "active_conn s")
  case None
  thus ?thesis using assms by (simp add: server_inv_def update_connection_def)
next
  case (Some i)
  hence "conn_ok (conns s ! i)" "i < length (conns s)" using assms(1) by (auto simp: server_inv_def list_all_length)
  thus ?thesis using assms Some by (auto simp: server_inv_def update_connection_def intro: list_all_update)
qed

lemma server_inv_channel:
  "server_inv s \<Longrightarrow> (\<And>c. channel_inv c \<Longrightarrow> channel_inv (f c)) \<Longrightarrow> server_inv (update_channel f s)"
  unfolding update_channel_def by (erule server_inv_connection) (simp add: conn_ok_def)

lemma channel_inv_fields [simp]:
  "channel_inv (c\<lparr>client_keys := k\<rparr>) = channel_inv c" "channel_inv (c\<lparr>server_keys := k\<rparr>) = channel_inv c"
  "channel_inv (c\<lparr>out_sequence_number := n\<rparr>) = channel_inv c" "channel_inv (c\<lparr>sc_sequence := v\<rparr>) = channel_inv c"
  "channel_inv (c\<lparr>sc_policy := p\<rparr>) = channel_inv c" "channel_inv (c\<lparr>keys_valid := b\<rparr>) = channel_inv c"
  "channel_inv (c\<lparr>client_keys := k, server_keys := k', keys_valid := b\<rparr>) = channel_inv c"
  by (simp_all add: channel_inv_def)

lemma server_inv_active_channel: "server_inv s \<Longrightarrow> channel_inv (server_secure_channel s)"
  by (auto simp: server_inv_def active_connection_def conn_ok_def list_all_length split: option.splits)

lemma server_inv_sessions:
  assumes "server_inv s" "sessions_inv ss"
    and "\<And>j. active_session s = Some j \<Longrightarrow> ss_state (ss ! j) \<noteq> MU_SESSION_STATE_CLOSED"
  shows "server_inv (s\<lparr>sessions := ss\<rparr>)"
  using assms by (auto simp: server_inv_def session_served_def split: option.splits)

lemma server_inv_session_step:
  assumes "server_inv s" "session_step (sessions s) ss"
    and "\<And>j. active_session s = Some j \<Longrightarrow> ss_state (sessions s ! j) \<noteq> MU_SESSION_STATE_CLOSED \<Longrightarrow>
      ss_state (ss ! j) \<noteq> MU_SESSION_STATE_CLOSED"
  shows "server_inv (s\<lparr>sessions := ss\<rparr>)"
proof (rule server_inv_sessions [OF assms(1)])
  show "sessions_inv ss" using session_step_inv [OF assms(2)] assms(1) by (simp add: server_inv_def)
  show "ss_state (ss ! j) \<noteq> MU_SESSION_STATE_CLOSED" if "active_session s = Some j" for j
    using assms(1,3) that by (simp add: server_inv_def session_served_def)
qed

lemma server_inv_subs:
  "server_inv s \<Longrightarrow> (engine_inv (subs s) \<Longrightarrow> subs_owned (subs s) \<Longrightarrow> engine_inv e \<and> subs_owned e) \<Longrightarrow> server_inv (s\<lparr>subs := e\<rparr>)"
  by (simp add: server_inv_def)

lemma server_inv_session_id:
  assumes "server_inv s" "active_session s = Some j"
  shows "session_id (sessions s ! j) \<noteq> 0"
proof -
  have "j < length (sessions s)" "ss_state (sessions s ! j) \<noteq> MU_SESSION_STATE_CLOSED"
    using assms by (auto simp: server_inv_def sessions_inv_def session_served_def)
  hence "sessions s ! j \<in> set (active_sessions (sessions s))" by (simp add: active_sessions_def)
  thus ?thesis using assms(1) by (simp add: server_inv_def sessions_inv_def)
qed

section \<open>Platform calls and sending\<close>

lemma server_inv_close_handle [simp]: "server_inv (close_handle h s) = server_inv s"
  by (simp add: close_handle_def)

lemma server_inv_drop_handle: "server_inv s \<Longrightarrow> server_inv (update_connection (\<lambda>c. c\<lparr>conn_handle := h\<rparr>) s)"
  by (erule server_inv_connection) (simp add: conn_ok_def)

lemma server_inv_send_chunk: "server_inv s \<Longrightarrow> server_inv (send_buffer_chunk n s)"
proof -
  assume s: "server_inv s"
  obtain st k e where w: "the (tcp_write (config s)) (env s) (server_client_handle s) (take n (send_buffer s)) = ((st, k), e)"
    by (metis prod.collapse)
  show ?thesis using s by (simp add: send_buffer_chunk_def w Let_def server_inv_drop_handle)
qed

lemma server_inv_tcp_error: "server_inv s \<Longrightarrow> server_inv (send_tcp_error_chunk code s)"
  by (simp add: send_tcp_error_chunk_def server_inv_send_chunk split: prod.split sum.split)

lemma server_inv_abort: "server_inv s \<Longrightarrow> server_inv (abort_connection s)"
  by (simp add: abort_connection_def server_inv_drop_handle)

lemma server_inv_next_sequence: "server_inv s \<Longrightarrow> next_out_sequence s = (n, s') \<Longrightarrow> server_inv s'"
  by (auto simp: next_out_sequence_def Let_def intro!: server_inv_channel)

lemma server_inv_emit_connection: "server_inv s \<Longrightarrow> server_inv (emit_connection s)"
  by (auto simp: emit_connection_def server_inv_def dest!: find_index_SomeD split: option.split)

lemma server_inv_emit_secured: "server_inv s \<Longrightarrow> server_inv (snd (emit_secured crypto req body s))"
proof -
  assume s: "server_inv s"
  obtain n t where n: "next_out_sequence s = (n, t)" by fastforce
  show ?thesis using s server_inv_next_sequence [OF s n]
    by (simp add: emit_secured_def n server_inv_send_chunk split: prod.split sum.split)
qed

lemma server_inv_emit_plain: "server_inv s \<Longrightarrow> server_inv (snd (emit_plain req body s))"
proof -
  assume s: "server_inv s"
  obtain n t where n: "next_out_sequence (s\<lparr>send_buffer := overwrite (send_buffer s) MU_UASC_SYMMETRIC_HEADER_SIZE body\<rparr>) = (n, t)"
    by fastforce
  have t: "server_inv t" by (rule server_inv_next_sequence [OF _ n]) (simp add: s)
  show ?thesis using s t by (simp add: emit_plain_def n Let_def server_inv_send_chunk split: prod.split sum.split)
qed

lemma server_inv_emit_message: "server_inv s \<Longrightarrow> server_inv (snd (mu_server_emit_message req body s))"
  by (simp add: mu_server_emit_message_def Let_def server_inv_emit_connection server_inv_emit_secured server_inv_emit_plain
      split: option.split)

lemma server_inv_time [simp]: "server_inv (snd (publish_time_now s)) = server_inv s"
  by (simp add: publish_time_now_def split: option.split prod.split)

lemma server_inv_entropy [simp]: "server_inv (entropy_used n s) = server_inv s"
  by (simp add: entropy_used_def split: option.split)

lemma server_inv_nonce [simp]: "server_inv (snd (generate_server_nonce s)) = server_inv s" "server_inv (snd (fill_server_nonce s)) = server_inv s"
  by (simp_all add: generate_server_nonce_def fill_server_nonce_def split: sum.split)

end
