(* ===== verification/Publish.thy ===== *)
theory Publish
  imports Server_Invariant
begin

text \<open>
  The publishing cycle (\<^verbatim>\<open>src/services/subscription.c\<close>): \<^verbatim>\<open>mu_subscriptions_tick\<close> samples the
  monitored items that are due and then answers, for every subscription whose publishing
  interval has passed, a parked Publish request with notifications or with a keep-alive.

  The response is built in a local array of \<^verbatim>\<open>MU_PUBLISH_BODY_BYTES\<close> bytes and sent on the
  connection of the subscription's session.  The lemmas show that the cycle keeps the
  subscription table well formed, that it sends only to connections that are open, and
  what it does to the reports, the parked requests and the republish slot.
\<close>

section \<open>Answering a request\<close>

definition MU_PUBLISH_BODY_BYTES :: nat where "MU_PUBLISH_BODY_BYTES = 512"

definition publish_response_oversize_status :: "statuscode \<Rightarrow> bool" where
  "publish_response_oversize_status st \<longleftrightarrow>
     st = MU_STATUS_BAD_ENCODINGERROR \<or> st = MU_STATUS_BAD_OUTOFMEMORY \<or> st = MU_STATUS_BAD_RESPONSETOOLARGE"

definition emit_publish_response_too_large_fault ::
    "mu_publish_request \<Rightarrow> byte list \<Rightarrow> 'e mu_server \<Rightarrow> statuscode \<times> 'e mu_server" where
  "emit_publish_response_too_large_fault request buffer s =
    (case mu_write_service_fault buffer (length buffer) (pr_request_handle request) MU_STATUS_BAD_RESPONSETOOLARGE of
       (Inl st, _) \<Rightarrow> (st, s)
     | (Inr n, buffer) \<Rightarrow> mu_server_emit_message (pr_request_id request) (take n buffer) s)"

text \<open>Build the response, send it, and send a fault instead when it is too large.  The
  result is the notification message that was sent, \<^term>\<open>None\<close> when the response was not sent.
  The inner option is the check of the reported span before the message is stored.\<close>

definition answer_publish ::
    "nat \<Rightarrow> mu_publish_request \<Rightarrow> u32 \<Rightarrow> bool \<Rightarrow> nat \<Rightarrow> u64 \<Rightarrow> 'e mu_server \<Rightarrow> byte list option option \<times> 'e mu_server" where
  "answer_publish i request seq include_data report_count publish_time s =
    (case build_publish_response (monitored_items (subs s)) (subscriptions (subs s) ! i) request seq include_data report_count
            publish_time (replicate MU_PUBLISH_BODY_BYTES 0) of
       (Inl st, body) \<Rightarrow>
         (None, if publish_response_oversize_status st then snd (emit_publish_response_too_large_fault request body s) else s)
     | (Inr (len, message_start, message_end), body) \<Rightarrow>
         (case mu_server_emit_message (pr_request_id request) (take len body) s of (st, s) \<Rightarrow>
            if publish_response_oversize_status st
            then (None, snd (emit_publish_response_too_large_fault request body s))
            else if st \<noteq> MU_STATUS_GOOD then (None, s)
            else (Some (if message_start \<le> message_end \<and> message_end \<le> len
                        then Some (take (message_end - message_start) (drop message_start body)) else None), s)))"

section \<open>The cycle\<close>

abbreviation update_sub :: "nat \<Rightarrow> (mu_subscription \<Rightarrow> mu_subscription) \<Rightarrow> 'e mu_server \<Rightarrow> 'e mu_server" where
  "update_sub i f s \<equiv> s\<lparr>subs := update_subscription i f (subs s)\<rparr>"

text \<open>What the code does to the subscription after the response has been sent.\<close>

definition publish_sent :: "nat \<Rightarrow> nat \<Rightarrow> bool \<Rightarrow> u32 \<Rightarrow> u64 \<Rightarrow> byte list option \<Rightarrow> 'e mu_server \<Rightarrow> 'e mu_server" where
  "publish_sent i report_count has_events seq publish_time message s =
    (let s = s\<lparr>subs := (subs s)\<lparr>monitored_items :=
           clear_reported_items (subscriptions (subs s) ! i) report_count (monitored_items (subs s))\<rparr>\<rparr> in
     update_sub i (\<lambda>sub.
       let sub = (if has_events then sub\<lparr>event_queue := (event_queue sub)\<lparr>eq_head := 0, eq_tail := 0, eq_count := 0\<rparr>\<rparr> else sub);
           sub = sub\<lparr>keep_alive_counter := 0\<rparr>;
           sub = (case message of
                    Some m \<Rightarrow> store_retransmit seq publish_time m sub
                  | None \<Rightarrow> sub\<lparr>retransmit := (retransmit sub)\<lparr>rt_valid := False, rt_message_len := 0\<rparr>\<rparr>) in
       advance_sequence_number sub) s)"

text \<open>Both kinds of response begin by taking a parked request, the sequence number and the
  time.\<close>

definition take_publish_request :: "nat \<Rightarrow> 'e mu_server \<Rightarrow> (mu_publish_request \<times> u32 \<times> u64 \<times> 'e mu_server) option" where
  "take_publish_request i s =
    (case publish_request_dequeue (sub_session_id (subscriptions (subs s) ! i)) (subs s) of
       None \<Rightarrow> None
     | Some (request, subs') \<Rightarrow>
         let seq = fst (current_sequence_number (subscriptions subs' ! i));
             (t, s) = publish_time_now (s\<lparr>subs := update_subscription i (\<lambda>sub. snd (current_sequence_number sub)) subs'\<rparr>) in
         Some (request, seq, t, s))"

definition publish_notifications :: "nat \<Rightarrow> nat \<Rightarrow> bool \<Rightarrow> 'e mu_server \<Rightarrow> 'e mu_server" where
  "publish_notifications i report_count has_events s =
    (case take_publish_request i s of
       None \<Rightarrow> s
     | Some (request, seq, t, s) \<Rightarrow>
         (case answer_publish i request seq True report_count t s of
            (None, s) \<Rightarrow> s
          | (Some message, s) \<Rightarrow> publish_sent i report_count has_events seq t message s))"

definition publish_keep_alive :: "nat \<Rightarrow> 'e mu_server \<Rightarrow> 'e mu_server" where
  "publish_keep_alive i s =
    (let s = update_sub i (\<lambda>sub. sub\<lparr>keep_alive_counter := keep_alive_counter sub + 1\<rparr>) s;
         sub = subscriptions (subs s) ! i in
     if keep_alive_counter sub < max_keep_alive_count sub then s
     else case take_publish_request i s of
       None \<Rightarrow> s
     | Some (request, seq, t, s) \<Rightarrow>
         (case answer_publish i request seq False 0 t s of
            (None, s) \<Rightarrow> s
          | (Some _, s) \<Rightarrow> update_sub i (\<lambda>sub. sub\<lparr>keep_alive_counter := 0\<rparr>) s))"

text \<open>The queues are prepared and the reports counted only while publishing is enabled.\<close>

definition prepare_publish :: "nat \<Rightarrow> 'e mu_server \<Rightarrow> nat \<times> 'e mu_server" where
  "prepare_publish i s =
    (let fp = arithmetic (config s); sub = subscriptions (subs s) ! i;
         items = prepare_reportable_queues fp sub (monitored_items (subs s));
         (items, sub) = enqueue_resend_data fp (server_callbacks s) sub items;
         (n, sub) = count_reportable_items items sub in
     (n, s\<lparr>subs := update_subscription i (\<lambda>_. sub) ((subs s)\<lparr>monitored_items := items\<rparr>)\<rparr>))"

definition publish_subscription :: "nat \<Rightarrow> 'e mu_server \<Rightarrow> 'e mu_server" where
  "publish_subscription i s =
    (let has_events = 0 < eq_count (event_queue (subscriptions (subs s) ! i)) in
     if publishing_enabled (subscriptions (subs s) ! i) then
       (case prepare_publish i s of (n, s) \<Rightarrow>
          if 0 < n \<or> has_events then publish_notifications i n has_events s else publish_keep_alive i s)
     else publish_keep_alive i s)"

text \<open>The connection of a subscription: the first one whose channel has the id the session
  is bound to.\<close>

definition subscription_connection :: "mu_subscription \<Rightarrow> 'e mu_server \<Rightarrow> nat option" where
  "subscription_connection sub s =
    (case find_index (\<lambda>ss. ss_state ss \<noteq> MU_SESSION_STATE_CLOSED \<and> session_id ss = sub_session_id sub) (sessions s) of
       None \<Rightarrow> None
     | Some j \<Rightarrow> find_index (\<lambda>c. conn_handle c \<noteq> None \<and> channel_id (secure_channel c) = ss_secure_channel_id (sessions s ! j))
                  (conns s))"

definition publish_step :: "u64 \<Rightarrow> 'e mu_server \<Rightarrow> nat \<Rightarrow> 'e mu_server" where
  "publish_step now s i =
    (let sub = subscriptions (subs s) ! i in
     if \<not> sub_in_use sub \<or> now < next_publish_ms sub then s
     else case subscription_connection sub s of
       None \<Rightarrow> s
     | Some c \<Rightarrow>
         (update_sub i (advance_publish_timer now) (publish_subscription i (s\<lparr>active_conn := Some c\<rparr>)))\<lparr>active_conn := None\<rparr>)"

definition publish_due :: "u64 \<Rightarrow> 'e mu_server \<Rightarrow> 'e mu_server" where
  "publish_due now s = foldl (publish_step now) s [0..<MU_MAX_SUBSCRIPTIONS]"

definition mu_subscriptions_tick :: "u64 \<Rightarrow> 'e mu_server \<Rightarrow> 'e mu_server" where
  "mu_subscriptions_tick now s =
     publish_due now (s\<lparr>subs := subscriptions_sample (arithmetic (config s)) (server_callbacks s) now (subs s)\<rparr>)"

text \<open>A step of the server that changes the subscription engine, and nothing else that sending
  would not change, and keeps its invariant.\<close>

definition engine_step :: "'e mu_server \<Rightarrow> 'e mu_server \<Rightarrow> bool" where
  "engine_step s s' \<longleftrightarrow> same_services (s\<lparr>subs := subs s'\<rparr>) s' \<and> (engine_inv (subs s) \<longrightarrow> engine_inv (subs s')) \<and>
     (server_inv s \<longrightarrow> server_inv s')"

text \<open>Updates of a subscription that keep what the invariant says about it.\<close>

definition sub_kept :: "mu_subscription \<Rightarrow> mu_subscription \<Rightarrow> bool" where
  "sub_kept a b \<longleftrightarrow> sub_in_use b = sub_in_use a \<and> subscription_id b = subscription_id a \<and> sub_session_id b = sub_session_id a \<and>
     (sub_in_use a \<longrightarrow> sub_ok a \<longrightarrow> sub_ok b)"

definition publish_example :: "byte list list mu_server" where
  "publish_example = example_server\<lparr>subs := mu_subscriptions_init\<lparr>subscriptions := [example_sub], monitored_items := example_reporting,
     publish_queue := [zero_publish_request\<lparr>pr_in_use := True\<rparr>]\<rparr>\<rparr>"

section \<open>The invariant\<close>

lemma engine_step_refl [simp]: "engine_step s s"
  by (simp add: engine_step_def)

lemma engine_step_trans [trans]: "engine_step s t \<Longrightarrow> engine_step t u \<Longrightarrow> engine_step s u"
  by (simp add: engine_step_def same_services_def)

lemma same_engine_step: "same_services s s' \<Longrightarrow> (server_inv s \<Longrightarrow> server_inv s') \<Longrightarrow> engine_step s s'"
  by (simp add: engine_step_def same_services_def)

lemma subs_engine_step:
  "(engine_inv (subs s) \<Longrightarrow> engine_inv e) \<Longrightarrow> (subs_owned (subs s) \<Longrightarrow> subs_owned e) \<Longrightarrow> engine_step s (s\<lparr>subs := e\<rparr>)"
  by (simp add: engine_step_def same_services_def server_inv_def)

lemma items_engine_step:
  "list_all2 item_kept (monitored_items (subs s)) items \<Longrightarrow> engine_step s (s\<lparr>subs := (subs s)\<lparr>monitored_items := items\<rparr>\<rparr>)"
  by (rule subs_engine_step) (auto simp: subs_owned_def intro: items_kept_engine)

lemma emit_engine_step: "engine_step s (snd (mu_server_emit_message a b s))"
  by (rule same_engine_step [OF same_emit_message server_inv_emit_message])

lemma fault_engine_step: "engine_step s (snd (emit_publish_response_too_large_fault request buffer s))"
  by (simp add: emit_publish_response_too_large_fault_def emit_engine_step split: prod.split sum.split)

lemma answer_engine_step: "engine_step s (snd (answer_publish i request seq d n t s))"
proof -
  have e: "mu_server_emit_message a b s = (st, s') \<Longrightarrow> engine_step s s'" for a b st s'
    using emit_engine_step [of s a b] by simp
  show ?thesis
    unfolding answer_publish_def
    by (auto simp: fault_engine_step dest!: e intro: engine_step_trans [OF _ fault_engine_step] split: prod.split sum.split)
qed

lemma update_sub_engine_step:
  assumes "i < MU_MAX_SUBSCRIPTIONS" "sub_kept (subscriptions (subs s) ! i) (f (subscriptions (subs s) ! i))"
  shows "engine_step s (update_sub i f s)"
proof (rule subs_engine_step)
  assume e: "engine_inv (subs s)"
  show "engine_inv (update_subscription i f (subs s))"
    using update_subscription_engine [OF e, of i f] table_invD(1) [OF engine_invD [OF e]] assms by (simp add: sub_kept_def)
next
  assume "subs_owned (subs s)"
  thus "subs_owned (update_subscription i f (subs s))"
    using assms(2) by (auto simp: subs_owned_def update_subscription_def sub_kept_def list_all_length nth_update)
qed

lemma sub_kept_fields:
  "sub_kept sub (snd (current_sequence_number sub))"
  "sub_kept sub (sub\<lparr>keep_alive_counter := k\<rparr>)"
  "sub_kept sub (advance_publish_timer now sub)"
  "sub_kept sub (snd (count_reportable_items items sub))"
  "sub_kept sub (snd (enqueue_resend_data fp callbacks sub items))"
  "sub_kept sub (store_retransmit seq t m sub)"
  "sub_kept sub (sub\<lparr>retransmit := (retransmit sub)\<lparr>rt_valid := False, rt_message_len := 0\<rparr>\<rparr>)"
  "sub_kept sub (advance_sequence_number sub)"
  "sub_kept sub (sub\<lparr>event_queue := (event_queue sub)\<lparr>eq_head := 0, eq_tail := 0, eq_count := 0\<rparr>\<rparr>)"
  "sub_kept sub (sub\<lparr>keep_alive_counter := k, retransmit := (retransmit sub)\<lparr>rt_valid := False, rt_message_len := 0\<rparr>\<rparr>)"
  "sub_kept sub (sub\<lparr>event_queue := (event_queue sub)\<lparr>eq_head := 0, eq_tail := 0, eq_count := 0\<rparr>, keep_alive_counter := k,
     retransmit := (retransmit sub)\<lparr>rt_valid := False, rt_message_len := 0\<rparr>\<rparr>)"
  by (auto simp: sub_kept_def current_sequence_number_def advance_publish_timer_def count_reportable_items_def Let_def
      enqueue_resend_data_def store_retransmit_def sub_ok_def advance_sequence_number_def event_inv_def
      split: prod.split bool.split)

lemma sub_kept_trans: "sub_kept a b \<Longrightarrow> sub_kept b c \<Longrightarrow> sub_kept a c"
  by (simp add: sub_kept_def)

lemma sub_kept_refl [simp]: "sub_kept a a"
  by (simp add: sub_kept_def)

lemma publish_sent_step: "i < MU_MAX_SUBSCRIPTIONS \<Longrightarrow> engine_step s (publish_sent i n ev seq t message s)"
  unfolding publish_sent_def Let_def
  by (rule engine_step_trans [OF items_engine_step update_sub_engine_step])
    (auto intro!: clear_reported_kept sub_kept_trans [OF _ sub_kept_fields(8)]
      sub_kept_fields(10,11) sub_kept_trans [OF _ sub_kept_fields(6)]
      sub_kept_trans [OF _ sub_kept_fields(2)] sub_kept_fields(9) split: option.split)

lemma take_request_step:
  assumes "i < MU_MAX_SUBSCRIPTIONS" "take_publish_request i s = Some (request, seq, t, s')"
  shows "engine_step s s'"
proof -
  obtain subs' where d: "publish_request_dequeue (sub_session_id (subscriptions (subs s) ! i)) (subs s) = Some (request, subs')"
    and t: "publish_time_now (s\<lparr>subs := update_subscription i (\<lambda>sub. snd (current_sequence_number sub)) subs'\<rparr>) = (t, s')"
    using assms(2) by (auto simp: take_publish_request_def Let_def split: option.splits prod.splits)
  have "engine_step s (s\<lparr>subs := subs'\<rparr>)" 
    by (rule subs_engine_step) (rule dequeue_engine [OF _ d],
      use d in \<open>auto simp: publish_request_dequeue_def subs_owned_def split: option.splits\<close>)
  also have "engine_step (s\<lparr>subs := subs'\<rparr>) (s\<lparr>subs := update_subscription i (\<lambda>sub. snd (current_sequence_number sub)) subs'\<rparr>)"
    using update_sub_engine_step [OF assms(1), of "s\<lparr>subs := subs'\<rparr>"] sub_kept_fields(1) by simp
  also have "engine_step \<dots> s'" using t same_engine_step [OF same_publish_time server_inv_time [THEN iffD2]] by (metis snd_conv)
  finally show ?thesis .
qed

lemma publish_notifications_step:
  assumes "i < MU_MAX_SUBSCRIPTIONS"
  shows "engine_step s (publish_notifications i n ev s)"
proof (cases "take_publish_request i s")
  case (Some p)
  obtain request seq t s' where p: "p = (request, seq, t, s')" by (cases p)
  note k = engine_step_trans [OF take_request_step [OF assms Some [unfolded p]] answer_engine_step [of s' i request seq True n t]]
  show ?thesis using k engine_step_trans [OF k publish_sent_step [OF assms]]
    by (auto simp: publish_notifications_def Some p split: prod.split option.split)
qed (simp add: publish_notifications_def)

lemma publish_keep_alive_step:
  assumes "i < MU_MAX_SUBSCRIPTIONS"
  shows "engine_step s (publish_keep_alive i s)"
proof -
  define s1 where "s1 = update_sub i (\<lambda>sub. sub\<lparr>keep_alive_counter := keep_alive_counter sub + 1\<rparr>) s"
  have k1: "engine_step s s1" unfolding s1_def by (rule update_sub_engine_step [OF assms]) (rule sub_kept_fields)
  show ?thesis
  proof (cases "take_publish_request i s1")
    case None
    thus ?thesis using k1 by (simp add: publish_keep_alive_def Let_def s1_def [symmetric])
  next
    case (Some p)
    obtain request seq t s' where p: "p = (request, seq, t, s')" by (cases p)
    note k = engine_step_trans [OF engine_step_trans [OF k1 take_request_step [OF assms Some [unfolded p]]]
      answer_engine_step [of s' i request seq False 0 t]]
    have "engine_step s (update_sub i (\<lambda>sub. sub\<lparr>keep_alive_counter := 0\<rparr>) (snd (answer_publish i request seq False 0 t s')))"
      by (rule engine_step_trans [OF k update_sub_engine_step [OF assms]]) (rule sub_kept_fields)
    thus ?thesis using k1 k
      by (auto simp: publish_keep_alive_def Let_def Some p s1_def [symmetric] split: prod.split option.split)
  qed
qed

lemma prepare_publish_step:
  assumes "i < MU_MAX_SUBSCRIPTIONS" "prepare_publish i s = (n, s')"
  shows "engine_step s s'"
proof -
  define sub where "sub = subscriptions (subs s) ! i"
  obtain items sub1 where r: "enqueue_resend_data (arithmetic (config s)) (server_callbacks s) sub
      (prepare_reportable_queues (arithmetic (config s)) sub (monitored_items (subs s))) = (items, sub1)" by fastforce
  obtain sub2 where c: "count_reportable_items items sub1 = (n, sub2)"
    and s': "s' = update_sub i (\<lambda>_. sub2) (s\<lparr>subs := (subs s)\<lparr>monitored_items := items\<rparr>\<rparr>)"
    using assms(2) r by (auto simp: prepare_publish_def Let_def sub_def [symmetric] split: prod.splits)
  have i: "list_all2 item_kept (monitored_items (subs s)) items"
    using list_all2_trans [OF item_kept_trans prepare_queues_kept
        resend_data_kept [of "prepare_reportable_queues (arithmetic (config s)) sub (monitored_items (subs s))"
          "arithmetic (config s)" "server_callbacks s" sub]] by (simp add: r)
  have k: "sub_kept sub sub2"
    using sub_kept_trans [OF sub_kept_fields(5) [of sub "arithmetic (config s)" "server_callbacks s"
        "prepare_reportable_queues (arithmetic (config s)) sub (monitored_items (subs s))", unfolded r snd_conv]
        sub_kept_fields(4) [of sub1 items, unfolded c snd_conv]] .
  have "engine_step s (s\<lparr>subs := (subs s)\<lparr>monitored_items := items\<rparr>\<rparr>)"
    by (rule items_engine_step [OF i])
  also have "engine_step \<dots> s'" unfolding s' using k by (intro update_sub_engine_step [OF assms(1)]) (simp add: sub_def)
  finally show ?thesis .
qed

lemma publish_subscription_step:
  assumes "i < MU_MAX_SUBSCRIPTIONS"
  shows "engine_step s (publish_subscription i s)"
proof -
  obtain n s' where p: "prepare_publish i s = (n, s')" by fastforce
  note k = engine_step_trans [OF prepare_publish_step [OF assms p]]
  show ?thesis
    by (simp add: publish_subscription_def Let_def p publish_keep_alive_step [OF assms] k [OF publish_keep_alive_step [OF assms]]
        k [OF publish_notifications_step [OF assms]])
qed

lemma publish_step_engine:
  assumes "i < MU_MAX_SUBSCRIPTIONS"
  shows "engine_step s (publish_step now s i)"
proof (cases "subscription_connection (subscriptions (subs s) ! i) s")
  case None
  thus ?thesis by (simp add: publish_step_def Let_def)
next
  case (Some c)
  have "engine_step s (s\<lparr>active_conn := Some c\<rparr>)"
    using Some by (intro same_engine_step same_fields)
      (auto simp: subscription_connection_def server_inv_def dest!: find_index_SomeD split: option.splits)
  also have "engine_step \<dots> (publish_subscription i (s\<lparr>active_conn := Some c\<rparr>))" by (rule publish_subscription_step [OF assms])
  also have "engine_step \<dots> (update_sub i (advance_publish_timer now) (publish_subscription i (s\<lparr>active_conn := Some c\<rparr>)))"
    by (rule update_sub_engine_step [OF assms]) (rule sub_kept_fields)
  also have "engine_step \<dots> (update_sub i (advance_publish_timer now) (publish_subscription i (s\<lparr>active_conn := Some c\<rparr>))\<lparr>active_conn := None\<rparr>)"
    by (rule same_engine_step [OF same_fields(3) server_inv_active(1)])
  finally show ?thesis by (simp add: publish_step_def Let_def Some)
qed

lemma publish_steps_engine: "\<forall>i \<in> set is. i < MU_MAX_SUBSCRIPTIONS \<Longrightarrow> engine_step s (foldl (publish_step now) s is)"
proof (induction "is" arbitrary: s)
  case (Cons i "is")
  show ?case using engine_step_trans [OF publish_step_engine [of i s now] Cons.IH] Cons.prems by simp
qed simp

lemma publish_due_engine: "engine_step s (publish_due now s)"
  unfolding publish_due_def by (rule publish_steps_engine) simp

lemma tick_engine: "engine_step s (mu_subscriptions_tick now s)"
proof -
  have "engine_step s (s\<lparr>subs := subscriptions_sample (arithmetic (config s)) (server_callbacks s) now (subs s)\<rparr>)"
    unfolding subscriptions_sample_def by (rule items_engine_step [OF sample_loop_kept])
  thus ?thesis unfolding mu_subscriptions_tick_def using publish_due_engine by (rule engine_step_trans)
qed

lemma publish_time_frame:
  "publish_time_now s = (t, s') \<Longrightarrow> subs s' = subs s \<and> config s' = config s \<and> sessions s' = sessions s"
  using same_publish_time [of s] by (auto simp: same_services_def)

lemma emit_subs: "subs (snd (mu_server_emit_message a b s)) = subs s"
  using same_emit_message [of s a b] by (simp add: same_services_def)

lemma emit_frame: "mu_server_emit_message a b s = (st, s') \<Longrightarrow> subs s' = subs s"
  using same_emit_message [of s a b] by (auto simp: same_services_def)

lemma fault_subs: "subs (snd (emit_publish_response_too_large_fault request buffer s)) = subs s"
  by (simp add: emit_publish_response_too_large_fault_def emit_subs split: prod.split sum.split)

text \<open>The answer, by the bytes of the response.\<close>

lemma answer_publish_eq:
  assumes "publishable (monitored_items (subs s)) (subscriptions (subs s) ! i) n"
    and "head = enc_publish_head (subscriptions (subs s) ! i) request d"
    and "message = enc_publish_message (monitored_items (subs s)) (subscriptions (subs s) ! i) seq d n t"
    and "response = head @ message @ enc_publish_tail request"
    and "mu_server_emit_message (pr_request_id request) response s = (st, s2)"
    and "answer_publish i request seq d n t s = (result, s')"
  shows "if length response \<le> MU_PUBLISH_BODY_BYTES \<and> st = MU_STATUS_GOOD
     then result = Some (Some message) \<and> s' = s2 else result = None \<and> subs s' = subs s"
proof -
  obtain r body where b: "build_publish_response (monitored_items (subs s)) (subscriptions (subs s) ! i) request seq d n t
      (replicate MU_PUBLISH_BODY_BYTES 0) = (r, body)" by fastforce
  note l = publish_response_layout [OF assms(1), of request d seq t "replicate MU_PUBLISH_BODY_BYTES 0",
      unfolded Let_def b prod.case, folded assms(2), folded assms(3), folded assms(4)]
  show ?thesis
  proof (cases "length response \<le> MU_PUBLISH_BODY_BYTES")
    case True
    hence r: "r = Inr (length response, length head, length (head @ message))" and o: "body = overwrite (replicate MU_PUBLISH_BODY_BYTES 0) 0 response"
      using l by simp_all
    have t: "take (length response) body = response" unfolding o by (simp add: overwrite_def)
    have m: "take (length message) (drop (length head) body) = message"
      unfolding o by (simp add: overwrite_def assms(4))
    show ?thesis
      using assms(6) True emit_frame [OF assms(5)] fault_subs [of request body s2] m
      by (auto simp: answer_publish_def b r t assms(5) publish_response_oversize_status_def
          split: if_splits) (simp_all add: assms(4))
  next
    case False
    then obtain e where "r = Inl e" using l by auto
    thus ?thesis using assms(6) False fault_subs [of request body s] by (auto simp: answer_publish_def b split: if_splits)
  qed
qed

lemma take_request_frame:
  assumes "take_publish_request i s = Some (request, seq, t, s1)" "sequence_number (subscriptions (subs s) ! i) \<noteq> 0"
  shows "subscriptions (subs s1) = subscriptions (subs s)" "monitored_items (subs s1) = monitored_items (subs s)"
    "seq = sequence_number (subscriptions (subs s) ! i)"
  using assms
  by (auto simp: take_publish_request_def publish_request_dequeue_def current_sequence_number_def update_subscription_def Let_def
      dest!: publish_time_frame split: option.splits prod.splits)

lemma publish_sent_effect:
  assumes "s' = publish_sent i n ev seq t (Some message) s"
    and "mu_subscription_find (subs s) session sid = Some i"
    and "length (rt_message (retransmit (subscriptions (subs s) ! i))) = MU_RETRANSMIT_BYTES"
    and "seq = sequence_number (subscriptions (subs s) ! i)"
  shows "monitored_items (subs s') = clear_reported_items (subscriptions (subs s) ! i) n (monitored_items (subs s)) \<and>
    mu_subscription_republish session sid seq (subs s') =
      (if length message \<le> MU_RETRANSMIT_BYTES then Inr message else Inl MU_STATUS_BAD_MESSAGENOTAVAILABLE) \<and>
    sequence_number (subscriptions (subs s') ! i) = (if seq + 1 = 0 then 1 else seq + 1) \<and> env s' = env s \<and> conns s' = conns s"
proof -
  let ?sub = "subscriptions (subs s) ! i"
  define sub where "sub = (if ev then ?sub\<lparr>event_queue := (event_queue ?sub)\<lparr>eq_head := 0, eq_tail := 0, eq_count := 0\<rparr>\<rparr> else ?sub)"
  define f where "f = (\<lambda>sub. advance_sequence_number (store_retransmit seq t message
    ((if ev then sub\<lparr>event_queue := (event_queue sub)\<lparr>eq_head := 0, eq_tail := 0, eq_count := 0\<rparr>\<rparr> else sub)\<lparr>keep_alive_counter := 0\<rparr>)))"
  define e where "e = (subs s)\<lparr>monitored_items := clear_reported_items ?sub n (monitored_items (subs s))\<rparr>"
  have s': "s' = s\<lparr>subs := update_subscription i f e\<rparr>"
    by (simp add: assms(1) publish_sent_def Let_def f_def e_def cong: if_cong)
  have k: "sub_kept ?sub (f ?sub)" and r: "retransmit (f ?sub) = retransmit (store_retransmit seq t message ?sub)"
    and q: "sequence_number (f ?sub) = (if seq + 1 = 0 then 1 else seq + 1)"
    using assms(4)
    by (simp_all add: f_def sub_kept_def advance_sequence_number_def store_retransmit_def Let_def sub_ok_def event_inv_def)
  have "mu_subscription_find e session sid = Some i" using assms(2) by (simp add: e_def mu_subscription_find_def)
  from find_after_update [OF this, of f] k
  have "mu_subscription_find (update_subscription i f e) session sid = Some i" "subscriptions (update_subscription i f e) ! i = f ?sub"
    by (simp_all add: sub_kept_def e_def)
  thus ?thesis
    using store_retransmit_message [OF _ assms(3), of message seq t] r q
    by (auto simp: s' mu_subscription_republish_def Let_def e_def update_subscription_def store_retransmit_def)
qed


lemma example_take_request:
  "take_publish_request 0 publish_example = Some (zero_publish_request\<lparr>pr_in_use := True\<rparr>, 1, 0,
     publish_example\<lparr>subs := (subs publish_example)\<lparr>publish_queue := [zero_publish_request]\<rparr>\<rparr>)"
  by (simp add: take_publish_request_def publish_example_def publish_request_dequeue_def zero_publish_request_def Let_def
      current_sequence_number_def publish_time_now_def update_subscription_def)
   (simp add: example_sub_def zero_subscription_def example_server_def example_config_def)


end
