(* ===== verification/Discovery.thy ===== *)
theory Discovery
  imports Service_Core
begin

text \<open>
  Discovery: the endpoint and application descriptions (\<^verbatim>\<open>src/services/discovery.c\<close>) and the
  GetEndpoints and FindServers services (\<^verbatim>\<open>src/core/service_dispatch.c\<close>).  A C string is a
  byte list, \<^verbatim>\<open>NULL\<close> is \<^term>\<open>None\<close>.  The lemmas say which endpoints are advertised and
  which of them a GetEndpoints request gets.
\<close>

section \<open>Descriptions\<close>

abbreviation MU_APPLICATION_TYPE_SERVER :: u32 where "MU_APPLICATION_TYPE_SERVER \<equiv> 0"
abbreviation MU_USER_TOKEN_TYPE_ANONYMOUS :: u32 where "MU_USER_TOKEN_TYPE_ANONYMOUS \<equiv> 0"
abbreviation MU_USER_TOKEN_TYPE_USERNAME :: u32 where "MU_USER_TOKEN_TYPE_USERNAME \<equiv> 1"

type_synonym cstr = "byte list option"

record mu_application_description =
  ad_application_uri :: cstr
  ad_product_uri :: cstr
  ad_application_name :: cstr
  application_type :: u32
  discovery_url :: cstr

record mu_user_token_policy =
  policy_id :: cstr
  token_type :: u32
  issued_token_type :: cstr
  issuer_endpoint_url :: cstr
  tp_security_policy_uri :: cstr

record mu_endpoint_description =
  ep_endpoint_url :: cstr
  ep_server :: mu_application_description
  server_certificate :: cstr
  security_mode :: mu_message_security_mode
  security_policy_uri :: cstr
  user_identity_tokens :: "mu_user_token_policy list"
  transport_profile_uri :: cstr
  security_level :: byte

definition cstr_string :: "cstr \<Rightarrow> mu_string" where
  "cstr_string s = (case s of None \<Rightarrow> null_string | Some bs \<Rightarrow> mk_string bs)"

definition write_cstr :: "cstr \<Rightarrow> wr" where
  "write_cstr s = mu_binary_write_string (cstr_string s)"

definition write_localizedtext :: "cstr \<Rightarrow> wr" where
  "write_localizedtext txt =
    (if txt = None then mu_binary_write_byte 0x00 else wthen (mu_binary_write_byte 0x02) (write_cstr txt))"

definition mu_application_description_encode :: "mu_application_description \<Rightarrow> wr" where
  "mu_application_description_encode desc =
     wthen (write_cstr (ad_application_uri desc))
    (wthen (write_cstr (ad_product_uri desc))
    (wthen (write_localizedtext (ad_application_name desc))
    (wthen (mu_binary_write_uint32 (application_type desc))
    (wthen (write_cstr None)
    (wthen (write_cstr None)
    (if discovery_url desc \<noteq> None then wthen (mu_binary_write_int32 1) (write_cstr (discovery_url desc))
     else mu_binary_write_int32 0))))))"

definition write_token_policy :: "mu_user_token_policy \<Rightarrow> wr" where
  "write_token_policy t =
     wthen (write_cstr (policy_id t))
    (wthen (mu_binary_write_uint32 (token_type t))
    (wthen (write_cstr (issued_token_type t))
    (wthen (write_cstr (issuer_endpoint_url t))
           (write_cstr (tp_security_policy_uri t)))))"

text \<open>The part of the encoding after the application description.\<close>

definition endpoint_description_tail :: "mu_endpoint_description \<Rightarrow> wr" where
  "endpoint_description_tail desc =
     wthen (mu_binary_write_bytestring (cstr_string (server_certificate desc)))
    (wthen (mu_binary_write_uint32 (security_mode desc))
    (wthen (write_cstr (security_policy_uri desc))
    (wthen (mu_binary_write_int32 (of_nat (length (user_identity_tokens desc))))
    (wthen (wseq (map write_token_policy (user_identity_tokens desc)))
    (wthen (write_cstr (transport_profile_uri desc))
           (mu_binary_write_byte (security_level desc)))))))"

definition mu_endpoint_description_encode :: "mu_endpoint_description \<Rightarrow> wr" where
  "mu_endpoint_description_encode desc =
     wthen (write_cstr (ep_endpoint_url desc))
    (wthen (mu_application_description_encode (ep_server desc)) (endpoint_description_tail desc))"

section \<open>What the server advertises\<close>

definition mu_discovery_get_application_description :: "'e mu_server_config \<Rightarrow> mu_application_description" where
  "mu_discovery_get_application_description cfg =
     \<lparr>ad_application_uri = application_uri cfg, ad_product_uri = product_uri cfg, ad_application_name = application_name cfg,
      application_type = MU_APPLICATION_TYPE_SERVER, discovery_url = endpoint_url cfg\<rparr>"

definition token_policy :: "string \<Rightarrow> u32 \<Rightarrow> mu_user_token_policy" where
  "token_policy name t = \<lparr>policy_id = Some (ascii name), token_type = t, issued_token_type = None,
     issuer_endpoint_url = None, tp_security_policy_uri = None\<rparr>"

definition fill_endpoint ::
    "'e mu_server_config \<Rightarrow> mu_message_security_mode \<Rightarrow> cstr \<Rightarrow> cstr \<Rightarrow> byte \<Rightarrow> mu_endpoint_description" where
  "fill_endpoint cfg mode policy_uri cert level =
    (let policy = (case policy_uri of
           None \<Rightarrow> MU_SECURITY_POLICY_INVALID_ID
         | Some uri \<Rightarrow> mu_security_policy_from_uri (Some uri) (length uri)) in
     \<lparr>ep_endpoint_url = endpoint_url cfg, ep_server = mu_discovery_get_application_description cfg,
      server_certificate = cert, security_mode = mode, security_policy_uri = policy_uri,
      user_identity_tokens = token_policy ''anonymous'' MU_USER_TOKEN_TYPE_ANONYMOUS #
        (if mu_security_policy_allows_username_password_tokens policy
         then [token_policy ''username'' MU_USER_TOKEN_TYPE_USERNAME] else []),
      transport_profile_uri = Some (ascii ''http://opcfoundation.org/UA-Profile/Transport/uatcp-uasc-uabinary''),
      security_level = level\<rparr>)"

definition mu_discovery_get_endpoint_description :: "'e mu_server_config \<Rightarrow> mu_endpoint_description" where
  "mu_discovery_get_endpoint_description cfg =
     fill_endpoint cfg MU_MESSAGE_SECURITY_MODE_NONE (mu_security_policy_uri MU_SECURITY_POLICY_NONE_ID) None 0"

text \<open>The server's own certificate, when there is an adapter that returns one.\<close>

definition own_certificate :: "'e mu_server_config \<Rightarrow> byte list option" where
  "own_certificate cfg =
    (case crypto_adapter cfg of
       None \<Rightarrow> None
     | Some crypto \<Rightarrow>
         (case get_own_certificate crypto of
            None \<Rightarrow> None
          | Some r \<Rightarrow> (case r of Inl _ \<Rightarrow> None | Inr cert \<Rightarrow> Some cert)))"

definition MU_DISCOVERY_MAX_ENDPOINTS :: nat where "MU_DISCOVERY_MAX_ENDPOINTS = 5"

definition mu_discovery_get_endpoints :: "'e mu_server_config \<Rightarrow> nat \<Rightarrow> statuscode + mu_endpoint_description list" where
  "mu_discovery_get_endpoints cfg limit =
    (if limit = 0 then Inl MU_STATUS_BAD_INTERNALERROR
     else
     let cert = own_certificate cfg;
         b256 = mu_security_policy_uri MU_SECURITY_POLICY_BASIC256SHA256_ID;
         aes128 = mu_security_policy_uri MU_SECURITY_POLICY_AES128_SHA256_RSAOAEP_ID in
     Inr (take limit
       (fill_endpoint cfg MU_MESSAGE_SECURITY_MODE_NONE (mu_security_policy_uri MU_SECURITY_POLICY_NONE_ID) cert 0 #
        (if cert = None then []
         else [fill_endpoint cfg MU_MESSAGE_SECURITY_MODE_SIGN b256 cert 1,
               fill_endpoint cfg MU_MESSAGE_SECURITY_MODE_SIGN_AND_ENCRYPT b256 cert 2,
               fill_endpoint cfg MU_MESSAGE_SECURITY_MODE_SIGN aes128 cert 3,
               fill_endpoint cfg MU_MESSAGE_SECURITY_MODE_SIGN_AND_ENCRYPT aes128 cert 4]))))"

section \<open>Filters\<close>

definition string_matches_cstr :: "mu_string \<Rightarrow> cstr \<Rightarrow> bool" where
  "string_matches_cstr left right =
    (case right of
       None \<Rightarrow> False
     | Some bs \<Rightarrow>
         (case str_data left of
            None \<Rightarrow> False
          | Some d \<Rightarrow> 0 \<le> sint (str_length left) \<and> nat (sint (str_length left)) = length bs \<and> take (length bs) d = bs))"

definition findservers_endpoint_matches :: "mu_string \<Rightarrow> cstr \<Rightarrow> bool" where
  "findservers_endpoint_matches url discovery \<longleftrightarrow> sint (str_length url) \<le> 0 \<or> string_matches_cstr url discovery"

definition getendpoints_endpoint_matches :: "mu_string \<Rightarrow> mu_endpoint_description \<Rightarrow> bool" where
  "getendpoints_endpoint_matches url endpoint \<longleftrightarrow>
     sint (str_length url) \<le> 0 \<or> string_matches_cstr url (ep_endpoint_url endpoint)"

definition locale_id_is_usable :: "mu_string \<Rightarrow> bool" where
  "locale_id_is_usable locale_id \<longleftrightarrow> 0 < sint (str_length locale_id) \<and> str_data locale_id \<noteq> None"

definition select_locale :: "mu_string list \<Rightarrow> mu_string" where
  "select_locale locales = foldl (\<lambda>selected l. if \<not> locale_id_is_usable selected \<and> locale_id_is_usable l then l else selected)
     null_string locales"

text \<open>An array whose length must be at least -1; the items of a null or empty array are
  none.\<close>

definition read_checked_array :: "'a rd \<Rightarrow> 'a list rd" where
  "read_checked_array item =
     rbind mu_binary_read_int32 (\<lambda>n.
       if sint n < -1 then rfail MU_STATUS_BAD_DECODINGERROR else rrepeat (nat (sint n)) item)"

definition read_requested_locale_ids :: "mu_string rd" where
  "read_requested_locale_ids = rmap select_locale (read_checked_array mu_binary_read_string)"

definition findservers_server_uri_filter_matches :: "cstr \<Rightarrow> bool rd" where
  "findservers_server_uri_filter_matches application =
     rmap (\<lambda>uris. uris = [] \<or> list_ex (\<lambda>uri. string_matches_cstr uri application) uris)
       (read_checked_array mu_binary_read_string)"

definition findservers_server_type_filter_matches :: "u32 \<Rightarrow> bool rd" where
  "findservers_server_type_filter_matches app_type r =
    (if rd_position r = rd_length r then (Inr True, r)
     else if rd_length r < rd_position r then (Inl MU_STATUS_BAD_DECODINGERROR, r)
     else rmap (\<lambda>types. types = [] \<or> list_ex (\<lambda>t. t = app_type) types) (read_checked_array mu_binary_read_uint32) r)"

text \<open>The profile filter accepts every nonpositive count; the body has been validated before.\<close>

definition endpoint_matches_profile_filter :: "mu_endpoint_description \<Rightarrow> bool rd" where
  "endpoint_matches_profile_filter endpoint =
     rbind mu_binary_read_int32 (\<lambda>n.
       if sint n \<le> 0 then rreturn True
       else rmap (list_ex (\<lambda>uri. string_matches_cstr uri (transport_profile_uri endpoint)))
              (rrepeat (nat (sint n)) mu_binary_read_string))"

definition validate_get_endpoints_profile_uris_body :: "unit rd" where
  "validate_get_endpoints_profile_uris_body = rmap (\<lambda>_. ()) (read_checked_array mu_binary_read_string)"

section \<open>Encodings with a locale\<close>

definition findservers_write_cstr :: "cstr \<Rightarrow> wr" where
  "findservers_write_cstr s = mu_binary_write_string (cstr_string s)"

definition findservers_write_localizedtext :: "cstr \<Rightarrow> mu_string \<Rightarrow> wr" where
  "findservers_write_localizedtext txt locale =
    (if txt = None then mu_binary_write_byte 0x00
     else wthen (mu_binary_write_byte (if locale_id_is_usable locale then 0x03 else 0x02))
       (wthen (if locale_id_is_usable locale then mu_binary_write_string locale else wreturn MU_STATUS_GOOD)
         (findservers_write_cstr txt)))"

definition findservers_application_description_encode :: "mu_application_description \<Rightarrow> mu_string \<Rightarrow> wr" where
  "findservers_application_description_encode desc locale =
    (if \<not> locale_id_is_usable locale then mu_application_description_encode desc
     else
     wthen (findservers_write_cstr (ad_application_uri desc))
    (wthen (findservers_write_cstr (ad_product_uri desc))
    (wthen (findservers_write_localizedtext (ad_application_name desc) locale)
    (wthen (mu_binary_write_uint32 (application_type desc))
    (wthen (findservers_write_cstr None)
    (wthen (findservers_write_cstr None)
    (if discovery_url desc \<noteq> None then wthen (mu_binary_write_int32 1) (findservers_write_cstr (discovery_url desc))
     else mu_binary_write_int32 0)))))))"

definition getendpoints_endpoint_description_encode :: "mu_endpoint_description \<Rightarrow> mu_string \<Rightarrow> wr" where
  "getendpoints_endpoint_description_encode desc locale =
    (if \<not> locale_id_is_usable locale then mu_endpoint_description_encode desc
     else
     wthen (findservers_write_cstr (ep_endpoint_url desc))
    (wthen (findservers_application_description_encode (ep_server desc) locale)
    (wthen (mu_binary_write_bytestring (cstr_string (server_certificate desc)))
    (wthen (mu_binary_write_uint32 (security_mode desc))
    (wthen (findservers_write_cstr (security_policy_uri desc))
    (wthen (mu_binary_write_int32 (of_nat (length (user_identity_tokens desc))))
    (wthen (wseq (map (\<lambda>t. wthen (findservers_write_cstr (policy_id t))
          (wthen (mu_binary_write_uint32 (token_type t))
          (wthen (findservers_write_cstr (issued_token_type t))
          (wthen (findservers_write_cstr (issuer_endpoint_url t))
                 (findservers_write_cstr (tp_security_policy_uri t)))))) (user_identity_tokens desc)))
    (wthen (findservers_write_cstr (transport_profile_uri desc))
           (mu_binary_write_byte (security_level desc))))))))))"

section \<open>The services\<close>

abbreviation MU_ID_GETENDPOINTSRESPONSE :: u32 where "MU_ID_GETENDPOINTSRESPONSE \<equiv> 431"
abbreviation MU_ID_FINDSERVERSRESPONSE :: u32 where "MU_ID_FINDSERVERSRESPONSE \<equiv> 425"

text \<open>\<^verbatim>\<open>r->position = p; r->status = MU_STATUS_GOOD;\<close>\<close>

definition rseek :: "nat \<Rightarrow> unit rd" where
  "rseek p r = (Inr (), r\<lparr>rd_position := p, rd_status := MU_STATUS_GOOD\<rparr>)"

definition rtell :: "nat rd" where
  "rtell r = (Inr (rd_position r), r)"

text \<open>The loop over the endpoints: the filter is read again for each of them.\<close>

fun select_endpoints :: "nat \<Rightarrow> mu_string \<Rightarrow> mu_endpoint_description list \<Rightarrow> mu_endpoint_description list rd" where
  "select_endpoints p url [] = rreturn []"
| "select_endpoints p url (ep # eps) =
     rbind (rseek p) (\<lambda>_.
     rbind (endpoint_matches_profile_filter ep) (\<lambda>matches.
     rbind (select_endpoints p url eps) (\<lambda>rest.
       rreturn (if matches \<and> getendpoints_endpoint_matches url ep then ep # rest else rest))))"

definition handle_get_endpoints :: "('e, nat) service" where
  "handle_get_endpoints =
     sbind (sread mu_request_header_decode) (\<lambda>req.
     sbind (sread mu_binary_read_string) (\<lambda>url.
     sbind (sread read_requested_locale_ids) (\<lambda>locale.
     sbind (sread rtell) (\<lambda>p.
     sbind (sread validate_get_endpoints_profile_uris_body) (\<lambda>_.
     sbind (sread (rseek p)) (\<lambda>_.
     sbind (scall (\<lambda>s. (mu_discovery_get_endpoints (config s) MU_DISCOVERY_MAX_ENDPOINTS, s))) (\<lambda>eps.
     sbind (sread (select_endpoints p url eps)) (\<lambda>chosen.
     sbind (write_response_prefix MU_ID_GETENDPOINTSRESPONSE (request_handle req) MU_STATUS_GOOD) (\<lambda>_.
     sbind (swrite (mu_binary_write_int32 (of_nat (length chosen)))) (\<lambda>_.
     sbind (swrite (wseq (map (\<lambda>ep. getendpoints_endpoint_description_encode ep locale) chosen))) (\<lambda>_.
       sdone)))))))))))"

definition handle_find_servers :: "('e, nat) service" where
  "handle_find_servers =
     sbind (sread mu_request_header_decode) (\<lambda>req.
     sbind (sread mu_binary_read_string) (\<lambda>url.
     sbind (sread read_requested_locale_ids) (\<lambda>locale.
     sbind (sget (\<lambda>s. mu_discovery_get_application_description (config s))) (\<lambda>app.
     sbind (sread (findservers_server_uri_filter_matches (ad_application_uri app))) (\<lambda>uri_matches.
     sbind (sread (findservers_server_type_filter_matches (application_type app))) (\<lambda>type_matches.
     let include_app = findservers_endpoint_matches url (discovery_url app) \<and> uri_matches \<and> type_matches in
     sbind (write_response_prefix MU_ID_FINDSERVERSRESPONSE (request_handle req) MU_STATUS_GOOD) (\<lambda>_.
     sbind (swrite (mu_binary_write_int32 (if include_app then 1 else 0))) (\<lambda>_.
     sbind (swhen include_app (swrite (findservers_application_description_encode app locale))) (\<lambda>_.
       sdone)))))))))"

section \<open>Safety\<close>

lemma decoder_step_checked_array [safe_intros]: "decoder_step m \<Longrightarrow> decoder_step (read_checked_array m)"
  unfolding read_checked_array_def by (intro safe_intros) simp_all

lemma decoder_step_discovery [safe_intros]:
  "decoder_step read_requested_locale_ids" "decoder_step (findservers_server_uri_filter_matches uri)"
  "decoder_step validate_get_endpoints_profile_uris_body" "decoder_step (endpoint_matches_profile_filter ep)"
  unfolding read_requested_locale_ids_def findservers_server_uri_filter_matches_def
    validate_get_endpoints_profile_uris_body_def endpoint_matches_profile_filter_def
  by (intro safe_intros)+

lemma encoder_step_cstr [safe_intros]: "encoder_step (write_cstr s)" "encoder_step (findservers_write_cstr s)"
  unfolding write_cstr_def findservers_write_cstr_def by (intro safe_intros)+

lemma encoder_step_application [safe_intros]:
  "encoder_step (mu_application_description_encode d)" "encoder_step (findservers_application_description_encode d l)"
  unfolding mu_application_description_encode_def findservers_application_description_encode_def write_localizedtext_def
    findservers_write_localizedtext_def
  by (intro safe_intros)+

lemma encoder_step_endpoint [safe_intros]:
  "encoder_step (mu_endpoint_description_encode d)" "encoder_step (getendpoints_endpoint_description_encode d l)"
  unfolding mu_endpoint_description_encode_def getendpoints_endpoint_description_encode_def endpoint_description_tail_def
    write_token_policy_def
  by (auto intro!: safe_intros)

lemma rd_safe_server_type [service_safe_intros]: "rd_safe n (findservers_server_type_filter_matches t)"
proof -
  let ?m = "rmap (\<lambda>types. types = [] \<or> list_ex (\<lambda>u. u = t) types) (read_checked_array mu_binary_read_uint32)"
  have m: "rd_safe n ?m" by (rule rd_safe_step) (intro safe_intros)
  show ?thesis unfolding rd_safe_def
  proof (intro allI impI)
    fix r x r' assume r: "rd_ok r" "rd_length r = n" "findservers_server_type_filter_matches t r = (x, r')"
    from r(1,2) have p: "rd_position r \<le> n" "rd_status r = MU_STATUS_GOOD" by (auto simp: rd_ok_def rd_wf_def)
    consider "(x, r') = (Inr True, r)" | "?m r = (x, r')"
      using r(2,3) p(1) unfolding findservers_server_type_filter_matches_def
      by (cases "rd_position r = rd_length r") simp_all
    thus "rd_buffer r' = rd_buffer r \<and> rd_length r' = n \<and> rd_position r' \<le> n \<and>
      (case x of Inl st \<Rightarrow> st \<noteq> MU_STATUS_GOOD | Inr _ \<Rightarrow> rd_status r' = MU_STATUS_GOOD)"
    proof cases
      case 2
      show ?thesis by (rule m [unfolded rd_safe_def, rule_format, OF r(1,2) 2])
    qed (use p r(2) in simp)
  qed
qed

lemma rd_safe_seek: "p \<le> n \<Longrightarrow> rd_safe n (rseek p)"
  by (auto simp: rd_safe_def rseek_def)

lemma service_safe_tell:
  assumes "\<And>p. p \<le> n \<Longrightarrow> service_safe n (f p)"
  shows "service_safe n (sbind (sread rtell) f)"
proof (rule service_safeI)
  fix h x h' assume h: "ready n h" "sbind (sread rtell) f h = (x, h')"
  have p: "rd_position (rdr h) \<le> n" using h(1) by (auto simp: ready_def rd_ok_def rd_wf_def)
  have "f (rd_position (rdr h)) h = (x, h')" using h(2) by (simp add: sbind_def sread_def rtell_def)
  thus "stays n h x h'" using service_safeD [OF assms [OF p] h(1)] by simp
qed

lemma rd_safe_select:
  assumes "p \<le> n"
  shows "rd_safe n (select_endpoints p url eps)"
proof (induction eps)
  case Nil
  show ?case by (simp add: rd_safe_step decoder_step_return)
next
  case (Cons ep eps)
  show ?case unfolding select_endpoints.simps
    by (intro rd_safe_bind rd_safe_seek [OF assms] Cons rd_safe_step safe_intros)
qed

lemma service_safe_discovery [service_safe_intros]: "service_safe n handle_get_endpoints" "service_safe n handle_find_servers"
  unfolding handle_get_endpoints_def handle_find_servers_def
  by (intro service_safe_tell service_safe_intros rd_safe_seek rd_safe_select rd_safe_step safe_intros;
      auto simp: mu_discovery_get_endpoints_def Let_def intro!: safe_intros split: if_splits)+

lemma keeps_discovery [keeps_intros]: "keeps P handle_get_endpoints" "keeps P handle_find_servers"
  unfolding handle_get_endpoints_def handle_find_servers_def by (intro keeps_intros; simp)+

section \<open>Advertised endpoints\<close>

text \<open>The profile filter, by the array of URIs it reads.\<close>

lemma length_rrepeat: "rrepeat n m r = (Inr xs, r') \<Longrightarrow> length xs = n"
  by (induction n arbitrary: r xs) (auto simp: rreturn_def rbind_def split: prod.splits sum.splits)

lemma profile_filter_eq:
  assumes "read_checked_array mu_binary_read_string r = (Inr uris, r')"
  shows "endpoint_matches_profile_filter ep r =
    (Inr (uris = [] \<or> list_ex (\<lambda>uri. string_matches_cstr uri (transport_profile_uri ep)) uris), r')"
proof -
  obtain c q where c: "mu_binary_read_int32 r = (Inr c, q)" and n: "\<not> sint c < -1"
    and l: "rrepeat (nat (sint c)) mu_binary_read_string q = (Inr uris, r')"
    using assms by (auto simp: read_checked_array_def rbind_def rfail_def split: prod.splits sum.splits if_splits)
  have len: "length uris = nat (sint c)" using length_rrepeat [OF l] .
  show ?thesis
  proof (cases "sint c \<le> 0")
    case True
    thus ?thesis using c l len by (simp add: endpoint_matches_profile_filter_def rbind_def rreturn_def)
  next
    case False
    hence "uris \<noteq> []" using len by auto
    thus ?thesis using c l False by (simp add: endpoint_matches_profile_filter_def rbind_def rmap_def rreturn_def)
  qed
qed

lemma select_endpoints_eq:
  assumes "rd_ok r" "p \<le> rd_length r"
    and "read_checked_array mu_binary_read_string (r\<lparr>rd_position := p\<rparr>) = (Inr uris, q)"
  shows "fst (select_endpoints p url eps r) =
    Inr (filter (\<lambda>ep. (uris = [] \<or> list_ex (\<lambda>uri. string_matches_cstr uri (transport_profile_uri ep)) uris) \<and>
      getendpoints_endpoint_matches url ep) eps)"
proof -
  have st: "rd_status r = MU_STATUS_GOOD" using assms(1) by (simp add: rd_ok_def)
  have ok: "rd_ok (r\<lparr>rd_position := p\<rparr>)" using assms(1,2) by (auto simp: rd_ok_def rd_wf_def split: option.splits)
  from decoder_step.step_ok [OF decoder_step_checked_array [OF decoder_step_string(1)] ok assms(3)]
  obtain k where q: "q = rd_skip k (r\<lparr>rd_position := p\<rparr>)" by blast
  have "fst (select_endpoints p url eps s) =
      Inr (filter (\<lambda>ep. (uris = [] \<or> list_ex (\<lambda>uri. string_matches_cstr uri (transport_profile_uri ep)) uris) \<and>
        getendpoints_endpoint_matches url ep) eps)"
    if s: "s\<lparr>rd_position := p, rd_status := MU_STATUS_GOOD\<rparr> = r\<lparr>rd_position := p\<rparr>" for s
    using s
  proof (induction eps arbitrary: s)
    case (Cons ep eps)
    have "q\<lparr>rd_position := p, rd_status := MU_STATUS_GOOD\<rparr> = r\<lparr>rd_position := p\<rparr>" using st by (simp add: q rd_skip_def)
    from Cons.IH [OF this] show ?case
      using profile_filter_eq [OF assms(3), of ep] Cons.prems
      by (cases "select_endpoints p url eps q") (auto simp: rbind_def rseek_def rreturn_def)
  qed (simp add: rreturn_def)
  thus ?thesis using st by simp
qed


end
