(* ===== verification/Session_Services.thy ===== *)
theory Session_Services
  imports Discovery Server_Invariant
begin

text \<open>
  OpenSecureChannel and the session services of \<^verbatim>\<open>src/core/service_dispatch.c\<close>:
  CreateSession, ActivateSession and CloseSession, with the checks of the client's
  certificate, its signature and its identity token.

  A successful call of the entropy adapter delivers as many bytes as were asked for.  The
  lemmas say what a secured OpenSecureChannel or ActivateSession requires, that the session
  table is changed by the steps of \<^const>\<open>session_step\<close> only, and what CloseSession does to
  the subscriptions of the session.
\<close>

section \<open>OpenSecureChannel\<close>

abbreviation MU_ID_OPENSECURECHANNELRESPONSE :: u32 where "MU_ID_OPENSECURECHANNELRESPONSE \<equiv> 449"
abbreviation MU_ID_CREATESESSIONRESPONSE :: u32 where "MU_ID_CREATESESSIONRESPONSE \<equiv> 464"
abbreviation MU_ID_ACTIVATESESSIONRESPONSE :: u32 where "MU_ID_ACTIVATESESSIONRESPONSE \<equiv> 470"
abbreviation MU_ID_CLOSESESSIONRESPONSE :: u32 where "MU_ID_CLOSESESSIONRESPONSE \<equiv> 476"

definition mu_service_dispatch_set_opn_security_policy :: "mu_string option \<Rightarrow> 'e mu_server \<Rightarrow> 'e mu_server" where
  "mu_service_dispatch_set_opn_security_policy policy s =
     s\<lparr>opn_pending_security_policy := (case policy of None \<Rightarrow> null_string | Some p \<Rightarrow> p)\<rparr>"

definition current_opn_security_policy :: "'e mu_server \<Rightarrow> mu_string option" where
  "current_opn_security_policy s = Some (opn_pending_security_policy s)"

definition mu_service_dispatch_set_opn_client_cert :: "mu_string option \<Rightarrow> 'e mu_server \<Rightarrow> 'e mu_server" where
  "mu_service_dispatch_set_opn_client_cert cert s =
    (case cert of
       None \<Rightarrow> s\<lparr>opn_pending_client_cert := null_string\<rparr>
     | Some c \<Rightarrow>
         let n = nat (sint (str_length c)) in
         s\<lparr>opn_pending_client_cert := c,
           channel_client_cert :=
             (if 0 < sint (str_length c) \<and> str_data c \<noteq> None \<and> n \<le> MU_MAX_CLIENT_CERT_SIZE
              then take n (the (str_data c)) else [])\<rparr>)"

definition current_opn_client_cert :: "'e mu_server \<Rightarrow> mu_string" where
  "current_opn_client_cert s = opn_pending_client_cert s"

text \<open>The channel has a policy other than None.\<close>

definition channel_secured :: "'e mu_server \<Rightarrow> bool" where
  "channel_secured s \<longleftrightarrow> sc_policy (server_secure_channel s) \<noteq> MU_SECURITY_POLICY_NONE_ID \<and>
     sc_policy (server_secure_channel s) \<noteq> MU_SECURITY_POLICY_INVALID_ID"

definition opn_server_nonce :: "'e mu_server \<Rightarrow> (statuscode + byte list) \<times> 'e mu_server" where
  "opn_server_nonce s =
    (case generate_random (config s) of
       None \<Rightarrow> (Inl MU_STATUS_BAD_SECURITYCHECKSFAILED, s)
     | Some g \<Rightarrow>
         (case g (env s) MU_SERVER_NONCE_LENGTH of
            (Inl _, e) \<Rightarrow> (Inl MU_STATUS_BAD_SECURITYCHECKSFAILED, s\<lparr>env := e\<rparr>)
          | (Inr nonce, e) \<Rightarrow> (Inr nonce, s\<lparr>env := e\<rparr>)))"

definition open_channel :: "mu_message_security_mode \<Rightarrow> u32 \<Rightarrow> 'e mu_server \<Rightarrow> (statuscode + u32) \<times> 'e mu_server" where
  "open_channel mode requested_lifetime s =
    (case mu_secure_channel_open (server_secure_channel s) (current_opn_security_policy s) mode requested_lifetime of
       (r, c) \<Rightarrow> (r, update_channel (\<lambda>_. c) s))"

text \<open>The authentication of the application, after the channel has been opened.\<close>

definition opn_client_trusted :: "'e mu_server \<Rightarrow> bool" where
  "opn_client_trusted s \<longleftrightarrow>
     \<not> channel_secured s \<or> allow_untrusted_clients (config s) \<or>
     (trust_list (config s) \<noteq> None \<and> 0 < sint (str_length (current_opn_client_cert s)) \<and>
      mu_trust_list_match (trust_list (config s)) (str_data (current_opn_client_cert s))
        (nat (sint (str_length (current_opn_client_cert s)))) = MU_STATUS_GOOD)"

text \<open>Inbound keys take the server nonce as the secret, outbound keys the client nonce.  The
  key sets are stored as far as they have been derived.\<close>

definition derive_keys :: "mu_string \<Rightarrow> byte list \<Rightarrow> 'e mu_server \<Rightarrow> (statuscode + unit) \<times> 'e mu_server" where
  "derive_keys client_nonce nonce s =
    (case crypto_adapter (config s) of
       None \<Rightarrow> (Inr (), s)
     | Some crypto \<Rightarrow>
         if \<not> channel_secured s then (Inr (), s)
         else if sint (str_length client_nonce) \<le> 0 then (Inl MU_STATUS_BAD_SECURITYCHECKSFAILED, s)
         else
         let policy = sc_policy (server_secure_channel s); cn = the (str_data client_nonce);
             (st1, keys1) = mu_sym_keys_derive crypto policy nonce cn;
             s1 = update_channel (\<lambda>c. c\<lparr>client_keys := keys1\<rparr>) s in
         if st1 \<noteq> MU_STATUS_GOOD then (Inl st1, s1)
         else
         let (st2, keys2) = mu_sym_keys_derive crypto policy cn nonce;
             s2 = update_channel (\<lambda>c. c\<lparr>server_keys := keys2\<rparr>) s1 in
         if st2 \<noteq> MU_STATUS_GOOD then (Inl st2, s2)
         else (Inr (), update_channel (\<lambda>c. c\<lparr>keys_valid := True,
                 client_keys := mu_sym_keys_prepare_cipher crypto (client_keys c),
                 server_keys := mu_sym_keys_prepare_cipher crypto (server_keys c)\<rparr>) s2))"

definition handle_open_secure_channel :: "('e, nat) service" where
  "handle_open_secure_channel =
     sbind (sread mu_request_header_decode) (\<lambda>req.
     sbind (sread mu_binary_read_uint32) (\<lambda>client_proto.
     sbind (sread mu_binary_read_uint32) (\<lambda>request_type.
     sbind (sread mu_binary_read_uint32) (\<lambda>mode.
     sbind (sread mu_binary_read_bytestring) (\<lambda>client_nonce.
     sbind (sread mu_binary_read_uint32) (\<lambda>requested_lifetime.
     sbind (scall opn_server_nonce) (\<lambda>nonce.
     sbind (scall (open_channel mode requested_lifetime)) (\<lambda>revised.
     sbind (sget opn_client_trusted) (\<lambda>trusted.
     if \<not> trusted then sfail MU_STATUS_BAD_SECURITYCHECKSFAILED
     else
     sbind (write_response_prefix MU_ID_OPENSECURECHANNELRESPONSE (request_handle req) MU_STATUS_GOOD) (\<lambda>_.
     sbind (sput publish_time_now) (\<lambda>now.
     sbind (sget server_secure_channel) (\<lambda>channel.
     sbind (swrite (mu_binary_write_uint32 0)) (\<lambda>_.
     sbind (swrite (mu_binary_write_uint32 (channel_id channel))) (\<lambda>_.
     sbind (swrite (mu_binary_write_uint32 (token_id channel))) (\<lambda>_.
     sbind (swrite (mu_binary_write_int64 now)) (\<lambda>_.
     sbind (swrite (mu_binary_write_uint32 revised)) (\<lambda>_.
     sbind (swrite (mu_binary_write_bytestring (mk_string nonce))) (\<lambda>_.
     sbind (sput (\<lambda>s. ((), update_channel (\<lambda>c. c\<lparr>ch_mode := mode\<rparr>) s))) (\<lambda>_.
     sbind (scall (derive_keys client_nonce nonce)) (\<lambda>_.
       sdone))))))))))))))))))))"

section \<open>CreateSession\<close>

text \<open>The fields the service uses: the timeout, the client nonce and the client
  certificate.\<close>

definition read_create_session_request :: "(u64 \<times> mu_string \<times> mu_string) rd" where
  "read_create_session_request =
     rbind mu_binary_read_string (\<lambda>_.
     rbind mu_binary_read_string (\<lambda>_.
     rbind mu_binary_read_byte (\<lambda>mask.
     rbind (if bit mask 0 then mu_binary_read_string else rreturn null_string) (\<lambda>_.
     rbind (if bit mask 1 then mu_binary_read_string else rreturn null_string) (\<lambda>_.
     rbind mu_binary_read_uint32 (\<lambda>_.
     rbind mu_binary_read_string (\<lambda>_.
     rbind mu_binary_read_string (\<lambda>_.
     rbind (read_checked_array mu_binary_read_string) (\<lambda>_.
     rbind mu_binary_read_string (\<lambda>_.
     rbind mu_binary_read_string (\<lambda>_.
     rbind mu_binary_read_string (\<lambda>_.
     rbind mu_binary_read_bytestring (\<lambda>client_nonce.
     rbind mu_binary_read_bytestring (\<lambda>client_cert.
     rbind mu_binary_read_uint64 (\<lambda>bits.
     rbind mu_binary_read_uint32 (\<lambda>_.
       rreturn (bits, client_nonce, client_cert)))))))))))))))))"

text \<open>\<^verbatim>\<open>r->position != r->length\<close>\<close>

definition read_end :: "unit rd" where
  "read_end r = (if rd_position r \<noteq> rd_length r then (Inl MU_STATUS_BAD_DECODINGERROR, r) else (Inr (), r))"

definition client_cert_is_channels :: "mu_string \<Rightarrow> 'e mu_server \<Rightarrow> bool" where
  "client_cert_is_channels client_cert s \<longleftrightarrow>
     \<not> channel_secured s \<or>
     (0 < sint (str_length client_cert) \<and> nat (sint (str_length client_cert)) = length (channel_client_cert s) \<and>
      channel_client_cert s \<noteq> [] \<and> take (length (channel_client_cert s)) (the (str_data client_cert)) = channel_client_cert s)"

definition allocate_session :: "u64 \<Rightarrow> 'e mu_server \<Rightarrow> (statuscode + nat \<times> u64) \<times> 'e mu_server" where
  "allocate_session requested_bits s =
    (case mu_session_find_free (sessions s) of
       None \<Rightarrow> (Inl MU_STATUS_BAD_TOOMANYSESSIONS, s)
     | Some i \<Rightarrow>
         (case mu_session_generate_session_id (sessions s) (entropy_of s) of
            Inl st \<Rightarrow> (Inl st, entropy_used 4 s)
          | Inr sid \<Rightarrow>
              let s = entropy_used 4 s in
              (case mu_session_generate_authentication_token (sessions s) (entropy_of s) of
                 Inl st \<Rightarrow> (Inl st, entropy_used 4 s)
               | Inr tok \<Rightarrow>
                   let s = entropy_used 4 s in
                   (case mu_session_create_with_identifiers (sessions s ! i) requested_bits sid tok
                           (channel_id (server_secure_channel s)) of
                      (Inl st, _) \<Rightarrow> (Inl st, s)
                    | (Inr revised, ss) \<Rightarrow> (Inr (i, revised), s\<lparr>sessions := (sessions s)[i := ss]\<rparr>)))))"

text \<open>The server's signature of the client certificate and nonce; null on an unsecured
  channel or when signing fails.\<close>

definition create_session_signature :: "mu_string \<Rightarrow> mu_string \<Rightarrow> 'e mu_server \<Rightarrow> mu_string \<times> mu_string" where
  "create_session_signature client_cert client_nonce s =
    (let policy = sc_policy (server_secure_channel s);
         cc = nat (sint (str_length client_cert));
         cn = (if 0 < sint (str_length client_nonce) then nat (sint (str_length client_nonce)) else 0) in
     case (crypto_adapter (config s), mu_security_policy_asym_signature_uri policy) of
       (Some crypto, Some uri) \<Rightarrow>
         if channel_secured s \<and> 0 < sint (str_length client_cert) \<and> cc + cn \<le> 1536 then
           (case mu_asym_signature_sign crypto policy
                   (take cc (the (str_data client_cert)) @ (if 0 < cn then take cn (the (str_data client_nonce)) else [])) 512 of
              Inl _ \<Rightarrow> (null_string, null_string)
            | Inr sig \<Rightarrow> (mk_string uri, mk_string sig))
         else (null_string, null_string)
     | _ \<Rightarrow> (null_string, null_string))"

definition handle_create_session :: "('e, nat) service" where
  "handle_create_session =
     sbind (sread mu_request_header_decode) (\<lambda>req.
     sbind (sread read_create_session_request) (\<lambda>(requested_bits, client_nonce, client_cert).
     sbind (sread read_end) (\<lambda>_.
     sbind (sget (client_cert_is_channels client_cert)) (\<lambda>matches.
     if \<not> matches then sfail MU_STATUS_BAD_SECURITYCHECKSFAILED
     else
     sbind (scall generate_server_nonce) (\<lambda>nonce.
     sbind (scall (allocate_session requested_bits)) (\<lambda>(slot, revised_bits).
     sbind (write_response_prefix MU_ID_CREATESESSIONRESPONSE (request_handle req) MU_STATUS_GOOD) (\<lambda>_.
     sbind (sput (\<lambda>s. ((), update_session slot (\<lambda>ss. ss\<lparr>server_nonce := nonce\<rparr>) s))) (\<lambda>_.
     sbind (sget (\<lambda>s. sessions s ! slot)) (\<lambda>ss.
     sbind (swrite (mu_binary_write_nodeid (ns0 (session_id ss)))) (\<lambda>_.
     sbind (swrite (mu_binary_write_nodeid (ns0 (auth_token ss)))) (\<lambda>_.
     sbind (swrite (mu_binary_write_uint64 revised_bits)) (\<lambda>_.
     sbind (swrite (mu_binary_write_bytestring (mk_string nonce))) (\<lambda>_.
     sbind (sget (\<lambda>s. own_certificate (config s))) (\<lambda>cert.
     sbind (swrite (mu_binary_write_bytestring (cstr_string cert))) (\<lambda>_.
     sbind (scall (\<lambda>s. (mu_discovery_get_endpoints (config s) MU_DISCOVERY_MAX_ENDPOINTS, s))) (\<lambda>eps.
     sbind (swrite (mu_binary_write_int32 (of_nat (length eps)))) (\<lambda>_.
     sbind (swrite (wseq (map mu_endpoint_description_encode eps))) (\<lambda>_.
     sbind (swrite (mu_binary_write_int32 0)) (\<lambda>_.
     sbind (sget (create_session_signature client_cert client_nonce)) (\<lambda>(alg, sig).
     sbind (swrite (mu_binary_write_string alg)) (\<lambda>_.
     sbind (swrite (mu_binary_write_bytestring sig)) (\<lambda>_.
     sbind (swrite (mu_binary_write_uint32 0)) (\<lambda>_.
       sdone)))))))))))))))))))))))"

section \<open>ActivateSession\<close>

text \<open>On a secured channel the client signs the server's certificate and the nonce of the
  session.\<close>

definition verify_activate_client_signature :: "'e mu_server \<Rightarrow> mu_session \<Rightarrow> mu_string \<Rightarrow> mu_string \<Rightarrow> statuscode" where
  "verify_activate_client_signature s slot algorithm signature =
    (let policy = sc_policy (server_secure_channel s) in
     if \<not> channel_secured s then MU_STATUS_GOOD
     else case crypto_adapter (config s) of
       None \<Rightarrow> MU_STATUS_BAD_SECURITYCHECKSFAILED
     | Some crypto \<Rightarrow>
         (case get_own_certificate crypto of
            None \<Rightarrow> MU_STATUS_BAD_SECURITYCHECKSFAILED
          | Some own \<Rightarrow>
              if sint (str_length signature) \<le> 0 \<or> str_data signature = None then MU_STATUS_BAD_SECURITYCHECKSFAILED
              else case mu_security_policy_asym_signature_uri policy of
                None \<Rightarrow> MU_STATUS_BAD_SECURITYCHECKSFAILED
              | Some uri \<Rightarrow>
                  if \<not> string_matches_cstr algorithm (Some uri) then MU_STATUS_BAD_SECURITYCHECKSFAILED
                  else if length (channel_client_cert s) = 0 then MU_STATUS_BAD_SECURITYCHECKSFAILED
                  else case own of
                    Inl _ \<Rightarrow> MU_STATUS_BAD_SECURITYCHECKSFAILED
                  | Inr cert \<Rightarrow>
                      if 1536 < length cert + length (server_nonce slot) then MU_STATUS_BAD_SECURITYCHECKSFAILED
                      else if mu_asym_signature_verify crypto policy (channel_client_cert s) (cert @ server_nonce slot)
                          (take (nat (sint (str_length signature))) (the (str_data signature))) = MU_STATUS_GOOD
                      then MU_STATUS_GOOD else MU_STATUS_BAD_SECURITYCHECKSFAILED))"

datatype identity_token =
    AnonymousToken mu_string
  | UsernameToken mu_username_identity_token
  | CertificateToken mu_certificate_identity_token
  | OtherToken

text \<open>Decoding inside an extension object body of \<open>len\<close> bytes, which is then skipped; an
  empty body leaves the value \<open>absent\<close>.\<close>

definition read_body :: "nat \<Rightarrow> 'a \<Rightarrow> 'a rd \<Rightarrow> 'a rd" where
  "read_body len absent m =
     rbind (ensure_reader_bytes_remaining len) (\<lambda>_ r.
       if len = 0 then (Inr absent, r)
       else case fst (m (mu_binary_reader_init (map_option (drop (rd_position r)) (rd_buffer r)) len)) of
         Inl st \<Rightarrow> (Inl st, r)
       | Inr x \<Rightarrow> (Inr x, rd_skip len r))"

definition null_username_token :: mu_username_identity_token where
  "null_username_token = \<lparr>un_policy_id = null_string, un_username = null_string, un_password = null_string,
     un_encryption_algorithm = null_string\<rparr>"

definition null_certificate_token :: mu_certificate_identity_token where
  "null_certificate_token = \<lparr>ci_policy_id = null_string, ci_certificate_data = null_string\<rparr>"

definition ns0_numeric :: "mu_nodeid \<Rightarrow> u32 option" where
  "ns0_numeric nid = (case nid_identifier nid of NumericId i \<Rightarrow> if namespace_index nid = 0 then Some i else None | _ \<Rightarrow> None)"

definition read_identity_token :: "(mu_nodeid \<times> identity_token) rd" where
  "read_identity_token =
     rbind mu_binary_read_extension_object_header (\<lambda>(type_id, len).
       rmap (Pair type_id)
        (if ns0_numeric type_id = Some 321 then rmap AnonymousToken (read_body len null_string mu_binary_read_string)
         else if ns0_numeric type_id = Some 324
         then rmap UsernameToken (read_body len null_username_token mu_binary_read_username_identity_token)
         else if ns0_numeric type_id = Some 327
         then rmap CertificateToken (read_body len null_certificate_token mu_binary_read_certificate_identity_token)
         else rmap (\<lambda>_. OtherToken) (skip_extension_object_body len)))"

text \<open>The trailing signature of the user token may be left out.\<close>

definition read_user_token_signature :: "(mu_string \<times> mu_string) rd" where
  "read_user_token_signature r =
    (if rd_position r < rd_length r
     then rbind mu_binary_read_string (\<lambda>algorithm. rmap (Pair algorithm) mu_binary_read_bytestring) r
     else (Inr (null_string, null_string), r))"

text \<open>An array of at least \<open>k\<close> bytes per item, which is read and dropped.\<close>

definition skip_array :: "nat \<Rightarrow> 'a rd \<Rightarrow> unit rd" where
  "skip_array k item =
     rbind mu_binary_read_int32 (\<lambda>n.
     rbind (ensure_array_items_min_remaining n k) (\<lambda>_.
       rmap (\<lambda>_. ()) (rrepeat (nat (sint n)) item)))"

text \<open>The secret of an encrypted user name token: a length, the password and the nonce of
  the session.\<close>

definition decrypt_password :: "'e mu_server \<Rightarrow> mu_session \<Rightarrow> mu_username_identity_token \<Rightarrow> statuscode + mu_string" where
  "decrypt_password s slot tok =
    (if sint (str_length (un_encryption_algorithm tok)) \<le> 0 \<or> sint (str_length (un_password tok)) \<le> 0
     then Inr (un_password tok)
     else case Option.bind (crypto_adapter (config s)) rsa_oaep_decrypt of
       None \<Rightarrow> Inl MU_STATUS_BAD_IDENTITYTOKENREJECTED
     | Some decrypt \<Rightarrow>
         (case decrypt (take (nat (sint (str_length (un_password tok)))) (the (str_data (un_password tok)))) 256 of
            Inl _ \<Rightarrow> Inl MU_STATUS_BAD_IDENTITYTOKENREJECTED
          | Inr out \<Rightarrow>
              if length out < 4 then Inl MU_STATUS_BAD_IDENTITYTOKENREJECTED
              else
              let pw_len = sint (mu_binary_le_get_u32 out) in
              if pw_len < -1 \<or> (0 < pw_len \<and> length out - 4 < nat pw_len) then Inl MU_STATUS_BAD_IDENTITYTOKENREJECTED
              else if drop (4 + nat pw_len) out \<noteq> server_nonce slot \<or> length out - (4 + nat pw_len) \<noteq> 32
              then Inl MU_STATUS_BAD_IDENTITYTOKENREJECTED
              else Inr (if pw_len = -1 then null_string else mk_string (take (nat pw_len) (drop 4 out)))))"

text \<open>A call of the application's handler.\<close>

definition call_auth_handler ::
    "statuscode \<Rightarrow> mu_string option \<Rightarrow> mu_string option \<Rightarrow> mu_string \<Rightarrow> 'e mu_server \<Rightarrow> statuscode \<times> 'e mu_server" where
  "call_auth_handler unset user secret policy s =
    (case user_auth_handler (config s) of
       None \<Rightarrow> (unset, s)
     | Some f \<Rightarrow> (case f (env s) user secret policy of (st, e) \<Rightarrow> (st, s\<lparr>env := e\<rparr>)))"

text \<open>The arguments of \<^verbatim>\<open>rsa_sha256_verify\<close> stand in the order in which the code passes
  them: the signed data first, then the signature, then the certificate.\<close>

definition certificate_token_verified :: "'e mu_server \<Rightarrow> mu_session \<Rightarrow> mu_certificate_identity_token \<Rightarrow> mu_string \<Rightarrow> statuscode" where
  "certificate_token_verified s slot tok signature =
    (if sint (str_length (ci_certificate_data tok)) \<le> 0 \<or> sint (str_length signature) \<le> 0
     then MU_STATUS_BAD_IDENTITYTOKENREJECTED
     else case crypto_adapter (config s) of
       None \<Rightarrow> MU_STATUS_BAD_IDENTITYTOKENREJECTED
     | Some crypto \<Rightarrow>
         (case (get_own_certificate crypto, rsa_sha256_verify crypto) of
            (Some (Inr cert), Some verify) \<Rightarrow>
              if 1536 < length cert + 32 then MU_STATUS_BAD_INTERNALERROR
              else if verify (cert @ server_nonce slot) (the (str_data signature)) (the (str_data (ci_certificate_data tok))) = MU_STATUS_GOOD
              then MU_STATUS_GOOD else MU_STATUS_BAD_IDENTITYTOKENREJECTED
          | _ \<Rightarrow> MU_STATUS_BAD_IDENTITYTOKENREJECTED))"

definition authenticate_token ::
    "mu_session \<Rightarrow> identity_token \<Rightarrow> mu_string \<Rightarrow> 'e mu_server \<Rightarrow> statuscode \<times> 'e mu_server" where
  "authenticate_token slot tok signature s =
    (case tok of
       AnonymousToken policy \<Rightarrow> call_auth_handler MU_STATUS_GOOD None None policy s
     | UsernameToken t \<Rightarrow>
         if \<not> mu_security_policy_allows_username_password_tokens (sc_policy (server_secure_channel s))
         then (MU_STATUS_BAD_IDENTITYTOKENREJECTED, s)
         else (case decrypt_password s slot t of
             Inl st \<Rightarrow> (st, s)
           | Inr password \<Rightarrow>
               call_auth_handler MU_STATUS_BAD_IDENTITYTOKENREJECTED (Some (un_username t)) (Some password) (un_policy_id t) s)
     | CertificateToken t \<Rightarrow>
         let st = certificate_token_verified s slot t signature in
         if st \<noteq> MU_STATUS_GOOD then (st, s)
         else call_auth_handler MU_STATUS_GOOD None (Some (ci_certificate_data t)) (ci_policy_id t) s
     | OtherToken \<Rightarrow> (MU_STATUS_BAD_IDENTITYTOKENINVALID, s))"

definition activate_session ::
    "mu_nodeid \<Rightarrow> mu_string \<Rightarrow> mu_string \<Rightarrow> mu_nodeid \<Rightarrow> identity_token \<Rightarrow> mu_string \<Rightarrow> 'e mu_server \<Rightarrow> statuscode \<times> 'e mu_server" where
  "activate_session token algorithm signature type_id identity user_signature s =
    (case ns0_numeric token of
       None \<Rightarrow> (MU_STATUS_BAD_SESSIONIDINVALID, s)
     | Some auth \<Rightarrow>
         (case mu_session_find_by_token (sessions s) auth of
            None \<Rightarrow> (MU_STATUS_BAD_SESSIONIDINVALID, s)
          | Some i \<Rightarrow>
              let slot = sessions s ! i;
                  bound = mu_session_validate_secure_channel slot (channel_id (server_secure_channel s));
                  signed = verify_activate_client_signature s slot algorithm signature in
              if bound \<noteq> MU_STATUS_GOOD then (bound, s)
              else case ns0_numeric type_id of
                None \<Rightarrow> (MU_STATUS_BAD_IDENTITYTOKENINVALID, s)
              | Some encoding_id \<Rightarrow>
                  if signed \<noteq> MU_STATUS_GOOD then (signed, s)
                  else case authenticate_token slot identity user_signature s of (st, s) \<Rightarrow>
                    if st \<noteq> MU_STATUS_GOOD then (st, s)
                    else (case mu_session_activate (sessions s ! i) auth encoding_id of
                        (st, ss) \<Rightarrow> (st, s\<lparr>sessions := (sessions s)[i := ss]\<rparr>))))"

definition handle_activate_session :: "('e, nat) service" where
  "handle_activate_session =
     sbind (sread mu_request_header_decode) (\<lambda>req.
     sbind (sread mu_binary_read_string) (\<lambda>algorithm.
     sbind (sread mu_binary_read_bytestring) (\<lambda>signature.
     sbind (sread (skip_array 8 (rbind mu_binary_read_bytestring (\<lambda>_. mu_binary_read_bytestring)))) (\<lambda>_.
     sbind (sread (skip_array 4 mu_binary_read_string)) (\<lambda>_.
     sbind (sread read_identity_token) (\<lambda>(type_id, identity).
     sbind (sread read_user_token_signature) (\<lambda>(_, user_signature).
     sbind (sput (activate_session (authentication_token req) algorithm signature type_id identity user_signature)) (\<lambda>result.
     sbind (write_response_prefix MU_ID_ACTIVATESESSIONRESPONSE (request_handle req) result) (\<lambda>_.
     sbind (sput fill_server_nonce) (\<lambda>nonce.
     sbind (swrite (mu_binary_write_bytestring (mk_string nonce))) (\<lambda>_.
     sbind (swrite (mu_binary_write_int32 0)) (\<lambda>_.
     sbind (swrite (mu_binary_write_int32 0)) (\<lambda>_.
       sdone)))))))))))))"

section \<open>CloseSession\<close>

text \<open>The loop deletes the subscriptions of the session id that the slot has after the
  session has been closed.\<close>

definition close_subscriptions :: "u32 \<Rightarrow> mu_subscriptions \<Rightarrow> mu_subscriptions" where
  "close_subscriptions sid e =
     foldl (\<lambda>e i. let sub = subscriptions e ! i in
       if sub_in_use sub \<and> sub_session_id sub = sid then snd (mu_subscription_delete sid (subscription_id sub) e) else e)
     e [0..<MU_MAX_SUBSCRIPTIONS]"

definition close_session :: "mu_nodeid \<Rightarrow> bool \<Rightarrow> 'e mu_server \<Rightarrow> statuscode \<times> 'e mu_server" where
  "close_session token delete_subscriptions s =
    (case (active_session s, nid_identifier token) of
       (Some i, NumericId auth) \<Rightarrow>
         (case mu_session_close (sessions s ! i) auth delete_subscriptions of
            (st, ss) \<Rightarrow>
              let s = s\<lparr>sessions := (sessions s)[i := ss]\<rparr> in
              if st = MU_STATUS_GOOD
              then (st, s\<lparr>subs := close_subscriptions (session_id (sessions s ! i)) (subs s), active_session := None\<rparr>)
              else (st, s))
     | _ \<Rightarrow> (MU_STATUS_BAD_SESSIONIDINVALID, s))"

definition handle_close_session :: "('e, nat) service" where
  "handle_close_session =
     sbind (sread mu_request_header_decode) (\<lambda>req.
     sbind (sread mu_binary_read_boolean) (\<lambda>delete_subscriptions.
     sbind (sput (close_session (authentication_token req) delete_subscriptions)) (\<lambda>result.
     sbind (write_response_prefix MU_ID_CLOSESESSIONRESPONSE (request_handle req) result) (\<lambda>_.
       sdone))))"

definition session_example :: "byte list list mu_server" where
  "session_example = example_server\<lparr>
     sessions := [mu_session_init\<lparr>ss_state := MU_SESSION_STATE_CREATED, session_id := 7, auth_token := 5, ss_secure_channel_id := 1,
       revised_session_timeout_ms := 10000\<rparr>, mu_session_init],
     active_session := Some 0, subs := example_subs\<rparr>"

definition secured_example :: "byte list list mu_server" where
  "secured_example = session_example\<lparr>config := example_config\<lparr>crypto_adapter := Some toy_crypto\<rparr>,
     conns := [example_connection\<lparr>secure_channel := (secure_channel example_connection)\<lparr>sc_policy := MU_SECURITY_POLICY_BASIC256SHA256_ID\<rparr>\<rparr>],
     channel_client_cert := [1]\<rparr>"

section \<open>The invariant\<close>

lemma keeps_bind_post:
  assumes "keeps P m" "\<And>h x h'. m h = (Inr x, h') \<Longrightarrow> Q x" "\<And>x. Q x \<Longrightarrow> keeps P (f x)"
  shows "keeps P (sbind m f)"
proof (rule keepsI)
  fix h y h' assume h: "sbind m f h = (y, h')" "P (sv h)"
  obtain x g where x: "m h = (x, g)" by fastforce
  have g: "P (sv g)" using assms(1) h(2) x by (auto simp: keeps_def dest: spec [of _ h])
  show "P (sv h')"
  proof (cases x)
    case (Inr a)
    hence "f a g = (y, h')" using h(1) x by (simp add: sbind_def)
    thus ?thesis using assms(3) [OF assms(2) [OF x [unfolded Inr]]] g by (auto simp: keeps_def dest!: spec [of _ g])
  qed (use h(1) x g in \<open>simp add: sbind_def\<close>)
qed

lemma inv_opn_nonce: "server_inv s \<Longrightarrow> server_inv (snd (opn_server_nonce s))"
  by (simp add: opn_server_nonce_def split: option.split prod.split sum.split)

lemma inv_open_channel:
  assumes "server_inv s"
  shows "server_inv (snd (open_channel mode l s))"
proof -
  obtain r c where c: "mu_secure_channel_open (server_secure_channel s) (current_opn_security_policy s) mode l = (r, c)" by fastforce
  have "channel_inv c"
    by (rule channel_step_inv [OF channel_step.open_channel [OF c] server_inv_active_channel [OF assms]])
  thus ?thesis by (simp add: open_channel_def c server_inv_channel [OF assms])
qed

lemma open_channel_mode: "open_channel mode l s = (Inr x, s') \<Longrightarrow> is_valid_security_mode mode"
  by (auto simp: open_channel_def dest!: channel_open_cases split: prod.splits)

lemma inv_derive_keys:
  assumes "server_inv s"
  shows "server_inv (snd (derive_keys client_nonce nonce s))"
  unfolding derive_keys_def using assms
  by (auto simp: Let_def split: option.split prod.split intro!: server_inv_channel)

text \<open>A session is taken by the create step of the table machine.\<close>

lemma allocate_session_step:
  assumes "allocate_session bits s = (r, s')"
  shows "(\<exists>st. r = Inl st) \<and> sessions s' = sessions s \<or>
    (\<exists>i revised. r = Inr (i, revised) \<and> session_step (sessions s) (sessions s') \<and>
       (\<forall>j. ss_state (sessions s ! j) \<noteq> MU_SESSION_STATE_CLOSED \<longrightarrow> sessions s' ! j = sessions s ! j))"
proof (cases "mu_session_find_free (sessions s)")
  case None
  thus ?thesis using assms by (auto simp: allocate_session_def)
next
  case (Some i)
  have e: "sessions (entropy_used n t) = sessions t" for n :: nat and t :: "'a mu_server" by (simp add: entropy_used_def split: option.split)
  note i = find_free_closed [OF Some]
  show ?thesis
  proof (cases "\<exists>st. r = Inl st")
    case True
    thus ?thesis using assms Some by (auto simp: allocate_session_def Let_def e split: sum.splits prod.splits)
  next
    case False
    then obtain sid tok revised ss where 1: "mu_session_generate_session_id (sessions s) (entropy_of s) = Inr sid"
      and 2: "mu_session_generate_authentication_token (sessions s) (entropy_of (entropy_used 4 s)) = Inr tok"
      and 3: "mu_session_create_with_identifiers (sessions s ! i) bits sid tok
          (channel_id (server_secure_channel (entropy_used 4 (entropy_used 4 s)))) = (Inr revised, ss)"
      and r: "r = Inr (i, revised)" "sessions s' = (sessions s)[i := ss]"
      using assms Some by (auto simp: allocate_session_def Let_def e split: sum.splits prod.splits)
    show ?thesis using session_step.create [OF Some 1 2 3] r i by (auto simp: nth_list_update)
  qed
qed

lemma inv_allocate_session:
  assumes "server_inv s" "allocate_session bits s = (r, s')"
  shows "server_inv s'"
proof -
  obtain t where t: "server_inv t" "s' = t\<lparr>sessions := sessions s'\<rparr>" "sessions t = sessions s" "active_session t = active_session s"
  proof (rule that)
    show "server_inv (s'\<lparr>sessions := sessions s\<rparr>)"
      using assms by (auto simp: allocate_session_def Let_def server_inv_def entropy_used_def split: option.splits sum.splits prod.splits)
    show "active_session (s'\<lparr>sessions := sessions s\<rparr>) = active_session s"
      using assms by (auto simp: allocate_session_def Let_def entropy_used_def split: option.splits sum.splits prod.splits)
  qed simp_all
  from allocate_session_step [OF assms(2)] consider "sessions s' = sessions s"
    | "session_step (sessions t) (sessions s')"
      "\<And>j. ss_state (sessions t ! j) \<noteq> MU_SESSION_STATE_CLOSED \<Longrightarrow> sessions s' ! j = sessions t ! j"
    using t(3) by auto
  thus ?thesis
  proof cases
    case 1
    thus ?thesis using t by (metis mu_server.surjective mu_server.update_convs(13))
  next
    case 2
    hence "server_inv (t\<lparr>sessions := sessions s'\<rparr>)" by (intro server_inv_session_step [OF t(1)]) auto
    thus ?thesis using t(2) by simp
  qed
qed

lemma auth_handler_frame: "call_auth_handler unset user secret policy s = (st, s') \<Longrightarrow> s' = s\<lparr>env := env s'\<rparr>"
  by (auto simp: call_auth_handler_def split: option.splits prod.splits)

lemma authenticate_frame: "authenticate_token slot tok signature s = (st, s') \<Longrightarrow> s' = s\<lparr>env := env s'\<rparr>"
  by (auto simp: authenticate_token_def Let_def dest: auth_handler_frame split: identity_token.splits sum.splits if_splits)

text \<open>An activation that succeeds: the session, the checks that were made, and the one
  change of the session table.\<close>

lemma activate_session_cases:
  assumes "activate_session token algorithm signature type_id identity user_signature s = (st, s')"
  obtains (refused) "s' = s\<lparr>env := env s'\<rparr>" "st \<noteq> MU_STATUS_GOOD"
  | (activated) e auth i encoding_id where "ns0_numeric token = Some auth" "mu_session_find_by_token (sessions s) auth = Some i"
      "ss_secure_channel_id (sessions s ! i) = channel_id (server_secure_channel s)" "ns0_numeric type_id = Some encoding_id"
      "verify_activate_client_signature s (sessions s ! i) algorithm signature = MU_STATUS_GOOD"
      "authenticate_token (sessions s ! i) identity user_signature s = (MU_STATUS_GOOD, s\<lparr>env := e\<rparr>)"
      "mu_session_activate (sessions s ! i) auth encoding_id = (st, sessions s' ! i)"
      "s' = s\<lparr>env := e, sessions := (sessions s)[i := sessions s' ! i]\<rparr>"
proof -
  define sa where "sa i = fst (authenticate_token (sessions s ! i) identity user_signature s)" for i
  define ea where "ea i = env (snd (authenticate_token (sessions s ! i) identity user_signature s))" for i
  have au: "authenticate_token (sessions s ! i) identity user_signature s = (sa i, s\<lparr>env := ea i\<rparr>)" for i
    unfolding sa_def ea_def by (rule prod_eqI) (simp_all add: authenticate_frame [OF surjective_pairing, symmetric])
  show thesis
  proof (cases "\<exists>auth i encoding_id. ns0_numeric token = Some auth \<and> mu_session_find_by_token (sessions s) auth = Some i \<and>
      ss_secure_channel_id (sessions s ! i) = channel_id (server_secure_channel s) \<and> ns0_numeric type_id = Some encoding_id \<and>
      verify_activate_client_signature s (sessions s ! i) algorithm signature = MU_STATUS_GOOD \<and> sa i = MU_STATUS_GOOD")
    case True
    then obtain auth i encoding_id where a: "ns0_numeric token = Some auth" "mu_session_find_by_token (sessions s) auth = Some i"
      "ss_secure_channel_id (sessions s ! i) = channel_id (server_secure_channel s)" "ns0_numeric type_id = Some encoding_id"
      "verify_activate_client_signature s (sessions s ! i) algorithm signature = MU_STATUS_GOOD" "sa i = MU_STATUS_GOOD" by blast
    obtain st' ss where ss: "mu_session_activate (sessions s ! i) auth encoding_id = (st', ss)" by fastforce
    have "st = st'" "s' = s\<lparr>env := ea i, sessions := (sessions s)[i := ss]\<rparr>"
      using assms a au [of i] ss by (simp_all add: activate_session_def Let_def mu_session_validate_secure_channel_def)
    moreover have "i < length (sessions s)" using find_by_token_active [OF a(2)] by simp
    ultimately show thesis using activated [OF a(1-5), of "ea i"] au [of i] a(6) ss by simp
  next
    case False
    have "s' = s\<lparr>env := env s'\<rparr> \<and> st \<noteq> MU_STATUS_GOOD"
      using assms False
      by (auto simp: activate_session_def Let_def mu_session_validate_secure_channel_def au split: option.splits if_splits)
    thus thesis using refused by blast
  qed
qed

lemma activate_state:
  assumes "mu_session_activate ss auth k = (st, ss')" "ss_state ss \<noteq> MU_SESSION_STATE_CLOSED"
  shows "ss_state ss' \<noteq> MU_SESSION_STATE_CLOSED"
proof -
  have "ss_state (snd (mu_session_activate ss auth k)) \<noteq> MU_SESSION_STATE_CLOSED"
    using assms(2) by (simp add: mu_session_activate_def)
  thus ?thesis by (simp add: assms(1))
qed

lemma inv_activate_session:
  assumes "server_inv s"
  shows "server_inv (snd (activate_session token algorithm signature type_id identity user_signature s))"
proof -
  obtain st s' where r: "activate_session token algorithm signature type_id identity user_signature s = (st, s')" by fastforce
  from r have "server_inv s'"
  proof (cases rule: activate_session_cases)
    case refused
    thus ?thesis using assms by (metis server_inv_fields(1))
  next
    case (activated e auth i encoding_id)
    have "server_inv ((s\<lparr>env := e\<rparr>)\<lparr>sessions := (sessions s)[i := sessions s' ! i]\<rparr>)"
    proof (rule server_inv_session_step)
      show "session_step (sessions (s\<lparr>env := e\<rparr>)) ((sessions s)[i := sessions s' ! i])"
        using session_step.activate [OF activated(2,7)] by simp
      fix j assume "ss_state (sessions (s\<lparr>env := e\<rparr>) ! j) \<noteq> MU_SESSION_STATE_CLOSED"
      thus "ss_state ((sessions s)[i := sessions s' ! i] ! j) \<noteq> MU_SESSION_STATE_CLOSED"
        using activate_state [OF activated(7)] find_by_token_active [OF activated(2)] by (cases "i = j") auto
    qed (simp add: assms)
    thus ?thesis using activated(8) by simp
  qed
  thus ?thesis by (simp add: r)
qed

text \<open>Closing: the slot is cleared before the loop reads its session id.\<close>

lemma close_subscriptions_foldl:
  assumes "engine_inv e" "subs_owned e"
  shows "engine_inv (foldl (\<lambda>e i. let sub = subscriptions e ! i in
       if sub_in_use sub \<and> sub_session_id sub = sid then snd (mu_subscription_delete sid (subscription_id sub) e) else e) e is) \<and>
     subs_owned (foldl (\<lambda>e i. let sub = subscriptions e ! i in
       if sub_in_use sub \<and> sub_session_id sub = sid then snd (mu_subscription_delete sid (subscription_id sub) e) else e) e is)"
  using assms
proof (induction "is" arbitrary: e)
  case (Cons i "is")
  have "subs_owned (snd (mu_subscription_delete sid k e))" for k
    using Cons.prems(2) by (auto simp: subs_owned_def mu_subscription_delete_def Let_def zero_subscription_def
        split: option.split prod.split intro!: list_all_update)
  thus ?case using Cons.IH Cons.prems delete_engine by (simp add: Let_def)
qed simp

lemma inv_close_session:
  assumes "server_inv s"
  shows "server_inv (snd (close_session token d s))"
proof (cases "active_session s")
  case None
  thus ?thesis using assms by (simp add: close_session_def)
next
  case (Some i)
  have i: "i < length (sessions s)" and st: "ss_state (sessions s ! i) \<noteq> MU_SESSION_STATE_CLOSED" and si: "sessions_inv (sessions s)"
    using assms Some by (auto simp: server_inv_def session_served_def sessions_inv_def)
  have c: "sessions_inv ((sessions s)[i := mu_session_init])"
    by (rule sessions_inv_same [OF si i]) (simp add: mu_session_init_def)
  have k: "engine_inv (close_subscriptions sid (subs s)) \<and> subs_owned (close_subscriptions sid (subs s))" for sid
    unfolding close_subscriptions_def by (rule close_subscriptions_foldl) (use assms in \<open>simp_all add: server_inv_def\<close>)
  show ?thesis using assms Some c k
    by (auto simp: close_session_def mu_session_close_def Let_def server_inv_def session_served_def list_update_id
        split: mu_identifier.split)
qed

lemma keeps_session_services [keeps_intros]:
  "keeps server_inv handle_create_session" "keeps server_inv handle_activate_session" "keeps server_inv handle_close_session"
proof -
  have a: "server_inv s \<Longrightarrow> server_inv (snd (allocate_session bits s))" for bits s
    using inv_allocate_session by (metis prod.collapse)
  have n: "server_inv s \<Longrightarrow> server_inv (update_session i (\<lambda>ss. ss\<lparr>server_nonce := nonce\<rparr>) s)" for i nonce s
  proof (cases "i < length (sessions s)")
    case True
    assume s: "server_inv s"
    show ?thesis unfolding update_session_def
      by (rule server_inv_session_step [OF s session_step.nonce [OF True]])
        (use True in \<open>auto simp: nth_list_update\<close>)
  qed (simp add: update_session_def list_update_beyond)
  show "keeps server_inv handle_create_session"
    unfolding handle_create_session_def by (intro keeps_intros; simp add: a n)
  show "keeps server_inv handle_activate_session"
    unfolding handle_activate_session_def by (intro keeps_intros; simp add: inv_activate_session)
  show "keeps server_inv handle_close_session"
    unfolding handle_close_session_def by (intro keeps_intros; simp add: inv_close_session)
qed

lemma keeps_open_secure_channel [keeps_intros]: "keeps server_inv handle_open_secure_channel"
proof -
  have m: "server_inv s \<Longrightarrow> is_valid_security_mode mode \<Longrightarrow> server_inv (update_channel (\<lambda>c. c\<lparr>ch_mode := mode\<rparr>) s)"
    for mode and s :: "'a mu_server"
    by (rule server_inv_channel) (auto simp: channel_inv_def split: if_splits)
  have o: "keeps server_inv (sbind (scall (open_channel mode l)) f)"
    if "\<And>x. is_valid_security_mode mode \<Longrightarrow> keeps server_inv (f x)" for mode l and f :: "u32 \<Rightarrow> ('a, nat) service"
    using that by (intro keeps_bind_post [where Q = "\<lambda>_. is_valid_security_mode mode"] keeps_intros inv_open_channel)
      (auto simp: scall_def dest: open_channel_mode split: prod.splits)
  show ?thesis
    unfolding handle_open_secure_channel_def
    by (intro o keeps_intros; simp add: inv_opn_nonce inv_derive_keys m)
qed

section \<open>What the services require\<close>


text \<open>C36: CloseSession and subscriptions.  In every state the invariant allows, a CloseSession
  that succeeds frees the session's slot but deletes none of its subscriptions, whatever
  the client asks for: the loop compares with the session id of the cleared slot, which
  is zero.\<close>

theorem close_session_leaves_subscriptions:
  assumes "server_inv s" "close_session token delete_subscriptions s = (MU_STATUS_GOOD, s')"
  shows "\<exists>i. active_session s = Some i \<and> sessions s' = (sessions s)[i := mu_session_init] \<and> active_session s' = None \<and>
    subs s' = subs s"
proof -
  obtain i where a: "active_session s = Some i" using assms(2) by (auto simp: close_session_def split: option.splits)
  have i: "i < length (sessions s)" using assms(1) a by (auto simp: server_inv_def session_served_def sessions_inv_def)
  have own: "\<forall>k < length (subscriptions (subs s)). sub_in_use (subscriptions (subs s) ! k) \<longrightarrow> sub_session_id (subscriptions (subs s) ! k) \<noteq> 0"
    using assms(1) by (simp add: server_inv_def subs_owned_def list_all_length)
  have len: "length (subscriptions (subs s)) = MU_MAX_SUBSCRIPTIONS"
    using assms(1) table_invD(1) by (simp add: server_inv_def engine_inv_def)
  have f: "foldl (\<lambda>e i. let sub = subscriptions e ! i in
       if sub_in_use sub \<and> sub_session_id sub = 0 then snd (mu_subscription_delete 0 (subscription_id sub) e) else e) (subs s) is = subs s"
    if "\<forall>k \<in> set is. k < MU_MAX_SUBSCRIPTIONS" for "is"
    using that own len by (induction "is") (auto simp: Let_def)
  have "close_subscriptions 0 (subs s) = subs s" unfolding close_subscriptions_def by (rule f) simp
  thus ?thesis using assms(2) a i
    by (auto simp: close_session_def mu_session_close_def Let_def mu_session_init_def split: mu_identifier.splits if_splits)
qed

lemma session_example_inv: "server_inv session_example"
proof -
  have "engine_inv example_subs" unfolding example_subs_def by (rule create_engine [OF init_engine])
  moreover have "subs_owned example_subs" by (simp add: example_subs_def subs_owned_def) code_simp
  ultimately show ?thesis
    by (simp add: server_inv_def session_example_def example_server_def sessions_inv_def active_sessions_def MU_MAX_SESSIONS_def
        MU_MAX_CONNECTIONS_def conn_ok_def example_connection_def zero_connection_def channel_inv_def mu_secure_channel_init_def
        session_served_def mu_session_init_def is_valid_security_mode_def list_all_iff)
qed


theorem close_session_leaves_subscriptions_witness:
  "\<exists>s'. close_session (ns0 5) True session_example = (MU_STATUS_GOOD, s') \<and> subs s' = example_subs \<and>
     mu_subscription_find example_subs 7 1 = Some 0"
proof -
  obtain s' where c: "close_session (ns0 5) True session_example = (MU_STATUS_GOOD, s')"
    by (simp add: close_session_def session_example_def example_server_def ns0_def mu_session_close_def Let_def)
  thus ?thesis using close_session_leaves_subscriptions [OF session_example_inv c] example_subs_find
    by (auto simp: session_example_def)
qed

end
