(* ===== verification/Base_Nodes.thy ===== *)
theory Base_Nodes
  imports Address_Space
begin

text \<open>
  The built-in nodes of namespace 0 (\<^verbatim>\<open>src/address_space/base_nodes.c\<close>): the constant table
  with its references and static values, for a build with the base type system and the
  standard subscription facet, the two run-time nodes whose values are read through a
  callback, and the resolution of a node id in the three address spaces.  The table is given in the
  order of the source; the look-up in it is a binary search, so the order matters.
\<close>

section \<open>References and static values\<close>

definition fref :: "u32 \<times> u32 \<Rightarrow> mu_reference" where
  "fref r = \<lparr>reference_type_id = ns0 (fst r), target_id = ns0 (snd r), is_forward = True\<rparr>"

definition lit :: "string \<Rightarrow> mu_string" where
  "lit s = mk_string (map of_char s)"

definition s_root_refs :: "mu_reference list" where
  "s_root_refs = map fref [(35, 85), (35, 86), (35, 87), (40, 61)]"

definition s_objects_refs :: "mu_reference list" where
  "s_objects_refs = map fref [(35, 2253), (40, 61)]"

definition s_views_refs :: "mu_reference list" where
  "s_views_refs = map fref [(40, 61)]"

definition s_types_refs :: "mu_reference list" where
  "s_types_refs = map fref [(35, 88), (35, 89), (35, 90), (35, 91), (40, 61)]"

definition s_type_folder_object_refs :: "mu_reference list" where
  "s_type_folder_object_refs = map fref [(35, 58), (40, 61)]"

definition s_type_folder_variable_refs :: "mu_reference list" where
  "s_type_folder_variable_refs = map fref [(35, 62), (40, 61)]"

definition s_type_folder_data_refs :: "mu_reference list" where
  "s_type_folder_data_refs = map fref [(35, 24), (40, 61)]"

definition s_type_folder_reference_refs :: "mu_reference list" where
  "s_type_folder_reference_refs = map fref [(35, 31), (40, 61)]"

definition s_references_refs :: "mu_reference list" where
  "s_references_refs = map fref [(45, 32), (45, 33)]"

definition s_nonhierarchical_refs :: "mu_reference list" where
  "s_nonhierarchical_refs = map fref [(45, 40)]"

definition s_hierarchical_refs :: "mu_reference list" where
  "s_hierarchical_refs = map fref [(45, 34), (45, 35)]"

definition s_has_child_refs :: "mu_reference list" where
  "s_has_child_refs = map fref [(45, 44), (45, 45)]"

definition s_aggregates_refs :: "mu_reference list" where
  "s_aggregates_refs = map fref [(45, 46), (45, 47)]"

definition s_base_data_type_refs :: "mu_reference list" where
  "s_base_data_type_refs = map fref [(45, 1), (45, 2), (45, 3), (45, 4), (45, 5), (45, 6), (45, 7), (45, 8), (45, 9), (45, 10), (45, 11), (45, 12), (45, 13), (45, 17), (45, 19), (45, 20), (45, 21)]"

definition s_base_object_type_refs :: "mu_reference list" where
  "s_base_object_type_refs = map fref [(45, 61), (45, 2004)]"

definition s_base_variable_type_refs :: "mu_reference list" where
  "s_base_variable_type_refs = map fref [(45, 63)]"

definition s_base_data_variable_type_refs :: "mu_reference list" where
  "s_base_data_variable_type_refs = map fref [(45, 68)]"

definition s_server_refs :: "mu_reference list" where
  "s_server_refs = map fref [(47, 2254), (47, 2255), (47, 2256), (47, 2268), (47, 11492), (47, 12873), (40, 2004)]"

definition s_server_status_refs :: "mu_reference list" where
  "s_server_status_refs = map fref [(47, 2259), (47, 2258), (47, 2257), (40, 63)]"

definition s_server_capabilities_refs :: "mu_reference list" where
  "s_server_capabilities_refs = map fref [(46, 2269), (46, 2271), (47, 11704), (40, 58)]"

definition s_operation_limits_refs :: "mu_reference list" where
  "s_operation_limits_refs = map fref [(46, 11705), (46, 11710), (40, 58)]"

definition s_property_type_ref :: "mu_reference list" where
  "s_property_type_ref = map fref [(40, 68)]"

definition s_get_monitored_items_refs :: "mu_reference list" where
  "s_get_monitored_items_refs = map fref [(46, 11493), (46, 11494)]"

definition s_resend_data_refs :: "mu_reference list" where
  "s_resend_data_refs = map fref [(46, 12874)]"

definition string_array_value :: "string \<Rightarrow> mu_value_source" where
  "string_array_value s = StaticValue (VArray MU_TYPE_STRING 1 (Some [V_String (lit s)]))"

definition s_server_array_value :: mu_value_source where
  "s_server_array_value = string_array_value ''urn:muc-opcua:server''"

definition s_namespace_array_value :: mu_value_source where
  "s_namespace_array_value = string_array_value ''http://opcfoundation.org/UA/''"

definition s_server_status_state_value :: mu_value_source where
  "s_server_status_state_value = StaticValue (VScalar (V_Int32 0))"

definition s_server_profile_array_value :: mu_value_source where
  "s_server_profile_array_value = string_array_value ''http://opcfoundation.org/UA-Profile/Server/EmbeddedUA2017''"

definition s_locale_id_array_value :: mu_value_source where
  "s_locale_id_array_value = string_array_value ''en''"

definition s_max_nodes_per_read_value :: mu_value_source where
  "s_max_nodes_per_read_value = StaticValue (VScalar (V_UInt32 32))"

definition s_max_nodes_per_browse_value :: mu_value_source where
  "s_max_nodes_per_browse_value = StaticValue (VScalar (V_UInt32 8))"

section \<open>The table\<close>

definition base_node ::
    "u32 \<Rightarrow> mu_node_class \<Rightarrow> mu_string \<Rightarrow> mu_string \<Rightarrow> mu_reference list option \<Rightarrow> mu_value_source option \<Rightarrow> mu_node" where
  "base_node i cls browse display refs value =
     \<lparr>node_id = ns0 i, node_class = cls, browse_name = browse, display_name = display, node_references = refs,
      reference_count = (case refs of None \<Rightarrow> 0 | Some rs \<Rightarrow> length rs), node_value = value\<rparr>"

definition s_base_nodes_1 :: "mu_node list" where
  "s_base_nodes_1 = [
    base_node 1 MU_NODECLASS_DATATYPE (lit ''Boolean'') (lit ''Boolean'') None None,
    base_node 2 MU_NODECLASS_DATATYPE (lit ''SByte'') (lit ''SByte'') None None,
    base_node 3 MU_NODECLASS_DATATYPE (lit ''Byte'') (lit ''Byte'') None None,
    base_node 4 MU_NODECLASS_DATATYPE (lit ''Int16'') (lit ''Int16'') None None,
    base_node 5 MU_NODECLASS_DATATYPE (lit ''UInt16'') (lit ''UInt16'') None None,
    base_node 6 MU_NODECLASS_DATATYPE (lit ''Int32'') (lit ''Int32'') None None,
    base_node 7 MU_NODECLASS_DATATYPE (lit ''UInt32'') (lit ''UInt32'') None None,
    base_node 8 MU_NODECLASS_DATATYPE (lit ''Int64'') (lit ''Int64'') None None,
    base_node 9 MU_NODECLASS_DATATYPE (lit ''UInt64'') (lit ''UInt64'') None None,
    base_node 10 MU_NODECLASS_DATATYPE (lit ''Float'') (lit ''Float'') None None,
    base_node 11 MU_NODECLASS_DATATYPE (lit ''Double'') (lit ''Double'') None None,
    base_node 12 MU_NODECLASS_DATATYPE (lit ''String'') (lit ''String'') None None,
    base_node 13 MU_NODECLASS_DATATYPE (lit ''DateTime'') (lit ''DateTime'') None None,
    base_node 17 MU_NODECLASS_DATATYPE (lit ''NodeId'') (lit ''NodeId'') None None,
    base_node 19 MU_NODECLASS_DATATYPE (lit ''StatusCode'') (lit ''StatusCode'') None None]"

definition s_base_nodes_2 :: "mu_node list" where
  "s_base_nodes_2 = [
    base_node 20 MU_NODECLASS_DATATYPE (lit ''QualifiedName'') (lit ''QualifiedName'') None None,
    base_node 21 MU_NODECLASS_DATATYPE (lit ''LocalizedText'') (lit ''LocalizedText'') None None,
    base_node 24 MU_NODECLASS_DATATYPE (lit ''BaseDataType'') (lit ''BaseDataType'') (Some s_base_data_type_refs) None,
    base_node 31 MU_NODECLASS_REFERENCETYPE (lit ''References'') (lit ''References'') (Some s_references_refs) None,
    base_node 32 MU_NODECLASS_REFERENCETYPE (lit ''NonHierarchicalReferences'') (lit ''NonHierarchicalReferences'') (Some s_nonhierarchical_refs) None,
    base_node 33 MU_NODECLASS_REFERENCETYPE (lit ''HierarchicalReferences'') (lit ''HierarchicalReferences'') (Some s_hierarchical_refs) None,
    base_node 34 MU_NODECLASS_REFERENCETYPE (lit ''HasChild'') (lit ''HasChild'') (Some s_has_child_refs) None,
    base_node 35 MU_NODECLASS_REFERENCETYPE (lit ''Organizes'') (lit ''Organizes'') None None,
    base_node 40 MU_NODECLASS_REFERENCETYPE (lit ''HasTypeDefinition'') (lit ''HasTypeDefinition'') None None,
    base_node 44 MU_NODECLASS_REFERENCETYPE (lit ''Aggregates'') (lit ''Aggregates'') (Some s_aggregates_refs) None,
    base_node 45 MU_NODECLASS_REFERENCETYPE (lit ''HasSubtype'') (lit ''HasSubtype'') None None,
    base_node 46 MU_NODECLASS_REFERENCETYPE (lit ''HasProperty'') (lit ''HasProperty'') None None,
    base_node 47 MU_NODECLASS_REFERENCETYPE (lit ''HasComponent'') (lit ''HasComponent'') None None,
    base_node 58 MU_NODECLASS_OBJECTTYPE (lit ''BaseObjectType'') (lit ''BaseObjectType'') (Some s_base_object_type_refs) None,
    base_node 61 MU_NODECLASS_OBJECTTYPE (lit ''FolderType'') (lit ''FolderType'') None None]"

definition s_base_nodes_3 :: "mu_node list" where
  "s_base_nodes_3 = [
    base_node 62 MU_NODECLASS_VARIABLETYPE (lit ''BaseVariableType'') (lit ''BaseVariableType'') (Some s_base_variable_type_refs) None,
    base_node 63 MU_NODECLASS_VARIABLETYPE (lit ''BaseDataVariableType'') (lit ''BaseDataVariableType'') (Some s_base_data_variable_type_refs) None,
    base_node 68 MU_NODECLASS_VARIABLETYPE (lit ''PropertyType'') (lit ''PropertyType'') None None,
    base_node 84 MU_NODECLASS_OBJECT (lit ''Root'') (lit ''Root'') (Some s_root_refs) None,
    base_node 85 MU_NODECLASS_OBJECT (lit ''Objects'') (lit ''Objects'') (Some s_objects_refs) None,
    base_node 86 MU_NODECLASS_OBJECT (lit ''Types'') (lit ''Types'') (Some s_types_refs) None,
    base_node 87 MU_NODECLASS_OBJECT (lit ''Views'') (lit ''Views'') (Some s_views_refs) None,
    base_node 88 MU_NODECLASS_OBJECT (lit ''ObjectTypes'') (lit ''ObjectTypes'') (Some s_type_folder_object_refs) None,
    base_node 89 MU_NODECLASS_OBJECT (lit ''VariableTypes'') (lit ''VariableTypes'') (Some s_type_folder_variable_refs) None,
    base_node 90 MU_NODECLASS_OBJECT (lit ''DataTypes'') (lit ''DataTypes'') (Some s_type_folder_data_refs) None,
    base_node 91 MU_NODECLASS_OBJECT (lit ''ReferenceTypes'') (lit ''ReferenceTypes'') (Some s_type_folder_reference_refs) None,
    base_node 2004 MU_NODECLASS_OBJECTTYPE (lit ''ServerType'') (lit ''ServerType'') None None,
    base_node 2253 MU_NODECLASS_OBJECT (lit ''Server'') (lit ''Server'') (Some s_server_refs) None,
    base_node 2254 MU_NODECLASS_VARIABLE (lit ''ServerArray'') (lit ''ServerArray'') (Some s_property_type_ref) (Some s_server_array_value),
    base_node 2255 MU_NODECLASS_VARIABLE (lit ''NamespaceArray'') (lit ''NamespaceArray'') (Some s_property_type_ref) (Some s_namespace_array_value)]"

definition s_base_nodes_4 :: "mu_node list" where
  "s_base_nodes_4 = [
    base_node 2256 MU_NODECLASS_VARIABLE (lit ''ServerStatus'') (lit ''ServerStatus'') (Some s_server_status_refs) None,
    base_node 2259 MU_NODECLASS_VARIABLE (lit ''State'') (lit ''State'') (Some s_property_type_ref) (Some s_server_status_state_value),
    base_node 2268 MU_NODECLASS_OBJECT (lit ''ServerCapabilities'') (lit ''ServerCapabilities'') (Some s_server_capabilities_refs) None,
    base_node 2269 MU_NODECLASS_VARIABLE (lit ''ServerProfileArray'') (lit ''ServerProfileArray'') (Some s_property_type_ref) (Some s_server_profile_array_value),
    base_node 2271 MU_NODECLASS_VARIABLE (lit ''LocaleIdArray'') (lit ''LocaleIdArray'') (Some s_property_type_ref) (Some s_locale_id_array_value),
    base_node 11492 MU_NODECLASS_METHOD (lit ''GetMonitoredItems'') (lit ''GetMonitoredItems'') (Some s_get_monitored_items_refs) None,
    base_node 11493 MU_NODECLASS_VARIABLE (lit ''InputArguments'') (lit ''InputArguments'') (Some s_property_type_ref) None,
    base_node 11494 MU_NODECLASS_VARIABLE (lit ''OutputArguments'') (lit ''OutputArguments'') (Some s_property_type_ref) None,
    base_node 11704 MU_NODECLASS_OBJECT (lit ''OperationLimits'') (lit ''OperationLimits'') (Some s_operation_limits_refs) None,
    base_node 11705 MU_NODECLASS_VARIABLE (lit ''MaxNodesPerRead'') (lit ''MaxNodesPerRead'') (Some s_property_type_ref) (Some s_max_nodes_per_read_value),
    base_node 11710 MU_NODECLASS_VARIABLE (lit ''MaxNodesPerBrowse'') (lit ''MaxNodesPerBrowse'') (Some s_property_type_ref) (Some s_max_nodes_per_browse_value),
    base_node 12873 MU_NODECLASS_METHOD (lit ''ResendData'') (lit ''ResendData'') (Some s_resend_data_refs) None,
    base_node 12874 MU_NODECLASS_VARIABLE (lit ''InputArguments'') (lit ''InputArguments'') (Some s_property_type_ref) None]"

definition s_base_nodes :: "mu_node list" where
  "s_base_nodes = s_base_nodes_1 @ s_base_nodes_2 @ s_base_nodes_3 @ s_base_nodes_4"

definition s_base_space :: mu_address_space where
  "s_base_space = \<lparr>as_nodes = Some s_base_nodes, node_count = length s_base_nodes\<rparr>"

definition mu_base_address_space :: mu_address_space where
  "mu_base_address_space = s_base_space"

section \<open>Run-time nodes\<close>

text \<open>The nodes that \<^verbatim>\<open>mu_base_runtime_init\<close> fills in; their value source is the callback 0,
  \<^verbatim>\<open>base_status_time_read\<close>.\<close>

definition runtime_nodes :: "mu_node list" where
  "runtime_nodes = [
    base_node 2258 MU_NODECLASS_VARIABLE (lit ''CurrentTime'') (lit ''CurrentTime'') (Some s_property_type_ref) (Some (CallbackValue (Some 0))),
    base_node 2257 MU_NODECLASS_VARIABLE (lit ''StartTime'') (lit ''StartTime'') (Some s_property_type_ref) (Some (CallbackValue (Some 0)))]"

definition mu_base_runtime_init :: mu_address_space where
  "mu_base_runtime_init = \<lparr>as_nodes = Some runtime_nodes, node_count = 2\<rparr>"

section \<open>Resolution\<close>

text \<open>The addresses of the three address spaces: the index of the user's space is keyed by its
  address, and the base space is recognised by its address.\<close>

definition BASE_SPACE :: nat where "BASE_SPACE = 0"
definition RUNTIME_SPACE :: nat where "RUNTIME_SPACE = 1"
definition USER_SPACE :: nat where "USER_SPACE = 2"

definition mu_resolve_node ::
    "mu_address_space option \<Rightarrow> mu_address_space_index \<Rightarrow> mu_address_space option \<Rightarrow> mu_nodeid \<Rightarrow> mu_node option \<times> mu_address_space_index" where
  "mu_resolve_node user user_index runtime nid =
    (let (n, ix) = (case user of None \<Rightarrow> (None, user_index)
         | Some space \<Rightarrow> (case mu_address_space_find_node BASE_SPACE USER_SPACE space (Some user_index) nid of (n, ix) \<Rightarrow> (n, the ix))) in
     if n \<noteq> None then (n, ix)
     else
     let n = (case runtime of None \<Rightarrow> None
         | Some space \<Rightarrow> fst (mu_address_space_find_node BASE_SPACE RUNTIME_SPACE space None nid)) in
     if n \<noteq> None then (n, ix)
     else (fst (mu_address_space_find_node BASE_SPACE BASE_SPACE mu_base_address_space None nid), ix))"

definition find_by_id :: "mu_nodeid \<Rightarrow> mu_node list \<Rightarrow> mu_node option" where
  "find_by_id nid = find (\<lambda>n. mu_nodeid_equal (node_id n) nid)"

section \<open>The tables are in order\<close>

definition base_ids :: "u32 list" where
  "base_ids = [1, 2, 3, 4, 5, 6, 7, 8, 9, 10, 11, 12, 13, 17, 19, 20, 21, 24, 31, 32, 33, 34, 35, 40, 44, 45, 46, 47, 58, 61, 62, 63, 68, 84, 85, 86, 87, 88, 89, 90, 91, 2004, 2253, 2254, 2255, 2256, 2259, 2268, 2269, 2271, 11492, 11493, 11494, 11704, 11705, 11710, 12873, 12874]"

lemma base_nodes_ids: "map node_id s_base_nodes = map ns0 base_ids"
  by (simp add: s_base_nodes_def s_base_nodes_1_def s_base_nodes_2_def s_base_nodes_3_def s_base_nodes_4_def base_node_def base_ids_def)

lemma base_ids_sorted: "sorted_wrt (<) base_ids"
  by (simp add: base_ids_def)

lemma base_space_nodes [simp]: "space_nodes mu_base_address_space = s_base_nodes"
  by (simp add: space_nodes_def mu_base_address_space_def s_base_space_def)

lemma ns0_wf [simp]: "wf_nodeid (ns0 i)"
  by (simp add: wf_nodeid_def ns0_def)

lemma base_nodes_wf: "n \<in> set s_base_nodes \<Longrightarrow> \<exists>i \<in> set base_ids. node_id n = ns0 i"
  using base_nodes_ids by (metis (no_types, lifting) image_iff list.set_map)

lemma base_space_wf: "space_wf mu_base_address_space"
  using base_nodes_wf by (force simp: space_wf_def mu_base_address_space_def s_base_space_def list_all_iff)

lemma base_space_sorted: "sorted (map (\<lambda>n. nid_key (node_id n)) s_base_nodes)"
proof -
  have "map (\<lambda>n. nid_key (node_id n)) s_base_nodes = map (\<lambda>i. nid_key (ns0 i)) base_ids"
    using arg_cong [OF base_nodes_ids, of "map nid_key"] by (simp add: comp_def)
  moreover have "nid_key (ns0 i) \<le> nid_key (ns0 j)" if "i < j" for i j
    using that by (simp add: nid_key_def ns0_def id_key_def word_less_def)
  then have "sorted (map (\<lambda>i. nid_key (ns0 i)) is)" if "sorted_wrt (<) is" for "is"
    using that by (induction "is") auto
  then have "sorted (map (\<lambda>i. nid_key (ns0 i)) base_ids)" using base_ids_sorted by blast
  ultimately show ?thesis by simp
qed

lemma equal_ns0 [simp]: "mu_nodeid_equal (ns0 i) (ns0 j) \<longleftrightarrow> i = j"
  by (simp add: mu_nodeid_equal_def ns0_def)

lemma base_no_duplicate: "\<not> has_duplicate s_base_nodes"
proof -
  have "\<not> has_duplicate ns" if "map node_id ns = map ns0 is" "sorted_wrt (<) is" for ns "is"
    using that
  proof (induction ns arbitrary: "is")
    case (Cons n ns)
    then obtain i js where js: "is = i # js" "node_id n = ns0 i" "map node_id ns = map ns0 js" by (cases "is") auto
    have "node_id m \<in> ns0 ` set js" if "m \<in> set ns" for m using that js(3) by (metis image_eqI image_set list.set_map)
    then have "\<not> mu_nodeid_equal (node_id n) (node_id m)" if "m \<in> set ns" for m using that Cons.prems(2) js by fastforce
    then show ?case using Cons.IH [OF js(3)] Cons.prems(2) js(1) by (auto simp: list_ex_iff)
  qed simp
  then show ?thesis using base_nodes_ids base_ids_sorted by blast
qed

section \<open>Properties\<close>

lemma find_in_runtime: "fst (mu_address_space_find_node BASE_SPACE RUNTIME_SPACE mu_base_runtime_init None q) = find_by_id q runtime_nodes"
  by (simp add: mu_address_space_find_node_def mu_base_runtime_init_def BASE_SPACE_def RUNTIME_SPACE_def
    mu_address_space_find_node_linear_def find_by_id_def runtime_nodes_def)

lemma find_in_base:
  "supported_nodeid q \<Longrightarrow> fst (mu_address_space_find_node BASE_SPACE BASE_SPACE mu_base_address_space None q) = find_by_id q s_base_nodes"
  using find_node_direct_equiv [OF base_space_wf, of q BASE_SPACE] base_space_sorted base_no_duplicate
    arg_cong [of _ _ "\<lambda>s. mu_address_space_find_node_linear s q", OF mu_base_address_space_def]
  by (simp add: mu_address_space_find_node_linear_def find_by_id_def s_base_space_def)

lemma find_by_id_Nil [simp]: "find_by_id q [] = None"
  by (simp add: find_by_id_def)

lemma find_by_id_append: "find_by_id q (xs @ ys) = (case find_by_id q xs of None \<Rightarrow> find_by_id q ys | Some n \<Rightarrow> Some n)"
  by (induction xs) (auto simp: find_by_id_def)

lemma resolve_builtin:
  "supported_nodeid q \<Longrightarrow> mu_resolve_node None ix (Some mu_base_runtime_init) q = (find_by_id q (runtime_nodes @ s_base_nodes), ix)"
  using find_in_runtime [of q] find_in_base [of q]
  by (auto simp: mu_resolve_node_def find_by_id_append Let_def split: option.split)

lemma ns0_supported [simp]: "supported_nodeid (ns0 i)"
  by (simp add: supported_nodeid_def ns0_def wf_nodeid_def)

text \<open>C38: a node id is resolved to the first node with that identifier in the user's address space, the
  run-time nodes and the built-in table, in this order, or to none when there is none: the indexed
  look-up in the user's space and the binary search in the built-in table lose nothing.  The
  index of the user's space stays usable.\<close>

theorem resolve_node_finds:
  assumes "\<And>space. user = Some space \<Longrightarrow>
      mu_address_space_validate BASE_SPACE USER_SPACE space = MU_STATUS_GOOD \<and> space_wf space \<and> index_ok USER_SPACE space ix"
    and "supported_nodeid q"
  shows "fst (mu_resolve_node user ix (Some mu_base_runtime_init) q) =
      find_by_id q ((case user of None \<Rightarrow> [] | Some space \<Rightarrow> space_nodes space) @ runtime_nodes @ s_base_nodes) \<and>
    (case user of None \<Rightarrow> snd (mu_resolve_node user ix (Some mu_base_runtime_init) q) = ix
     | Some space \<Rightarrow> index_ok USER_SPACE space (snd (mu_resolve_node user ix (Some mu_base_runtime_init) q)))"
proof (cases user)
  case None
  then show ?thesis using resolve_builtin [OF assms(2)] by simp
next
  case (Some space)
  obtain ix' where u: "mu_address_space_find_node BASE_SPACE USER_SPACE space (Some ix) q = (mu_address_space_find_node_linear space q, Some ix')"
      "index_ok USER_SPACE space ix'"
    using find_node_indexed_equiv [of BASE_SPACE USER_SPACE space ix q] assms Some by auto
  moreover have "mu_address_space_find_node_linear space q = find_by_id q (space_nodes space)"
    using assms(1) [OF Some] by (auto simp: mu_address_space_find_node_linear_def find_by_id_def space_nodes_def space_wf_def split: option.splits)
  ultimately show ?thesis
    using Some find_in_runtime [of q] find_in_base [OF assms(2)]
    by (auto simp: mu_resolve_node_def find_by_id_append Let_def split: option.split)
qed

theorem resolve_node_finds_witness:
  "fst (mu_resolve_node (Some sample_space) fresh_index (Some mu_base_runtime_init) (ns0 2253)) = find_by_id (ns0 2253) s_base_nodes \<and>
   map_option browse_name (find_by_id (ns0 2253) s_base_nodes) = Some (lit ''Server'')"
proof -
  have "mu_address_space_validate BASE_SPACE USER_SPACE sample_space = MU_STATUS_GOOD" by code_simp
  moreover have "space_wf sample_space" by code_simp
  moreover have "index_ok USER_SPACE sample_space fresh_index" by code_simp
  moreover have "supported_nodeid (ns0 2253)" by code_simp
  moreover have "find_by_id (ns0 2253) (space_nodes sample_space) = None" "find_by_id (ns0 2253) runtime_nodes = None" by code_simp+
  moreover have "map_option browse_name (find_by_id (ns0 2253) s_base_nodes) = Some (lit ''Server'')" by code_simp
  ultimately show ?thesis
    using resolve_node_finds [of "Some sample_space" fresh_index "ns0 2253"] by (auto simp: find_by_id_append)
qed

text \<open>C39: the built-in address space is closed: every reference of a built-in node or run-time node
  leads to a node that a request for its id resolves to, whatever the user's address space index is.\<close>

theorem base_references_resolve:
  "list_all (\<lambda>n. list_all (\<lambda>r. fst (mu_resolve_node None ix (Some mu_base_runtime_init) (target_id r)) \<noteq> None)
     (case node_references n of None \<Rightarrow> [] | Some rs \<Rightarrow> rs)) (runtime_nodes @ s_base_nodes)"
proof -
  have "find_by_id (ns0 i) (runtime_nodes @ s_base_nodes) \<noteq> None" if i: "i \<in> set (2258 # 2257 # base_ids)" for i
  proof -
    have "\<exists>n \<in> set (runtime_nodes @ s_base_nodes). node_id n = ns0 i"
    proof (cases "i \<in> set base_ids")
      case True
      then have "ns0 i \<in> set (map node_id s_base_nodes)" by (simp add: base_nodes_ids)
      then show ?thesis by auto
    qed (use i in \<open>auto simp: runtime_nodes_def base_node_def\<close>)
    then show ?thesis by (auto simp: find_by_id_def find_None_iff)
  qed
  then have found: "fst (mu_resolve_node None ix (Some mu_base_runtime_init) (ns0 i)) \<noteq> None" if "i \<in> set (2258 # 2257 # base_ids)" for i
    using that resolve_builtin [OF ns0_supported] by simp
  have "list_all (\<lambda>n. list_all (\<lambda>r. list_ex (\<lambda>i. target_id r = ns0 i) (2258 # 2257 # base_ids))
      (case node_references n of None \<Rightarrow> [] | Some rs \<Rightarrow> rs)) (runtime_nodes @ s_base_nodes)"
    by code_simp
  then show ?thesis using found by (force simp: list_all_iff list_ex_iff simp del: set_append set_simps)
qed

end
