(* ===== verification/Spec2Isabelle.thy ===== *)
theory Spec2Isabelle
  imports Publish Session_Services Base_Nodes
begin

text \<open>
  A verification library for muc-opcua, a freestanding OPC UA server in C without a heap.
  The build that is modelled is the profile \<^verbatim>\<open>full\<close>: security, several connections,
  subscriptions with the standard facet, events, write, node management, PubSub, the base
  nodes with the base type system; alarms and conditions are not part of it.

  \<^bold>\<open>The program.\<close>  One server object owns all state: connections, secure channels,
  sessions, subscriptions with their monitored items, the dynamic address space.  Bytes of a
  connection are cut into chunks; a chunk is checked for its sequence number, unprotected,
  decoded and handed to the service handler of its request; the handler's response is
  encoded, protected and sent.  Between requests a timer samples the monitored items and
  answers parked Publish requests.

  \<^bold>\<open>Conventions.\<close>  A struct is a record, an enumeration a datatype, an integer a word of
  its width, a \<^verbatim>\<open>size_t\<close> that only counts inside a buffer a natural number, a double its bit
  pattern.  A pointer that may be NULL is an option, a pointer into a table an index, a
  string is held by value with its length field (\<open>mu_string\<close>).  A function with an
  out-parameter and a status is a function into \<open>statuscode + 'a\<close>; the parts of the state
  that it changes on an error path are returned on that path too.  The adapters of
  \<^verbatim>\<open>include/muc_opcua/platform.h\<close> (TCP, time, entropy, cryptography, history, UDP) and the
  callbacks of the application are parameters: fields of the configuration or of the
  environment in the server record.  What a theorem assumes of them is a named predicate
  (\<open>hmac_law\<close>, \<open>crypto_laws\<close>) or a premise, and its witness instantiates them.

  \<^bold>\<open>Library.\<close>
  \<^item> \<open>Mu_Prelude\<close>, \<open>Mu_Types\<close>: word and list facts, the collections of facts
    (\<open>wire_simps\<close>, \<open>safe_intros\<close>, \<open>keeps_intros\<close>, ...), status codes and the data types of
    \<^verbatim>\<open>types.h\<close>.
  \<^item> \<open>Binary_Buffer\<close>: readers and writers with their sticky status, the combinators of
    decoders and encoders, and the interfaces \<open>decoder\<close>, \<open>encoder\<close> and \<open>codec\<close>.  A codec
    decodes what it encoded, is prefix free, refuses truncated input, and touches nothing
    outside its span; each wire type of the three theories below is an interpretation.
  \<^item> \<open>Ring_Queue\<close>: ring buffers and the interfaces \<open>bounded_queue\<close>, \<open>draining_queue\<close>,
    interpreted for report queues and the event queue.

  \<^bold>\<open>Wire format\<close> (\<^verbatim>\<open>src/encoding\<close>).  \<open>Binary_Primitives\<close>, \<open>Binary_Values\<close> and
  \<open>Binary_Variant\<close> model the codec function by function; round trip, safety of reading and
  writing, unambiguity.  \<open>Service_Header\<close> holds the request and response headers and the
  Write codec.  \<open>Uadp\<close> models \<^verbatim>\<open>uadp_encoder.c\<close>: a message round trip, and the silent loss
  of a string that does not fit.

  \<^bold>\<open>Transport and security\<close> (\<^verbatim>\<open>src/core\<close>, \<^verbatim>\<open>src/security\<close>).  \<open>Chunk_Framing\<close>: chunk and
  sequence headers, response framing, the sequence validator and that it admits no replay.
  \<open>Tcp_Connection\<close>: Hello and Acknowledge with the negotiated limits.  \<open>Security_Policy\<close>:
  policy table and trust list.  \<open>Sym_Chunk\<close>, \<open>Asym_Chunk\<close>: key derivation (equal to the
  stream of RFC 5246), wrapping and unwrapping of MSG and OPN chunks; what is wrapped is
  unwrapped by the peer, and what is accepted is authentic.  \<open>Secure_Channel\<close>, \<open>Session\<close>:
  the channel automaton and the session table with their invariants over all reachable
  states.

  \<^bold>\<open>Address space\<close> (\<^verbatim>\<open>src/address_space\<close>, \<^verbatim>\<open>src/services/node_management.c\<close>).
  \<open>Address_Space\<close>: node ids, the sorted index, and the interface \<open>node_lookup\<close> that the
  linear, the indexed and the direct search implement; validation is exact.  \<open>Base_Nodes\<close>:
  the built-in tables, resolution of a node id through user, run-time and base nodes, and
  that every built-in reference resolves.  \<open>Dynamic_Space\<close>: the slot storage of added nodes
  and references with the string bytes they point to, and the interface \<open>slot_table\<close> of a
  table that appends and removes by moving the last entry; \<open>Node_Management\<close>: decoders,
  encoders and the treatment of an item of the four services.

  \<^bold>\<open>Subscriptions\<close> (\<^verbatim>\<open>src/services/subscription.c\<close>).  \<open>Monitored_Item\<close>: sampling, the
  change filter, the report queue as a bounded list, aggregates.  \<open>Subscription\<close>: the tables,
  timers, trigger links, retransmission, parked requests, the event queue.
  \<open>Notification\<close>: which reports are due and how a message carries and drains them.
  \<open>Engine\<close>: the invariant of all tables.  \<open>Publish\<close>: one turn of the timer; a notification
  message is sent, drained and retained, or nothing changes.

  \<^bold>\<open>Server and services\<close> (\<^verbatim>\<open>src/core/server.c\<close>, \<^verbatim>\<open>service_dispatch.c\<close>).
  \<open>Server_State\<close>: the server object, sending and framing.  \<open>Server_Invariant\<close>: the invariant
  \<open>server_inv\<close> that every modelled handler keeps.  \<open>Service_Core\<close>: the calling convention of
  handlers, as a state monad over reader, writer and server.  \<open>Discovery\<close>,
  \<open>Session_Services\<close>: GetEndpoints, FindServers, OpenSecureChannel, CreateSession,
  ActivateSession, CloseSession; who can activate a session, what is advertised.

  \<^bold>\<open>Bounds and termination.\<close>  Every function is total and no definition takes fuel.  The
  loops of the code are structural recursions over a list or a count, or \<open>function\<close>s with a
  measure (binary search, key stream, purging references, the publishing timer, whose loop
  ends because the timer grows or saturates).  Identifier generation tries as many
  candidates as there are sessions and one more, as in the code;
  it is a theorem of \<open>Session\<close> that one of them is free.

  \<^bold>\<open>Not modelled.\<close>  The handlers of the view, attribute, method, query, history and
  subscription services and the dispatch table; the poll loop of \<^verbatim>\<open>server.c\<close>; the PubSub
  schedule; the platform directory, which binds third-party libraries and the operating
  system; the generated identifier table and the status names; alarms and conditions.  The
  query decoder writes through a cast beyond the object it is given, which has no faithful
  counterpart in a model by value.
\<close>

end
